(* ===== verification/Json.thy ===== *)
theory Json
  imports Prelude "HOL-Library.Countable"
begin

text \<open>
  JSON values and Go's \<open>encoding/json\<close> rules for structs: which fields are written,
  how the keys of an object find the fields of a struct, and when decoding fails.

  The text of a value is a parameter, \<open>json_text\<close>: printing, parsing a whole text
  (\<open>json.Unmarshal\<close>) and parsing the first value of a stream
  (\<open>json.NewDecoder(r).Decode\<close>), and likewise the RFC 3339 text of an instant.
  The hypothesis \<open>json_law\<close> says that parsing undoes printing for values whose
  strings are valid UTF-8 (Go replaces invalid bytes), \<open>time_law\<close> that a printed
  instant reads back as itself. Instants are nanoseconds since Go's zero time, which is 0.
\<close>

datatype json =
    JNull
  | JBool bool
  | JInt int
  | JFloat string
  | JStr string
  | JArr "json list"
  | JObj "(string \<times> json) list"

section \<open>UTF-8\<close>

definition cont_byte :: "nat \<Rightarrow> nat \<Rightarrow> char \<Rightarrow> bool" where
  "cont_byte lo hi c \<longleftrightarrow> lo \<le> (of_char c :: nat) \<and> (of_char c :: nat) \<le> hi"

text \<open>
  \<open>utf8.ValidString\<close> as an automaton: the state lists the ranges in which the
  continuation bytes still due must lie.
\<close>

definition utf8_lead :: "char \<Rightarrow> (nat \<times> nat) list option" where
  "utf8_lead c =
     (let n = (of_char c :: nat)
      in if n < 0x80 then Some []
         else if 0xC2 \<le> n \<and> n \<le> 0xDF then Some [(0x80, 0xBF)]
         else if n = 0xE0 then Some [(0xA0, 0xBF), (0x80, 0xBF)]
         else if n = 0xED then Some [(0x80, 0x9F), (0x80, 0xBF)]
         else if 0xE1 \<le> n \<and> n \<le> 0xEF then Some [(0x80, 0xBF), (0x80, 0xBF)]
         else if n = 0xF0 then Some [(0x90, 0xBF), (0x80, 0xBF), (0x80, 0xBF)]
         else if 0xF1 \<le> n \<and> n \<le> 0xF3 then Some [(0x80, 0xBF), (0x80, 0xBF), (0x80, 0xBF)]
         else if n = 0xF4 then Some [(0x80, 0x8F), (0x80, 0xBF), (0x80, 0xBF)]
         else None)"

fun utf8_run :: "(nat \<times> nat) list \<Rightarrow> string \<Rightarrow> bool" where
  "utf8_run st [] \<longleftrightarrow> st = []"
| "utf8_run ((lo, hi) # st) (c # s) \<longleftrightarrow> cont_byte lo hi c \<and> utf8_run st s"
| "utf8_run [] (c # s) \<longleftrightarrow> (case utf8_lead c of None \<Rightarrow> False | Some st \<Rightarrow> utf8_run st s)"

definition ValidUtf8 :: "string \<Rightarrow> bool" where
  "ValidUtf8 s = utf8_run [] s"

fun json_utf8 :: "json \<Rightarrow> bool" where
  "json_utf8 (JStr s) \<longleftrightarrow> ValidUtf8 s"
| "json_utf8 (JArr vs) \<longleftrightarrow> (\<forall>v \<in> set vs. json_utf8 v)"
| "json_utf8 (JObj ps) \<longleftrightarrow> (\<forall>p \<in> set ps. ValidUtf8 (fst p) \<and> json_utf8 (snd p))"
| "json_utf8 _ \<longleftrightarrow> True"

section \<open>Text\<close>

record json_text =
  json_print :: "json \<Rightarrow> string"
  json_parse :: "string \<Rightarrow> json option"
  json_first :: "string \<Rightarrow> json option"

definition json_law :: "json_text \<Rightarrow> bool" where
  "json_law J \<longleftrightarrow> (\<forall>j. json_utf8 j \<longrightarrow> json_parse J (json_print J j) = Some j)"

text \<open>\<open>Time.MarshalJSON\<close> fails for a year outside [0, 9999]: then \<open>time_print\<close> is \<open>None\<close>.\<close>

record time_text =
  time_print :: "int \<Rightarrow> string option"
  time_parse :: "string \<Rightarrow> int option"

definition time_law :: "time_text \<Rightarrow> bool" where
  "time_law T \<longleftrightarrow>
     (\<forall>t s. time_print T t = Some s \<longrightarrow> time_parse T s = Some t \<and> ValidUtf8 s)"

section \<open>Keys and fields\<close>

text \<open>
  \<open>foldName\<close>: letters to upper case, and the two non-ASCII letters that fold to an
  ASCII one, the long s (C5 BF) and the Kelvin sign (E2 84 AA).
\<close>

fun fold_name :: "string \<Rightarrow> string" where
  "fold_name (a # b # c # s) =
     (if (of_char a :: nat) = 0xC5 \<and> (of_char b :: nat) = 0xBF then CHR ''S'' # fold_name (c # s)
      else if (of_char a :: nat) = 0xE2 \<and> (of_char b :: nat) = 0x84 \<and> (of_char c :: nat) = 0xAA
      then CHR ''K'' # fold_name s
      else upper_char a # fold_name (b # c # s))"
| "fold_name [a, b] =
     (if (of_char a :: nat) = 0xC5 \<and> (of_char b :: nat) = 0xBF then ''S''
      else [upper_char a, upper_char b])"
| "fold_name [a] = [upper_char a]"
| "fold_name [] = []"

text \<open>
  A struct is described by its fields in order: the key and what decoding a value into the
  field does (\<open>None\<close> is an \<open>UnmarshalTypeError\<close>).
\<close>

type_synonym 'r field = "string \<times> (json \<Rightarrow> 'r \<Rightarrow> 'r option)"

definition find_field :: "'r field list \<Rightarrow> string \<Rightarrow> (json \<Rightarrow> 'r \<Rightarrow> 'r option) option" where
  "find_field fs k =
     (case map_of fs k of
        Some f \<Rightarrow> Some f
      | None \<Rightarrow> map_of (map (\<lambda>(n, f). (fold_name n, f)) fs) (fold_name k))"

fun decode_fields :: "'r field list \<Rightarrow> (string \<times> json) list \<Rightarrow> 'r \<Rightarrow> 'r option" where
  "decode_fields fs [] r = Some r"
| "decode_fields fs ((k, v) # ps) r =
     (case find_field fs k of
        None \<Rightarrow> decode_fields fs ps r
      | Some f \<Rightarrow> (case f v r of None \<Rightarrow> None | Some r' \<Rightarrow> decode_fields fs ps r'))"

definition decode_struct :: "'r field list \<Rightarrow> json \<Rightarrow> 'r \<Rightarrow> 'r option" where
  "decode_struct fs j r =
     (case j of JNull \<Rightarrow> Some r | JObj ps \<Rightarrow> decode_fields fs ps r | _ \<Rightarrow> None)"

fun dec_string :: "(string \<Rightarrow> 'r \<Rightarrow> 'r) \<Rightarrow> json \<Rightarrow> 'r \<Rightarrow> 'r option" where
  "dec_string upd JNull r = Some r"
| "dec_string upd (JStr s) r = Some (upd s r)"
| "dec_string upd _ r = None"

fun dec_bool :: "(bool \<Rightarrow> 'r \<Rightarrow> 'r) \<Rightarrow> json \<Rightarrow> 'r \<Rightarrow> 'r option" where
  "dec_bool upd JNull r = Some r"
| "dec_bool upd (JBool b) r = Some (upd b r)"
| "dec_bool upd _ r = None"

definition int64 :: "int \<Rightarrow> bool" where
  "int64 i \<longleftrightarrow> - (2 ^ 63) \<le> i \<and> i < 2 ^ 63"

fun dec_int :: "(int \<Rightarrow> 'r \<Rightarrow> 'r) \<Rightarrow> json \<Rightarrow> 'r \<Rightarrow> 'r option" where
  "dec_int upd JNull r = Some r"
| "dec_int upd (JInt i) r = (if int64 i then Some (upd i r) else None)"
| "dec_int upd _ r = None"

fun dec_time :: "time_text \<Rightarrow> (int \<Rightarrow> 'r \<Rightarrow> 'r) \<Rightarrow> json \<Rightarrow> 'r \<Rightarrow> 'r option" where
  "dec_time T upd JNull r = Some r"
| "dec_time T upd (JStr s) r = map_option (\<lambda>t. upd t r) (time_parse T s)"
| "dec_time T upd _ r = None"

text \<open>Decoding into a \<open>map[string]T\<close> keeps the last value of a repeated key; null gives a nil map.\<close>

fun decode_map :: "json \<Rightarrow> (string \<rightharpoonup> json) option" where
  "decode_map JNull = Some Map.empty"
| "decode_map (JObj ps) = Some (map_of (rev ps))"
| "decode_map _ = None"

section \<open>Lemmas\<close>

lemma utf8_ascii: "list_all (\<lambda>c. (of_char c :: nat) < 128) s \<Longrightarrow> ValidUtf8 s"
  unfolding ValidUtf8_def by (induction s) (auto simp: utf8_lead_def)

lemma find_field_exact [simp]: "map_of fs k = Some f \<Longrightarrow> find_field fs k = Some f"
  by (simp add: find_field_def)

text \<open>Decoding the object that the fields of a struct were written to.\<close>

lemma decode_fields_Cons_exact:
  "map_of fs k = Some f \<Longrightarrow> f v r = Some r' \<Longrightarrow>
     decode_fields fs ((k, v) # ps) r = decode_fields fs ps r'"
  by simp

lemma decode_fields_append:
  "decode_fields fs (ps @ qs) r = Option.bind (decode_fields fs ps r) (decode_fields fs qs)"
proof (induction fs ps r rule: decode_fields.induct)
  case (2 fs k v ps r)
  then show ?case by (auto split: option.splits)
qed simp

section \<open>A concrete text\<close>

text \<open>
  An instance that meets the laws, for evaluating the theorems on concrete inputs: values
  and instants are counted, and a text is the unary form of the count.
\<close>

instance json :: countable
  by countable_datatype

definition unary_json :: json_text where
  "unary_json = \<lparr>json_print = (\<lambda>j. replicate (to_nat j) CHR ''j''),
     json_parse = (\<lambda>s. Some (from_nat (length s))), json_first = (\<lambda>s. Some (from_nat (length s)))\<rparr>"

definition unary_time :: time_text where
  "unary_time = \<lparr>time_print = (\<lambda>t. if 0 \<le> t then Some (replicate (nat t) CHR ''t'') else None),
     time_parse = (\<lambda>s. Some (int (length s)))\<rparr>"

lemma unary_json_law: "json_law unary_json"
  by (simp add: json_law_def unary_json_def)

text \<open>The same with one chosen value printed as a single byte.\<close>

definition pinned_json :: "json \<Rightarrow> json_text" where
  "pinned_json j0 = \<lparr>json_print = (\<lambda>j. if j = j0 then ''0'' else CHR ''j'' # replicate (to_nat j) CHR ''j''),
     json_parse = (\<lambda>s. if s = ''0'' then Some j0 else Some (from_nat (length s - 1))),
     json_first = (\<lambda>s. if s = ''0'' then Some j0 else Some (from_nat (length s - 1)))\<rparr>"

lemma pinned_json_law: "json_law (pinned_json j0)"
  by (simp add: json_law_def pinned_json_def)

lemma unary_time_law: "time_law unary_time"
  by (auto simp: time_law_def unary_time_def list_all_iff intro!: utf8_ascii split: if_splits)

end
