(* ===== verification/ConfigTypes.thy ===== *)
theory ConfigTypes
  imports Complex_Main Prelude "HOL-Library.Word"
begin

unbundle bit_operations_syntax

text \<open>
  \<open>src/config/config.go\<close>, \<open>src/errorPages/config.go\<close>: the configuration structs as records,
  \<open>CreateConfig\<close> and \<open>migrateAuthBehaviors\<close> of \<open>src/config.go\<close>, and the IP
  networks of \<open>trustedProxies\<close> (\<open>net.IPNet.Contains\<close>).

  A field whose name another record already has carries the struct's name in front. The
  pointers \<open>Provider\<close>, \<open>SessionCookie\<close>, \<open>Authorization\<close> and \<open>ErrorPages\<close> are
  dereferenced by \<open>New\<close> before a middleware exists, so they are plain values here;
  the two that the request path tests for nil are options. The renewal threshold is a
  \<open>float64\<close>: a rational, an infinity or not a number, compared as Go does; only the
  rounding of its arithmetic is left out.
\<close>

section \<open>IP networks\<close>

type_synonym ip = "8 word list"

record IPNet =
  NetIP :: ip
  NetMask :: ip

text \<open>\<open>IP.To4\<close>: four bytes, or the last four of an IPv4-mapped IPv6 address.\<close>

definition To4 :: "ip \<Rightarrow> ip option" where
  "To4 ip =
     (if length ip = 4 then Some ip
      else if length ip = 16 \<and> take 12 ip = replicate 10 0 @ [0xFF, 0xFF] then Some (drop 12 ip)
      else None)"

definition networkNumberAndMask :: "IPNet \<Rightarrow> (ip \<times> ip) option" where
  "networkNumberAndMask n =
     (let ip = (case To4 (NetIP n) of Some x \<Rightarrow> x | None \<Rightarrow> NetIP n); m = NetMask n
      in if length ip \<noteq> 4 \<and> length ip \<noteq> 16 then None
         else if length m = 4 then (if length ip \<noteq> 4 then None else Some (ip, m))
         else if length m = 16 then Some (ip, if length ip = 4 then drop 12 m else m)
         else None)"

definition IPNet_Contains :: "IPNet \<Rightarrow> ip \<Rightarrow> bool" where
  "IPNet_Contains n ip0 =
     (case networkNumberAndMask n of
        None \<Rightarrow> ip0 = []
      | Some (nn, m) \<Rightarrow>
          (let ip = (case To4 ip0 of Some x \<Rightarrow> x | None \<Rightarrow> ip0)
           in length ip = length nn \<and> list_all (\<lambda>i. (nn ! i AND m ! i) = (ip ! i AND m ! i)) [0..<length ip]))"

section \<open>Floating-point numbers\<close>

text \<open>No comparison with \<open>NaN\<close> holds.\<close>

datatype float64 = Fin rat | PInf | NInf | NaN

fun float_less :: "float64 \<Rightarrow> float64 \<Rightarrow> bool" where
  "float_less NaN _ \<longleftrightarrow> False"
| "float_less _ NaN \<longleftrightarrow> False"
| "float_less (Fin a) (Fin b) \<longleftrightarrow> a < b"
| "float_less NInf b \<longleftrightarrow> b \<noteq> NInf"
| "float_less _ NInf \<longleftrightarrow> False"
| "float_less _ PInf \<longleftrightarrow> True"
| "float_less PInf (Fin _) \<longleftrightarrow> False"

text \<open>A finite number times any other.\<close>

fun float_scale :: "rat \<Rightarrow> float64 \<Rightarrow> float64" where
  "float_scale a (Fin b) = Fin (a * b)"
| "float_scale a PInf = (if a = 0 then NaN else if 0 < a then PInf else NInf)"
| "float_scale a NInf = (if a = 0 then NaN else if 0 < a then NInf else PInf)"
| "float_scale a NaN = NaN"

section \<open>Structs\<close>

record ProviderConfig =
  Provider_Url :: string
  InsecureSkipVerify :: string
  InsecureSkipVerifyBool :: bool
  CABundle :: string
  CABundleFile :: string
  ClientId :: string
  ClientSecret :: string
  ClientJwtPrivateKey_Pem :: string
  ClientJwtPrivateKeyId :: string
  UsePkce :: string
  UsePkceBool :: bool
  ValidateAudience :: string
  ValidateAudienceBool :: bool
  ValidAudience :: string
  ValidateIssuer :: string
  ValidateIssuerBool :: bool
  ValidIssuer :: string
  TokenValidation :: string
  TokenRenewalThreshold :: float64
  UseClaimsFromUserInfo :: string
  UseClaimsFromUserInfoBool :: bool
  ValidateNonce :: string
  ValidateNonceBool :: bool
  TokenClockSkewSeconds :: int
  RevokeTokensOnLogout :: string
  RevokeTokensOnLogoutBool :: bool
  MaxAuthAgeSeconds :: int
  OidcTimeoutSeconds :: int

record SessionCookieConfig =
  SC_Path :: string
  SC_Domain :: string
  SC_Secure :: bool
  SC_HttpOnly :: bool
  SC_SameSite :: string
  SC_MaxAge :: int

record ClaimAssertion =
  Claim_Name :: string
  AnyOf :: "string list"
  AllOf :: "string list"

record AuthorizationConfig =
  AssertClaims :: "ClaimAssertion list"
  CheckOnEveryRequest :: bool

record HeaderConfig =
  Header_Name :: string
  Header_Value :: string
  Header_Values :: string
  IncludeWhen :: string

record ErrorPageConfig =
  FilePath :: string
  RedirectTo :: string

record ErrorPagesConfig =
  Unauthenticated :: ErrorPageConfig
  Unauthorized :: ErrorPageConfig

text \<open>
  \<open>AuthorizationHeader\<close> and \<open>AuthorizationCookie\<close> hold the \<open>Name\<close> of the struct
  they point to. \<open>AuthorizationParams\<close> is a map in the order in which it is ranged over.
\<close>

record Config =
  LogLevel :: string
  Secret :: string
  Provider :: ProviderConfig
  Scopes :: "string list"
  CallbackUri :: string
  LoginUri :: string
  PostLoginRedirectUri :: string
  ValidPostLoginRedirectUris :: "string list"
  LogoutUri :: string
  PostLogoutRedirectUri :: string
  ValidPostLogoutRedirectUris :: "string list"
  FrontChannelLogoutUri :: string
  SessionStorageType :: string
  CookieNamePrefix :: string
  SessionCookie :: SessionCookieConfig
  AuthorizationHeader :: "string option"
  AuthorizationCookie :: "string option"
  UnauthenticatedBehavior :: string
  UnauthorizedBehavior :: string
  Authorization :: AuthorizationConfig
  Headers :: "HeaderConfig list"
  BypassAuthenticationRuleText :: string
  ErrorPages :: ErrorPagesConfig
  RequestedResources :: "string list"
  AuthorizationParams :: "(string \<times> string) list"
  AuthorizationParamsOverridable :: "string list"
  TrustedProxies :: "string list"
  TrustedProxyNets :: "IPNet list"
  MaxSessionLifetimeSeconds :: int
  SessionIdleTimeoutSeconds :: int

definition DefaultSecret :: string where
  "DefaultSecret = ''MLFs4TT99kOOq8h3UAVRtYoCTDYXiRcZ''"

definition SessionStorageTypeCookie :: string where
  "SessionStorageTypeCookie = ''Cookie''"

section \<open>Defaults\<close>

definition CreateConfig :: Config where
  "CreateConfig = \<lparr>
     LogLevel = ''WARN'',
     Secret = DefaultSecret,
     Provider = \<lparr>
       Provider_Url = [], InsecureSkipVerify = [], InsecureSkipVerifyBool = False,
       CABundle = [], CABundleFile = [], ClientId = [], ClientSecret = [],
       ClientJwtPrivateKey_Pem = [], ClientJwtPrivateKeyId = [],
       UsePkce = [], UsePkceBool = True,
       ValidateAudience = [], ValidateAudienceBool = True, ValidAudience = [],
       ValidateIssuer = [], ValidateIssuerBool = True, ValidIssuer = [],
       TokenValidation = ''IdToken'', TokenRenewalThreshold = Fin (3 / 4),
       UseClaimsFromUserInfo = [], UseClaimsFromUserInfoBool = False,
       ValidateNonce = [], ValidateNonceBool = True, TokenClockSkewSeconds = 60,
       RevokeTokensOnLogout = [], RevokeTokensOnLogoutBool = True,
       MaxAuthAgeSeconds = 0, OidcTimeoutSeconds = 30\<rparr>,
     Scopes = [],
     CallbackUri = ''/oidc/callback'',
     LoginUri = [], PostLoginRedirectUri = [], ValidPostLoginRedirectUris = [],
     LogoutUri = ''/logout'', PostLogoutRedirectUri = ''/'', ValidPostLogoutRedirectUris = [],
     FrontChannelLogoutUri = ''/frontchannel-logout'',
     SessionStorageType = [],
     CookieNamePrefix = ''TraefikOidcAuth'',
     SessionCookie = \<lparr>SC_Path = ''/'', SC_Domain = [], SC_Secure = True, SC_HttpOnly = True,
       SC_SameSite = ''lax'', SC_MaxAge = 0\<rparr>,
     AuthorizationHeader = Some [], AuthorizationCookie = Some [],
     UnauthenticatedBehavior = [], UnauthorizedBehavior = [],
     Authorization = \<lparr>AssertClaims = [], CheckOnEveryRequest = False\<rparr>,
     Headers = [],
     BypassAuthenticationRuleText = [],
     ErrorPages = \<lparr>Unauthenticated = \<lparr>FilePath = [], RedirectTo = []\<rparr>,
       Unauthorized = \<lparr>FilePath = [], RedirectTo = []\<rparr>\<rparr>,
     RequestedResources = [],
     AuthorizationParams = [], AuthorizationParamsOverridable = [],
     TrustedProxies = [], TrustedProxyNets = [],
     MaxSessionLifetimeSeconds = 0, SessionIdleTimeoutSeconds = 0\<rparr>"

text \<open>The legacy single behaviour is split over the two fields.\<close>

definition migrateAuthBehaviors :: "Config \<Rightarrow> Config" where
  "migrateAuthBehaviors cfg =
     (if UnauthenticatedBehavior cfg \<noteq> []
      then (if UnauthorizedBehavior cfg = [] then cfg\<lparr>UnauthorizedBehavior := ''Unauthorized''\<rparr> else cfg)
      else
        (let cfg1 = cfg\<lparr>UnauthenticatedBehavior := UnauthorizedBehavior cfg\<rparr>;
             cfg2 = (if UnauthenticatedBehavior cfg1 = []
                     then cfg1\<lparr>UnauthenticatedBehavior := ''Auto''\<rparr> else cfg1)
         in if UnauthorizedBehavior cfg2 \<noteq> ''Forward''
            then cfg2\<lparr>UnauthorizedBehavior := ''Unauthorized''\<rparr> else cfg2))"

end
