(* ===== verification/Http.thy ===== *)
theory Http
  imports Prelude "HOL-Library.Char_ord" "HOL-Library.List_Lexorder"
begin

text \<open>
  The part of Go's \<open>net/url\<close> and \<open>net/http\<close> that the middleware computes with:
  URLs, percent encoding, query strings, canonical header maps, the \<open>Cookie\<close> request
  header and the calls made on a response writer. Everything here is executable; the
  parsing of a whole URL (\<open>url.Parse\<close>) and its printing stay parameters of the
  definitions that use them.
\<close>

section \<open>Requests and responses\<close>

record url =
  Scheme :: string
  UHost :: string
  Path :: string
  RawQuery :: string

text \<open>\<open>http.Header\<close>: canonical name to values, the empty list for an absent name.\<close>

type_synonym header = "string \<Rightarrow> string list"

record request =
  Method :: string
  URL :: url
  Host :: string
  Header :: header
  RemoteAddr :: string
  TLS :: bool
  RequestURI :: string

datatype SameSite = SameSiteDefaultMode | SameSiteLaxMode | SameSiteStrictMode | SameSiteNoneMode

text \<open>
  A response cookie. \<open>Expires\<close> is the instant \<open>makeCookieExpireImmediately\<close> writes
  (nanoseconds), \<open>None\<close> for a cookie without the attribute.
\<close>

record cookie =
  Name :: string
  Value :: string
  CookiePath :: string
  Domain :: string
  Expires :: "int option"
  MaxAge :: int
  Secure :: bool
  HttpOnly :: bool
  CookieSameSite :: SameSite

section \<open>Percent encoding\<close>

definition hex_val :: "char \<Rightarrow> nat option" where
  "hex_val c =
     (let n = (of_char c :: nat)
      in if 48 \<le> n \<and> n \<le> 57 then Some (n - 48)
         else if 97 \<le> n \<and> n \<le> 102 then Some (n - 87)
         else if 65 \<le> n \<and> n \<le> 70 then Some (n - 55)
         else None)"

text \<open>
  \<open>url.unescape\<close>; \<open>None\<close> is an \<open>EscapeError\<close>. The flag is the query mode, in
  which \<open>+\<close> stands for a space.
\<close>

fun unescape :: "bool \<Rightarrow> string \<Rightarrow> string option" where
  "unescape qm [] = Some []"
| "unescape qm (c # s) =
     (if c = CHR ''%''
      then (case s of
              a # b # r \<Rightarrow>
                (case (hex_val a, hex_val b) of
                   (Some x, Some y) \<Rightarrow> map_option ((#) (char_of (16 * x + y))) (unescape qm r)
                 | _ \<Rightarrow> None)
            | _ \<Rightarrow> None)
      else map_option ((#) (if qm \<and> c = CHR ''+'' then CHR '' '' else c)) (unescape qm s))"

definition PathUnescape :: "string \<Rightarrow> string option" where
  "PathUnescape s = unescape False s"

definition QueryUnescape :: "string \<Rightarrow> string option" where
  "QueryUnescape s = unescape True s"

definition unreserved :: "char \<Rightarrow> bool" where
  "unreserved c \<longleftrightarrow>
     (let n = (of_char c :: nat)
      in (48 \<le> n \<and> n \<le> 57) \<or> (65 \<le> n \<and> n \<le> 90) \<or> (97 \<le> n \<and> n \<le> 122)
         \<or> c \<in> set ''-_.~'')"

definition hex_digit :: "nat \<Rightarrow> char" where
  "hex_digit n = (if n < 10 then char_of (48 + n) else char_of (55 + n))"

definition escape_char :: "char \<Rightarrow> string" where
  "escape_char c =
     (if unreserved c then [c]
      else if c = CHR '' '' then ''+''
      else [CHR ''%'', hex_digit ((of_char c :: nat) div 16), hex_digit ((of_char c :: nat) mod 16)])"

definition QueryEscape :: "string \<Rightarrow> string" where
  "QueryEscape s = concat (map escape_char s)"

section \<open>Query strings and url.Values\<close>

definition CutChar :: "char \<Rightarrow> string \<Rightarrow> string \<times> string" where
  "CutChar sep s = (takeWhile (\<lambda>c. c \<noteq> sep) s, drop 1 (dropWhile (\<lambda>c. c \<noteq> sep) s))"

text \<open>One \<open>key=value\<close> piece; an undecodable piece or one with a semicolon is dropped.\<close>

definition parse_pair :: "string \<Rightarrow> (string \<times> string) list" where
  "parse_pair piece =
     (if piece = [] \<or> CHR '';'' \<in> set piece then []
      else case CutChar CHR ''='' piece of (k, v) \<Rightarrow>
        (case (QueryUnescape k, QueryUnescape v) of
           (Some k', Some v') \<Rightarrow> [(k', v')]
         | _ \<Rightarrow> []))"

definition ParseQuery :: "string \<Rightarrow> (string \<times> string) list" where
  "ParseQuery q = concat (map parse_pair (SplitChar CHR ''&'' q))"

text \<open>\<open>req.URL.Query().Get(key)\<close>: the first value, empty when there is none.\<close>

definition Query_Get :: "request \<Rightarrow> string \<Rightarrow> string" where
  "Query_Get req k =
     (case map_of (ParseQuery (RawQuery (URL req))) k of None \<Rightarrow> [] | Some v \<Rightarrow> v)"

text \<open>\<open>url.Values\<close>: keys with their values; \<open>Encode\<close> sorts by key.\<close>

type_synonym "values" = "(string \<times> string list) list"

fun Values_Set :: "string \<Rightarrow> string list \<Rightarrow> values \<Rightarrow> values" where
  "Values_Set k vs [] = [(k, vs)]"
| "Values_Set k vs ((k', vs') # r) =
     (if k = k' then (k, vs) # r else (k', vs') # Values_Set k vs r)"

definition Values_Get :: "values \<Rightarrow> string \<Rightarrow> string list" where
  "Values_Get m k = (case map_of m k of None \<Rightarrow> [] | Some vs \<Rightarrow> vs)"

definition Values_Add :: "string \<Rightarrow> string \<Rightarrow> values \<Rightarrow> values" where
  "Values_Add k v m = Values_Set k (Values_Get m k @ [v]) m"

definition Values_pairs :: "values \<Rightarrow> (string \<times> string) list" where
  "Values_pairs m = concat (map (\<lambda>(k, vs). map (Pair k) vs) (sort_key fst m))"

definition Values_Encode :: "values \<Rightarrow> string" where
  "Values_Encode m =
     Join (map (\<lambda>(k, v). QueryEscape k @ ''='' @ QueryEscape v) (Values_pairs m)) ''&''"

section \<open>Headers\<close>

definition token_char :: "char \<Rightarrow> bool" where
  "token_char c \<longleftrightarrow>
     (let n = (of_char c :: nat)
      in (48 \<le> n \<and> n \<le> 57) \<or> (65 \<le> n \<and> n \<le> 90) \<or> (97 \<le> n \<and> n \<le> 122)
         \<or> n \<in> {33, 35, 36, 37, 38, 39, 42, 43, 45, 46, 94, 95, 96, 124, 126})"

fun canonical_loop :: "bool \<Rightarrow> string \<Rightarrow> string" where
  "canonical_loop up [] = []"
| "canonical_loop up (c # s) =
     (if up then upper_char c else lower_char c) # canonical_loop (c = CHR ''-'') s"

text \<open>\<open>CanonicalMIMEHeaderKey\<close>: a name with a non-token byte is left alone.\<close>

definition CanonicalHeaderKey :: "string \<Rightarrow> string" where
  "CanonicalHeaderKey s = (if list_all token_char s then canonical_loop True s else s)"

definition Header_Get :: "header \<Rightarrow> string \<Rightarrow> string" where
  "Header_Get h k = (case h (CanonicalHeaderKey k) of [] \<Rightarrow> [] | v # _ \<Rightarrow> v)"

definition Header_Set :: "string \<Rightarrow> string \<Rightarrow> header \<Rightarrow> header" where
  "Header_Set k v h = h(CanonicalHeaderKey k := [v])"

definition Header_Add :: "string \<Rightarrow> string \<Rightarrow> header \<Rightarrow> header" where
  "Header_Add k v h = h(CanonicalHeaderKey k := h (CanonicalHeaderKey k) @ [v])"

definition Header_Del :: "string \<Rightarrow> header \<Rightarrow> header" where
  "Header_Del k h = h(CanonicalHeaderKey k := [])"

section \<open>The Cookie request header\<close>

text \<open>\<open>textproto.TrimString\<close>: blanks, tabs and line ends on both sides.\<close>

definition is_http_space :: "char \<Rightarrow> bool" where
  "is_http_space c \<longleftrightarrow> (of_char c :: nat) \<in> {32, 9, 10, 13}"

definition TrimString :: "string \<Rightarrow> string" where
  "TrimString s = rev (dropWhile is_http_space (rev (dropWhile is_http_space s)))"

definition isCookieNameValid :: "string \<Rightarrow> bool" where
  "isCookieNameValid n \<longleftrightarrow> n \<noteq> [] \<and> list_all token_char n"

definition validCookieValueByte :: "char \<Rightarrow> bool" where
  "validCookieValueByte c \<longleftrightarrow>
     (let n = (of_char c :: nat) in 32 \<le> n \<and> n < 127 \<and> n \<noteq> 34 \<and> n \<noteq> 59 \<and> n \<noteq> 92)"

text \<open>A quoted value loses its quotes; the flag remembers that it had them.\<close>

definition parseCookieValue :: "string \<Rightarrow> (string \<times> bool) option" where
  "parseCookieValue raw =
     (let q = (1 < length raw \<and> hd raw = CHR 0x22 \<and> last raw = CHR 0x22);
          v = (if q then butlast (tl raw) else raw)
      in if list_all validCookieValueByte v then Some (v, q) else None)"

text \<open>A request cookie: name, value and whether the value was quoted.\<close>

type_synonym req_cookie = "string \<times> string \<times> bool"

definition read_cookie_part :: "string \<Rightarrow> req_cookie list" where
  "read_cookie_part part0 =
     (let part = TrimString part0
      in if part = [] then []
         else case CutChar CHR ''='' part of (n, v) \<Rightarrow>
           (let name = TrimString n
            in if \<not> isCookieNameValid name then []
               else case parseCookieValue v of None \<Rightarrow> [] | Some (v', q) \<Rightarrow> [(name, v', q)]))"

definition readCookies :: "header \<Rightarrow> req_cookie list" where
  "readCookies h =
     concat (map (\<lambda>line. concat (map read_cookie_part (SplitChar CHR '';'' (TrimString line))))
       (h ''Cookie''))"

definition Cookies :: "request \<Rightarrow> req_cookie list" where
  "Cookies req = readCookies (Header req)"

text \<open>\<open>req.Cookie(name)\<close>: the value of the first cookie of that name, \<open>None\<close> for \<open>ErrNoCookie\<close>.\<close>

definition Cookie :: "request \<Rightarrow> string \<Rightarrow> string option" where
  "Cookie req name = (if name = [] then None else map_option fst (map_of (Cookies req) name))"

definition sanitizeCookieName :: "string \<Rightarrow> string" where
  "sanitizeCookieName n = map (\<lambda>c. if (of_char c :: nat) \<in> {10, 13} then CHR ''-'' else c) n"

definition sanitizeCookieValue :: "string \<Rightarrow> bool \<Rightarrow> string" where
  "sanitizeCookieValue v0 quoted =
     (let v = filter validCookieValueByte v0
      in if v = [] then []
         else if CHR '' '' \<in> set v \<or> CHR '','' \<in> set v \<or> quoted
              then [CHR 0x22] @ v @ [CHR 0x22] else v)"

definition AddCookie :: "req_cookie \<Rightarrow> header \<Rightarrow> header" where
  "AddCookie ck h =
     (case ck of (n, v, q) \<Rightarrow>
        (let s = sanitizeCookieName n @ ''='' @ sanitizeCookieValue v q
         in if Header_Get h ''Cookie'' \<noteq> []
            then Header_Set ''Cookie'' (Header_Get h ''Cookie'' @ ''; '' @ s) h
            else Header_Set ''Cookie'' s h))"

section \<open>The response writer\<close>

text \<open>
  A response writer is the sequence of calls made on it. \<open>Forward\<close> is the call of the
  wrapped handler, \<open>next.ServeHTTP\<close>, with the request it gets; what it then writes is
  the application's. \<open>SetCookie\<close> drops a cookie with an invalid name, as
  \<open>http.SetCookie\<close> does.
\<close>

datatype rw_event =
    EvSetCookie cookie
  | EvSetHeader string string
  | EvError string nat
  | EvRedirect string nat
  | EvPage nat string
  | EvProblem nat string string string
  | EvForward request

type_synonym rw = "rw_event list"

definition SetCookie :: "cookie \<Rightarrow> rw \<Rightarrow> rw" where
  "SetCookie c w = (if isCookieNameValid (Name c) then w @ [EvSetCookie c] else w)"

text \<open>The events that commit a response (write a status or hand the request on).\<close>

fun commits :: "rw_event \<Rightarrow> bool" where
  "commits (EvSetCookie _) = False"
| "commits (EvSetHeader _ _) = False"
| "commits _ = True"

definition commit_count :: "rw \<Rightarrow> nat" where
  "commit_count w = length (filter commits w)"

section \<open>Lemmas on escaping\<close>

lemma of_char_hex_digit:
  "n < 16 \<Longrightarrow> (of_char (hex_digit n) :: nat) = (if n < 10 then 48 + n else 55 + n)"
  by (simp add: hex_digit_def)

lemma of_char_div_16: "(of_char c :: nat) div 16 < 16"
  by (rule less_mult_imp_div_less) simp

lemma hex_val_digit: "n < 16 \<Longrightarrow> hex_val (hex_digit n) = Some n"
  by (auto simp: hex_val_def of_char_hex_digit Let_def)

lemma unescape_plain:
  "c \<noteq> CHR ''%'' \<Longrightarrow> c \<noteq> CHR ''+'' \<Longrightarrow> unescape p (c # s) = map_option ((#) c) (unescape p s)"
  by simp

lemma unescape_escape_char:
  "unescape True (escape_char c @ s) = map_option ((#) c) (unescape True s)"
proof (cases "unreserved c")
  case True
  then have "c \<noteq> CHR ''%''" "c \<noteq> CHR ''+''" by (auto simp: unreserved_def)
  with True show ?thesis by (simp add: escape_char_def)
next
  case False
  have h: "hex_val (hex_digit ((of_char c :: nat) div 16)) = Some ((of_char c :: nat) div 16)"
    "hex_val (hex_digit ((of_char c :: nat) mod 16)) = Some ((of_char c :: nat) mod 16)"
    by (simp_all add: hex_val_digit of_char_div_16)
  have "char_of (16 * ((of_char c :: nat) div 16) + (of_char c :: nat) mod 16) = c"
    by (simp only: mult_div_mod_eq char_of_char)
  with False h show ?thesis by (simp add: escape_char_def)
qed

lemma QueryUnescape_Escape [simp]: "QueryUnescape (QueryEscape s) = Some s"
  by (induction s) (simp_all add: QueryUnescape_def QueryEscape_def unescape_escape_char)

lemma unreserved_hex_digit: "n < 16 \<Longrightarrow> unreserved (hex_digit n)"
  by (auto simp: unreserved_def of_char_hex_digit Let_def)

lemma unreserved_escape_char:
  "d \<in> set (escape_char c) \<Longrightarrow> unreserved d \<or> d = CHR ''+'' \<or> d = CHR ''%''"
  by (auto simp: escape_char_def unreserved_hex_digit of_char_div_16 split: if_splits)

lemma QueryEscape_safe:
  "d \<in> set (QueryEscape s) \<Longrightarrow> d \<notin> {CHR ''&'', CHR ''='', CHR '';'', CHR ''#'', CHR ''/'', CHR ''?''}"
  by (auto simp: QueryEscape_def unreserved_def dest!: unreserved_escape_char)

lemma CutChar_append:
  "sep \<notin> set a \<Longrightarrow> CutChar sep (a @ sep # b) = (a, b)"
  by (induction a) (auto simp: CutChar_def)

lemma parse_pair_encoded [simp]:
  "parse_pair (QueryEscape k @ CHR ''='' # QueryEscape v) = [(k, v)]"
proof -
  have "CHR ''='' \<notin> set (QueryEscape k)" "CHR '';'' \<notin> set (QueryEscape k)" "CHR '';'' \<notin> set (QueryEscape v)"
    using QueryEscape_safe by blast+
  then show ?thesis by (simp add: parse_pair_def CutChar_append)
qed

lemma SplitChar_append_sep:
  "sep \<notin> set a \<Longrightarrow> SplitChar sep (a @ sep # b) = a # SplitChar sep b"
  by (induction a) auto

lemma SplitChar_no_sep: "sep \<notin> set a \<Longrightarrow> SplitChar sep a = [a]"
  by (induction a) auto

lemma SplitChar_Join_pieces:
  assumes "ps \<noteq> []" "\<And>p. p \<in> set ps \<Longrightarrow> sep \<notin> set p"
  shows "SplitChar sep (Join ps [sep]) = ps"
  using assms
  by (induction ps "[sep]" rule: Join.induct) (simp_all add: SplitChar_no_sep SplitChar_append_sep)

text \<open>What \<open>Encode\<close> prints, \<open>ParseQuery\<close> reads back: every pair, in order.\<close>

lemma ParseQuery_Encode: "ParseQuery (Values_Encode m) = Values_pairs m"
proof (cases "Values_pairs m = []")
  case True
  then show ?thesis by (simp add: Values_Encode_def ParseQuery_def parse_pair_def)
next
  case False
  let ?enc = "\<lambda>(k, v). QueryEscape k @ ''='' @ QueryEscape v"
  have "CHR ''&'' \<notin> set (?enc kv)" for kv
    using QueryEscape_safe by (cases kv) auto
  with False have "SplitChar CHR ''&'' (Values_Encode m) = map ?enc (Values_pairs m)"
    by (auto simp: Values_Encode_def intro!: SplitChar_Join_pieces)
  moreover have "parse_pair \<circ> ?enc = (\<lambda>kv. [kv])" by (auto simp: fun_eq_iff)
  ultimately show ?thesis by (simp add: ParseQuery_def)
qed

section \<open>Lemmas on values\<close>

lemma Values_Get_Set [simp]: "Values_Get (Values_Set k vs m) k' = (if k' = k then vs else Values_Get m k')"
  by (induction k vs m rule: Values_Set.induct) (auto simp: Values_Get_def)

lemma Values_Get_Add [simp]:
  "Values_Get (Values_Add k v m) k' = (if k' = k then Values_Get m k @ [v] else Values_Get m k')"
  by (simp add: Values_Add_def)

lemma Values_Get_Nil [simp]: "Values_Get [] k = []"
  by (simp add: Values_Get_def)

lemma Values_Get_Cons: "Values_Get ((k, vs) # m) k' = (if k' = k then vs else Values_Get m k')"
  by (simp add: Values_Get_def)

section \<open>Lemmas on headers\<close>

lemma canonical_Cookie [simp]: "CanonicalHeaderKey ''Cookie'' = ''Cookie''"
  by code_simp

lemma Header_Get_Set: 
  "Header_Get (Header_Set k v h) k' = (if CanonicalHeaderKey k' = CanonicalHeaderKey k then v else Header_Get h k')"
  by (simp add: Header_Get_def Header_Set_def)

lemma Header_Get_Del:
  "Header_Get (Header_Del k h) k' = (if CanonicalHeaderKey k' = CanonicalHeaderKey k then [] else Header_Get h k')"
  by (simp add: Header_Get_def Header_Del_def)

section \<open>Lemmas on request cookies\<close>

definition valid_req_cookie :: "req_cookie \<Rightarrow> bool" where
  "valid_req_cookie ck \<longleftrightarrow>
     isCookieNameValid (fst ck) \<and> list_all validCookieValueByte (fst (snd ck))"

definition cookie_text :: "req_cookie \<Rightarrow> string" where
  "cookie_text ck =
     sanitizeCookieName (fst ck) @ ''='' @ sanitizeCookieValue (fst (snd ck)) (snd (snd ck))"

definition name_value :: "req_cookie \<Rightarrow> string \<times> string" where
  "name_value ck = (fst ck, fst (snd ck))"

lemma readCookies_valid: "ck \<in> set (readCookies h) \<Longrightarrow> valid_req_cookie ck"
  by (auto simp: readCookies_def read_cookie_part_def valid_req_cookie_def parseCookieValue_def Let_def
      split: if_splits option.splits prod.splits)

lemma token_char_not:
  assumes "token_char c"
  shows "(of_char c :: nat) \<noteq> 9" "(of_char c :: nat) \<noteq> 10" "(of_char c :: nat) \<noteq> 13"
    "(of_char c :: nat) \<noteq> 32" "(of_char c :: nat) \<noteq> 59" "(of_char c :: nat) \<noteq> 61"
  using assms unfolding token_char_def Let_def insert_iff empty_iff by presburger+

lemma token_char_facts:
  assumes "token_char c"
  shows "c \<noteq> CHR ''=''" "c \<noteq> CHR '';''" "\<not> is_http_space c" "(of_char c :: nat) \<notin> {10, 13}"
  using token_char_not [OF assms] by (auto simp: is_http_space_def)

lemma is_http_space_valid: "validCookieValueByte c \<Longrightarrow> is_http_space c \<Longrightarrow> c = CHR '' ''"
proof -
  assume "validCookieValueByte c" "is_http_space c"
  then have "(of_char c :: nat) = of_char CHR '' ''"
    by (auto simp: validCookieValueByte_def is_http_space_def Let_def)
  then show ?thesis by (simp only: of_char_eq_iff)
qed

lemma sanitizeCookieName_valid [simp]:
  "isCookieNameValid n \<Longrightarrow> sanitizeCookieName n = n"
proof -
  assume "isCookieNameValid n"
  then have "(of_char c :: nat) \<notin> {10, 13}" if "c \<in> set n" for c
    using that token_char_facts(4) [of c] by (auto simp: isCookieNameValid_def list_all_iff)
  then show ?thesis by (auto simp: sanitizeCookieName_def intro!: map_idI)
qed

lemma filter_valid_bytes [simp]:
  "list_all validCookieValueByte v \<Longrightarrow> filter validCookieValueByte v = v"
  by (simp add: list_all_iff)

lemma TrimString_id:
  assumes "s \<noteq> []" "\<not> is_http_space (hd s)" "\<not> is_http_space (last s)"
  shows "TrimString s = s"
proof -
  from assms(1,2) have "dropWhile is_http_space s = s" by (cases s) auto
  moreover from assms(1,3) have "dropWhile is_http_space (rev s) = rev s"
    by (cases "rev s") (auto simp: hd_rev [symmetric])
  ultimately show ?thesis by (simp add: TrimString_def)
qed

lemma TrimString_space: "TrimString (CHR '' '' # s) = TrimString s"
  by (simp add: TrimString_def is_http_space_def)

lemma no_space_last:
  assumes "list_all validCookieValueByte v" "v \<noteq> []" "CHR '' '' \<notin> set v"
  shows "\<not> is_http_space (last v)"
  using assms is_http_space_valid [of "last v"] last_in_set [of v] by (auto simp: list_all_iff)

lemma parseCookieValue_sanitized:
  assumes "list_all validCookieValueByte v"
  shows "\<exists>q'. parseCookieValue (sanitizeCookieValue v q) = Some (v, q')"
proof -
  have "CHR 0x22 \<notin> set v" using assms by (auto simp: list_all_iff validCookieValueByte_def)
  then have "v = [] \<or> hd v \<noteq> CHR 0x22" by (metis hd_in_set)
  with assms show ?thesis
    by (auto simp: parseCookieValue_def sanitizeCookieValue_def Let_def)
qed

lemma valid_value_no_semicolon:
  "list_all validCookieValueByte v \<Longrightarrow> CHR '';'' \<notin> set v"
  by (auto simp: list_all_iff validCookieValueByte_def)

lemma cookie_text_no_semicolon:
  assumes "valid_req_cookie ck"
  shows "CHR '';'' \<notin> set (cookie_text ck)"
proof -
  have "CHR '';'' \<notin> set (fst ck)"
    using assms token_char_facts(2) by (auto simp: valid_req_cookie_def isCookieNameValid_def list_all_iff)
  then show ?thesis
    using assms valid_value_no_semicolon
    by (auto simp: cookie_text_def valid_req_cookie_def sanitizeCookieValue_def Let_def)
qed

lemma cookie_text_ends:
  assumes "valid_req_cookie ck"
  shows "cookie_text ck \<noteq> []" "\<not> is_http_space (hd (cookie_text ck))"
    "\<not> is_http_space (last (cookie_text ck))"
proof -
  from assms obtain c n' where n: "fst ck = c # n'" "token_char c"
    by (auto simp: valid_req_cookie_def isCookieNameValid_def list_all_iff neq_Nil_conv)
  with assms show "cookie_text ck \<noteq> []" "\<not> is_http_space (hd (cookie_text ck))"
    using token_char_facts(3) [of c] by (auto simp: cookie_text_def valid_req_cookie_def)
  have "\<not> is_http_space CHR 0x22" "\<not> is_http_space CHR ''=''" by (simp_all add: is_http_space_def)
  with assms show "\<not> is_http_space (last (cookie_text ck))"
    using no_space_last
    by (auto simp: cookie_text_def valid_req_cookie_def sanitizeCookieValue_def Let_def)
qed

lemma read_cookie_text:
  assumes "valid_req_cookie ck"
  shows "map name_value (read_cookie_part (cookie_text ck)) = [name_value ck]"
proof -
  obtain n v q where ck: "ck = (n, v, q)" by (cases ck)
  from assms ck have v: "list_all validCookieValueByte v" and n: "isCookieNameValid n"
    by (auto simp: valid_req_cookie_def)
  from n have tok: "list_all token_char n" and ne: "n \<noteq> []" by (auto simp: isCookieNameValid_def)
  then have eq: "CHR ''='' \<notin> set n" using token_char_facts(1) by (auto simp: list_all_iff)
  from tok ne have "TrimString n = n"
    by (intro TrimString_id) (auto simp: list_all_iff token_char_facts(3))
  moreover obtain q' where "parseCookieValue (sanitizeCookieValue v q) = Some (v, q')"
    using parseCookieValue_sanitized [OF v] by blast
  moreover have "cookie_text ck \<noteq> []" by (simp add: cookie_text_def)
  moreover have "CutChar CHR ''='' (cookie_text ck) = (n, sanitizeCookieValue v q)"
    using n eq by (simp add: cookie_text_def ck CutChar_append)
  ultimately show ?thesis
    using n TrimString_id [OF cookie_text_ends [OF assms]]
    by (simp add: read_cookie_part_def name_value_def ck)
qed

lemma SplitChar_cookie_line:
  assumes "ts \<noteq> []" "\<And>t. t \<in> set ts \<Longrightarrow> CHR '';'' \<notin> set t"
  shows "SplitChar CHR '';'' (Join ts ''; '') = hd ts # map ((#) CHR '' '') (tl ts)"
  using assms
proof (induction ts "''; ''" rule: Join.induct)
  case (3 x y xs)
  then have "SplitChar CHR '';'' (CHR '' '' # Join (y # xs) ''; '')
      = map ((#) CHR '' '') (y # xs)" by simp
  with 3 show ?case by (simp add: SplitChar_append_sep)
qed (simp_all add: SplitChar_no_sep)

lemma Join_snoc: "xs \<noteq> [] \<Longrightarrow> Join (xs @ [y]) sep = Join xs sep @ sep @ y"
  by (induction xs sep rule: Join.induct) auto

lemma Join_nonempty: "xs \<noteq> [] \<Longrightarrow> [] \<notin> set xs \<Longrightarrow> Join xs sep \<noteq> []"
  by (induction xs sep rule: Join.induct) auto

lemma hd_Join: "xs \<noteq> [] \<Longrightarrow> hd xs \<noteq> [] \<Longrightarrow> hd (Join xs sep) = hd (hd xs)"
  by (induction xs sep rule: Join.induct) auto

lemma last_Join: "xs \<noteq> [] \<Longrightarrow> [] \<notin> set xs \<Longrightarrow> last (Join xs sep) = last (last xs)"
  by (induction xs sep rule: Join.induct) (auto simp: Join_nonempty)

lemma AddCookie_eq:
  "AddCookie ck h =
     (if Header_Get h ''Cookie'' \<noteq> []
      then Header_Set ''Cookie'' (Header_Get h ''Cookie'' @ ''; '' @ cookie_text ck) h
      else Header_Set ''Cookie'' (cookie_text ck) h)"
  by (cases ck) (simp add: AddCookie_def cookie_text_def Let_def)

lemma fold_AddCookie:
  assumes "cks \<noteq> []" "h ''Cookie'' = []"
  shows "(fold AddCookie cks h) = h(''Cookie'' := [Join (map cookie_text cks) ''; ''])"
  using assms
proof (induction cks rule: rev_induct)
  case (snoc ck cks)
  show ?case
  proof (cases "cks = []")
    case True
    with snoc.prems show ?thesis by (simp add: AddCookie_eq Header_Get_def Header_Set_def)
  next
    case False
    have "Join (map cookie_text cks) ''; '' \<noteq> []"
      using False by (intro Join_nonempty) (auto simp: cookie_text_def)
    with snoc False show ?thesis
      by (simp add: AddCookie_eq Header_Get_def Header_Set_def Join_snoc fun_eq_iff)
  qed
qed simp

text \<open>Re-adding cookies to a request whose \<open>Cookie\<close> header was deleted gives those cookies back.\<close>

lemma readCookies_AddCookie:
  assumes "\<And>ck. ck \<in> set cks \<Longrightarrow> valid_req_cookie ck"
  shows "map name_value (readCookies (fold AddCookie cks (Header_Del ''Cookie'' h))) = map name_value cks"
proof (cases "cks = []")
  case True
  then show ?thesis by (simp add: readCookies_def Header_Del_def)
next
  case False
  let ?line = "Join (map cookie_text cks) ''; ''"
  have line: "SplitChar CHR '';'' ?line
      = hd (map cookie_text cks) # map ((#) CHR '' '') (tl (map cookie_text cks))"
    using False assms by (intro SplitChar_cookie_line) (auto dest: cookie_text_no_semicolon)
  have trim: "TrimString ?line = ?line"
  proof (rule TrimString_id)
    have ne: "[] \<notin> set (map cookie_text cks)" using assms cookie_text_ends(1) by fastforce
    with False show "?line \<noteq> []" by (intro Join_nonempty) auto
    from False assms cookie_text_ends [of "hd cks"] show "\<not> is_http_space (hd ?line)"
      by (simp add: hd_Join hd_map)
    from False assms cookie_text_ends [of "last cks"] ne show "\<not> is_http_space (last ?line)"
      by (simp add: last_Join last_map)
  qed
  have strip: "read_cookie_part (CHR '' '' # t) = read_cookie_part t" for t
    by (simp add: read_cookie_part_def TrimString_space)
  have "readCookies (fold AddCookie cks (Header_Del ''Cookie'' h))
      = concat (map read_cookie_part (SplitChar CHR '';'' ?line))"
    using False by (simp add: fold_AddCookie Header_Del_def readCookies_def trim)
  also have "\<dots> = concat (map read_cookie_part (map cookie_text cks))"
    unfolding line using False by (cases cks) (simp_all add: strip comp_def)
  finally have "map name_value (readCookies (fold AddCookie cks (Header_Del ''Cookie'' h)))
      = concat (map (\<lambda>ck. map name_value (read_cookie_part (cookie_text ck))) cks)"
    by (simp add: map_concat comp_def)
  also have "\<dots> = concat (map (\<lambda>ck. [name_value ck]) cks)"
    using assms by (intro arg_cong [where f = concat] map_cong) (simp_all add: read_cookie_text)
  finally show ?thesis by simp
qed

end
