(* ===== verification/Crypto.thy ===== *)
theory Crypto
  imports Prelude
begin

text \<open>
  The encodings and the sealing functions of \<open>src/utils/utils.go\<close>: base64 as Go's
  \<open>encoding/base64\<close> computes it (\<open>StdEncoding\<close> and \<open>RawURLEncoding\<close>), lower-case
  hex, and \<open>EncryptWithPurpose\<close> / \<open>DecryptWithPurpose\<close> over AES-GCM.

  The cipher itself is the parameter \<open>aead\<close>, the two functions of Go's
  \<open>cipher.AEAD\<close>. What the code relies on is stated as hypotheses where a theorem
  needs it: \<open>aead_correct\<close>, that opening what was sealed under the same key, nonce and
  additional data gives the plaintext; \<open>aead_binds\<close>, that a sealed text does not
  open under another key or other additional data (GCM's authenticity, taken as ideal).
\<close>

section \<open>Base64\<close>

text \<open>The two alphabets differ in the last two digits. The flag selects the URL alphabet.\<close>

definition b64_char :: "bool \<Rightarrow> nat \<Rightarrow> char" where
  "b64_char u n =
     (if n < 26 then char_of (65 + n)
      else if n < 52 then char_of (71 + n)
      else if n < 62 then char_of (n - 4)
      else if n = 62 then (if u then CHR ''-'' else CHR ''+'')
      else (if u then CHR ''_'' else CHR ''/''))"

definition b64_val :: "bool \<Rightarrow> char \<Rightarrow> nat option" where
  "b64_val u c =
     (let n = (of_char c :: nat)
      in if 65 \<le> n \<and> n \<le> 90 then Some (n - 65)
         else if 97 \<le> n \<and> n \<le> 122 then Some (n - 71)
         else if 48 \<le> n \<and> n \<le> 57 then Some (n + 4)
         else if c = (if u then CHR ''-'' else CHR ''+'') then Some 62
         else if c = (if u then CHR ''_'' else CHR ''/'') then Some 63
         else None)"

fun b64_encode :: "bool \<Rightarrow> bool \<Rightarrow> string \<Rightarrow> string" where
  "b64_encode u pad [] = []"
| "b64_encode u pad [a] =
     (let x = (of_char a :: nat)
      in [b64_char u (x div 4), b64_char u (x mod 4 * 16)] @ (if pad then ''=='' else []))"
| "b64_encode u pad [a, b] =
     (let x = (of_char a :: nat); y = (of_char b :: nat)
      in [b64_char u (x div 4), b64_char u (x mod 4 * 16 + y div 16), b64_char u (y mod 16 * 4)]
         @ (if pad then ''='' else []))"
| "b64_encode u pad (a # b # c # r) =
     (let x = (of_char a :: nat); y = (of_char b :: nat); z = (of_char c :: nat)
      in [b64_char u (x div 4), b64_char u (x mod 4 * 16 + y div 16),
          b64_char u (y mod 16 * 4 + z div 64), b64_char u (z mod 64)] @ b64_encode u pad r)"

definition quantum2 :: "nat option \<Rightarrow> nat option \<Rightarrow> string option" where
  "quantum2 a b = (case (a, b) of (Some x, Some y) \<Rightarrow> Some [char_of (x * 4 + y div 16)] | _ \<Rightarrow> None)"

definition quantum3 :: "nat option \<Rightarrow> nat option \<Rightarrow> nat option \<Rightarrow> string option" where
  "quantum3 a b c =
     (case (a, b, c) of
        (Some x, Some y, Some z) \<Rightarrow>
          Some [char_of (x * 4 + y div 16), char_of (y mod 16 * 16 + z div 4)]
      | _ \<Rightarrow> None)"

definition quantum4 :: "nat option \<Rightarrow> nat option \<Rightarrow> nat option \<Rightarrow> nat option \<Rightarrow> string option" where
  "quantum4 a b c d =
     (case (a, b, c, d) of
        (Some x, Some y, Some z, Some w) \<Rightarrow>
          Some [char_of (x * 4 + y div 16), char_of (y mod 16 * 16 + z div 4), char_of (z mod 4 * 64 + w)]
      | _ \<Rightarrow> None)"

text \<open>
  Decoding takes quanta of four digits. With padding the last quantum may end in one or
  two \<open>=\<close> and nothing may follow; without padding it may be two or three digits.
\<close>

fun b64_quanta :: "bool \<Rightarrow> bool \<Rightarrow> string \<Rightarrow> string option" where
  "b64_quanta u pad [] = Some []"
| "b64_quanta u pad [a] = None"
| "b64_quanta u pad [a, b] = (if pad then None else quantum2 (b64_val u a) (b64_val u b))"
| "b64_quanta u pad [a, b, c] =
     (if pad then None else quantum3 (b64_val u a) (b64_val u b) (b64_val u c))"
| "b64_quanta u pad (a # b # c # d # r) =
     (if pad \<and> d = CHR ''=''
      then (if r \<noteq> [] then None
            else if c = CHR ''='' then quantum2 (b64_val u a) (b64_val u b)
            else quantum3 (b64_val u a) (b64_val u b) (b64_val u c))
      else (case quantum4 (b64_val u a) (b64_val u b) (b64_val u c) (b64_val u d) of
              None \<Rightarrow> None | Some bs \<Rightarrow> map_option ((@) bs) (b64_quanta u pad r)))"

text \<open>Line ends are skipped wherever they stand.\<close>

definition b64_decode :: "bool \<Rightarrow> bool \<Rightarrow> string \<Rightarrow> string option" where
  "b64_decode u pad s = b64_quanta u pad (filter (\<lambda>c. (of_char c :: nat) \<notin> {10, 13}) s)"

definition StdEncoding_Encode :: "string \<Rightarrow> string" where
  "StdEncoding_Encode s = b64_encode False True s"

definition StdEncoding_Decode :: "string \<Rightarrow> string option" where
  "StdEncoding_Decode s = b64_decode False True s"

definition RawURLEncoding_Encode :: "string \<Rightarrow> string" where
  "RawURLEncoding_Encode s = b64_encode True False s"

definition RawURLEncoding_Decode :: "string \<Rightarrow> string option" where
  "RawURLEncoding_Decode s = b64_decode True False s"

section \<open>Hex\<close>

definition hex_lower :: "nat \<Rightarrow> char" where
  "hex_lower n = (if n < 10 then char_of (48 + n) else char_of (87 + n))"

definition hex_encode :: "string \<Rightarrow> string" where
  "hex_encode s =
     concat (map (\<lambda>c. [hex_lower ((of_char c :: nat) div 16), hex_lower ((of_char c :: nat) mod 16)]) s)"

section \<open>Sealing\<close>

text \<open>\<open>cipher.AEAD\<close> by key, nonce and additional data. \<open>None\<close> is an authentication failure.\<close>

record aead =
  Seal :: "string \<Rightarrow> string \<Rightarrow> string \<Rightarrow> string \<Rightarrow> string"
  Open :: "string \<Rightarrow> string \<Rightarrow> string \<Rightarrow> string \<Rightarrow> string option"

definition NonceSize :: nat where
  "NonceSize = 12"

text \<open>\<open>aes.NewCipher\<close> accepts keys of 16, 24 and 32 bytes.\<close>

definition aes_key_ok :: "string \<Rightarrow> bool" where
  "aes_key_ok k \<longleftrightarrow> length k \<in> {16, 24, 32}"

definition PurposeOidcState :: string where "PurposeOidcState = ''oidc-state''"
definition PurposeSession :: string where "PurposeSession = ''session''"

text \<open>The empty purpose stands for no additional data; GCM does not tell nil from empty.\<close>

definition additionalDataForPurpose :: "string \<Rightarrow> string" where
  "additionalDataForPurpose purpose = (if purpose = [] then [] else purpose)"

text \<open>\<open>nonce\<close> is what \<open>rand.Read\<close> delivers, \<open>None\<close> when it fails.\<close>

definition EncryptWithPurpose ::
  "aead \<Rightarrow> string option \<Rightarrow> string \<Rightarrow> string \<Rightarrow> string \<Rightarrow> string result" where
  "EncryptWithPurpose A nonce plaintext secret purpose =
     (if \<not> aes_key_ok secret then Err ''crypto/aes: invalid key size''
      else case nonce of
        None \<Rightarrow> Err ''crypto/rand''
      | Some n \<Rightarrow>
          Ok (StdEncoding_Encode (n @ Seal A secret n plaintext (additionalDataForPurpose purpose))))"

definition Encrypt :: "aead \<Rightarrow> string option \<Rightarrow> string \<Rightarrow> string \<Rightarrow> string result" where
  "Encrypt A nonce plaintext secret = EncryptWithPurpose A nonce plaintext secret []"

definition DecryptWithPurpose :: "aead \<Rightarrow> string \<Rightarrow> string \<Rightarrow> string \<Rightarrow> string result" where
  "DecryptWithPurpose A ciphertext secret purpose =
     (if ciphertext = [] then Err ''ciphertext must not be an empty string''
      else case StdEncoding_Decode ciphertext of
        None \<Rightarrow> Err ''illegal base64 data''
      | Some cipherbytes \<Rightarrow>
          if \<not> aes_key_ok secret then Err ''crypto/aes: invalid key size''
          else if length cipherbytes < NonceSize then Err ''invalid ciphertext''
          else case Open A secret (take NonceSize cipherbytes) (drop NonceSize cipherbytes)
                      (additionalDataForPurpose purpose) of
                 None \<Rightarrow> Err ''cipher: message authentication failed''
               | Some plaintext \<Rightarrow> Ok plaintext)"

definition Decrypt :: "aead \<Rightarrow> string \<Rightarrow> string \<Rightarrow> string result" where
  "Decrypt A ciphertext secret = DecryptWithPurpose A ciphertext secret []"

definition aead_correct :: "aead \<Rightarrow> bool" where
  "aead_correct A \<longleftrightarrow> (\<forall>k n p ad. Open A k n (Seal A k n p ad) ad = Some p)"

definition aead_binds :: "aead \<Rightarrow> bool" where
  "aead_binds A \<longleftrightarrow>
     (\<forall>k k' n p ad ad'. k \<noteq> k' \<or> ad \<noteq> ad' \<longrightarrow> Open A k' n (Seal A k n p ad) ad' = None)"

section \<open>Encodings round trip\<close>

text \<open>What the sealing code asks of an encoding: decoding undoes encoding.\<close>

locale codec =
  fixes enc :: "string \<Rightarrow> string"
    and dec :: "string \<Rightarrow> string option"
  assumes dec_enc: "dec (enc s) = Some s"
    and enc_empty: "enc s = [] \<longleftrightarrow> s = []"
begin

lemma enc_inj: "enc s = enc t \<Longrightarrow> s = t"
  by (metis dec_enc option.inject)

text \<open>Decoding what a second codec produced and was then encoded here undoes both layers.\<close>

lemma dec_layers: "codec enc' dec' \<Longrightarrow> Option.bind (dec (enc (enc' s))) dec' = Some s"
  by (simp add: dec_enc codec.dec_enc)

end

lemma of_char_b64_char:
  "n < 64 \<Longrightarrow> (of_char (b64_char u n) :: nat) =
     (if n < 26 then 65 + n else if n < 52 then 71 + n else if n < 62 then n - 4
      else if n = 62 then (if u then 45 else 43) else (if u then 95 else 47))"
  by (simp add: b64_char_def)

lemma b64_val_char: "n < 64 \<Longrightarrow> b64_val u (b64_char u n) = Some n"
proof -
  assume n: "n < 64"
  have "n < 26 \<or> (26 \<le> n \<and> n < 52) \<or> (52 \<le> n \<and> n < 62) \<or> n = 62 \<or> n = 63" using n by arith
  then show ?thesis
    using of_char_b64_char [OF n, of u]
    by (elim disjE) (auto simp: b64_val_def Let_def b64_char_def)
qed

lemma b64_char_plain:
  assumes "n < 64"
  shows "b64_char u n \<noteq> CHR ''=''" "(of_char (b64_char u n) :: nat) \<notin> {10, 13}"
proof -
  have "(of_char (b64_char u n) :: nat) \<noteq> 61" "(of_char (b64_char u n) :: nat) \<notin> {10, 13}"
    unfolding of_char_b64_char [OF assms] using assms by auto
  then show "b64_char u n \<noteq> CHR ''=''" "(of_char (b64_char u n) :: nat) \<notin> {10, 13}" by auto
qed

text \<open>The digits of three bytes and the bytes of four digits.\<close>

lemma digit_pair:
  fixes a b m :: nat
  assumes "b < m"
  shows "(a * m + b) div m = a" "(a * m + b) mod m = b"
  using assms by simp_all

lemma digit_bound: "(a::nat) < k \<Longrightarrow> b < m \<Longrightarrow> a * m + b < k * m"
  by (metis Suc_leI add.commute add_less_le_mono le_less_trans mult.commute mult_Suc_right mult_le_mono1
      nat_add_left_cancel_less order_less_le_trans)

lemma byte_digits:
  fixes x y z :: nat
  assumes "x < 256" "y < 256" "z < 256"
  shows "x div 4 < 64" "x mod 4 * 16 + y div 16 < 64" "y mod 16 * 4 + z div 64 < 64" "z mod 64 < 64"
    "x div 4 * 4 + (x mod 4 * 16 + y div 16) div 16 = x"
    "(x mod 4 * 16 + y div 16) mod 16 * 16 + (y mod 16 * 4 + z div 64) div 4 = y"
    "(y mod 16 * 4 + z div 64) mod 4 * 64 + z mod 64 = z"
proof -
  have d: "y div 16 < 16" "z div 64 < 4" "x div 4 < 64" "z mod 64 < 64" using assms by simp_all
  then show "x div 4 < 64" "z mod 64 < 64" by simp_all
  show "x mod 4 * 16 + y div 16 < 64" "y mod 16 * 4 + z div 64 < 64"
    using digit_bound [of "x mod 4" 4 _ 16, OF _ d(1)] digit_bound [of "y mod 16" 16 _ 4, OF _ d(2)] by simp_all
  show "x div 4 * 4 + (x mod 4 * 16 + y div 16) div 16 = x"
    "(x mod 4 * 16 + y div 16) mod 16 * 16 + (y mod 16 * 4 + z div 64) div 4 = y"
    "(y mod 16 * 4 + z div 64) mod 4 * 64 + z mod 64 = z"
    by (simp_all only: digit_pair [OF d(1)] digit_pair [OF d(2)] div_mult_mod_eq)
qed

lemma byte_digits_last:
  fixes x y :: nat
  assumes "x < 256" "y < 256"
  shows "x mod 4 * 16 < 64" "y mod 16 * 4 < 64" "x div 4 * 4 + x mod 4 * 16 div 16 = x"
    "(x mod 4 * 16 + y div 16) mod 16 * 16 + y mod 16 * 4 div 4 = y"
  using byte_digits [of x y 0] byte_digits [of x 0 0] assms by simp_all

lemma quantum4_bytes:
  "quantum4 (Some ((of_char a :: nat) div 4)) (Some (of_char a mod 4 * 16 + of_char b div 16))
     (Some (of_char b mod 16 * 4 + of_char c div 64)) (Some (of_char c mod 64)) = Some [a, b, c]"
  unfolding quantum4_def option.case prod.case
  by (simp only: byte_digits [of "of_char a" "of_char b" "of_char c"] nat_of_char_less_256 char_of_char)

lemma quantum3_bytes:
  "quantum3 (Some ((of_char a :: nat) div 4)) (Some (of_char a mod 4 * 16 + of_char b div 16))
     (Some (of_char b mod 16 * 4)) = Some [a, b]"
  unfolding quantum3_def option.case prod.case
  by (simp only: byte_digits(5) [of "of_char a" "of_char b" 0] byte_digits_last(4) [of "of_char a" "of_char b"]
      nat_of_char_less_256 char_of_char zero_less_numeral)

lemma quantum2_bytes:
  "quantum2 (Some ((of_char a :: nat) div 4)) (Some (of_char a mod 4 * 16)) = Some [a]"
  unfolding quantum2_def option.case prod.case
  by (simp only: byte_digits_last(3) [of "of_char a" 0] nat_of_char_less_256 char_of_char zero_less_numeral)

lemma b64_digits:
  "(of_char a :: nat) div 4 < 64" "(of_char a :: nat) mod 4 * 16 < 64" "(of_char b :: nat) mod 16 * 4 < 64"
  "(of_char a :: nat) mod 4 * 16 + of_char b div 16 < 64"
  "(of_char b :: nat) mod 16 * 4 + of_char c div 64 < 64" "(of_char c :: nat) mod 64 < 64"
  using byte_digits [of "of_char a" "of_char b" "of_char c"] byte_digits_last [of "of_char a" "of_char b"]
  by simp_all

lemmas b64_digit_char = b64_digits [THEN b64_val_char] b64_digits [THEN b64_char_plain(1)]

lemma b64_quanta_encode: "b64_quanta u pad (b64_encode u pad s) = Some s"
  by (induction u pad s rule: b64_encode.induct)
    (simp_all add: Let_def b64_digit_char quantum2_bytes quantum3_bytes quantum4_bytes)

lemma b64_encode_plain: "\<forall>c \<in> set (b64_encode u pad s). (of_char c :: nat) \<notin> {10, 13}"
  by (induction u pad s rule: b64_encode.induct)
    (simp_all add: Let_def b64_digits [THEN b64_char_plain(2), simplified])

lemma b64_decode_encode: "b64_decode u pad (b64_encode u pad s) = Some s"
proof -
  have "filter (\<lambda>c. (of_char c :: nat) \<notin> {10, 13}) (b64_encode u pad s) = b64_encode u pad s"
    using b64_encode_plain by (auto simp: filter_id_conv)
  then show ?thesis by (simp add: b64_decode_def b64_quanta_encode)
qed

lemma b64_encode_Nil: "b64_encode u pad s = [] \<longleftrightarrow> s = []"
  by (cases "(u, pad, s)" rule: b64_encode.cases) (auto simp: Let_def)

lemma length_b64_encode: "length (b64_encode u True s) = 4 * ((length s + 2) div 3)"
  by (induction u True s rule: b64_encode.induct) (auto simp: Let_def, presburger)

lemma length_StdEncoding_Encode: "length (StdEncoding_Encode s) = 4 * ((length s + 2) div 3)"
  by (simp add: StdEncoding_Encode_def length_b64_encode)

interpretation std64: codec StdEncoding_Encode StdEncoding_Decode
  by unfold_locales
    (simp_all add: StdEncoding_Encode_def StdEncoding_Decode_def b64_decode_encode b64_encode_Nil)

interpretation raw64: codec RawURLEncoding_Encode RawURLEncoding_Decode
  by unfold_locales
    (simp_all add: RawURLEncoding_Encode_def RawURLEncoding_Decode_def b64_decode_encode b64_encode_Nil)

section \<open>An ideal cipher\<close>

text \<open>
  An instance of \<open>aead\<close> that meets both hypotheses: key and additional data are
  written in front of the plaintext in a prefix-free form.
\<close>

fun frame :: "string \<Rightarrow> string" where
  "frame [] = ''0''"
| "frame (c # s) = CHR ''1'' # c # frame s"

fun unframe :: "string \<Rightarrow> string \<Rightarrow> string option" where
  "unframe [] (x # r) = (if x = CHR ''0'' then Some r else None)"
| "unframe (c # s) (x # y # r) = (if x = CHR ''1'' \<and> y = c then unframe s r else None)"
| "unframe _ _ = None"

definition ideal_aead :: aead where
  "ideal_aead = \<lparr>Seal = (\<lambda>k n p ad. frame k @ frame ad @ p),
     Open = (\<lambda>k n c ad. Option.bind (unframe k c) (unframe ad))\<rparr>"

lemma unframe_frame [simp]: "unframe s (frame s @ r) = Some r"
  by (induction s) auto

lemma unframe_other: "s \<noteq> t \<Longrightarrow> unframe s (frame t @ r) = None"
proof (induction s arbitrary: t)
  case Nil
  then show ?case by (cases t) auto
next
  case (Cons c s)
  then show ?case by (cases t; cases r) auto
qed

lemma ideal_aead_correct: "aead_correct ideal_aead"
  by (simp add: aead_correct_def ideal_aead_def)

lemma ideal_aead_binds: "aead_binds ideal_aead"
  unfolding aead_binds_def ideal_aead_def
  by (auto simp: unframe_other) (metis bind.bind_lunit bind.bind_lzero unframe_frame unframe_other)

end
