(* ===== verification/Utils.thy ===== *)
theory Utils
  imports Complex_Main Http Crypto
begin

text \<open>
  The remaining functions of \<open>src/utils/utils.go\<close>: expansion of environment variables,
  URL helpers, \<open>ParseInt\<close>, \<open>ChunkString\<close> and the \<open>Accept\<close> header.

  Parameters: the environment and the file system (\<open>os\<close>), parsing and printing of a URL and its \<open>RequestURI\<close>
  (\<open>url_ops\<close>), and \<open>mime.ParseMediaType\<close>, \<open>strconv.ParseFloat\<close> and \<open>sort.Slice\<close>
  (\<open>mime_ops\<close>). \<open>sort.Slice\<close> is not stable; \<open>sort_law\<close> says what it promises.
\<close>

section \<open>Environment variables\<close>

record os =
  LookupEnv :: "string \<Rightarrow> string option"
  ReadFile :: "string \<Rightarrow> string option"

definition ExpandEnvironmentVariableString :: "os \<Rightarrow> string \<Rightarrow> string" where
  "ExpandEnvironmentVariableString os v =
     (case CutPrefix v ''${'' of (after, hasPrefix) \<Rightarrow>
        if hasPrefix
        then (case CutSuffix after ''}'' of (variableName, hasSuffix) \<Rightarrow>
                if hasSuffix
                then (case CutPrefix variableName ''file:'' of (filePath, isFile) \<Rightarrow>
                        if isFile
                        then (case ReadFile os filePath of None \<Rightarrow> v | Some content \<Rightarrow> TrimSpace content)
                        else (case LookupEnv os variableName of None \<Rightarrow> v | Some x \<Rightarrow> x))
                else v)
        else v)"

definition ExpandEnvironmentVariableBoolean :: "os \<Rightarrow> string \<Rightarrow> bool \<Rightarrow> bool result" where
  "ExpandEnvironmentVariableBoolean os v0 defaultValue =
     (let v = (case CutPrefix v0 ''${'' of (after, hasPrefix) \<Rightarrow>
                 if hasPrefix
                 then (case CutSuffix after ''}'' of (variableName, hasSuffix) \<Rightarrow>
                         if hasSuffix
                         then (case LookupEnv os variableName of None \<Rightarrow> v0 | Some x \<Rightarrow> x)
                         else v0)
                 else v0)
      in if v = ''true'' \<or> v = ''1'' then Ok True
         else if v = ''false'' \<or> v = ''0'' then Ok False
         else if v \<noteq> [] then Err (''invalid boolean value '' @ v)
         else Ok defaultValue)"

section \<open>URLs\<close>

record url_ops =
  UrlParse :: "string \<Rightarrow> url result"
  UrlString :: "url \<Rightarrow> string"
  UrlRequestURI :: "url \<Rightarrow> string"

definition UrlIsAbsolute :: "url \<Rightarrow> bool" where
  "UrlIsAbsolute u \<longleftrightarrow> Scheme u \<noteq> [] \<and> UHost u \<noteq> []"

definition ParseUrl :: "url_ops \<Rightarrow> string \<Rightarrow> url result" where
  "ParseUrl U rawUrl0 =
     (if rawUrl0 = [] then Err ''invalid empty url''
      else
        (let rawUrl = (if \<not> Contains rawUrl0 ''://'' then ''https://'' @ rawUrl0 else rawUrl0)
         in case UrlParse U rawUrl of
              Inl err \<Rightarrow> Err err
            | Inr u \<Rightarrow> if \<not> HasPrefix (Scheme u) ''http'' then Err (Scheme u @ '' is not a valid scheme'') else Ok u))"

definition getSchemeFromRequest :: "request \<Rightarrow> string" where
  "getSchemeFromRequest req =
     (let scheme = Header_Get (Header req) ''X-Forwarded-Proto''
      in if scheme = [] then (if TLS req then ''https'' else ''http'') else scheme)"

definition getHostFromRequest :: "request \<Rightarrow> string" where
  "getHostFromRequest req =
     (let host = Header_Get (Header req) ''X-Forwarded-Host'' in if host = [] then Host req else host)"

definition FillHostSchemeFromRequest :: "request \<Rightarrow> url \<Rightarrow> url" where
  "FillHostSchemeFromRequest req u = u\<lparr>Scheme := getSchemeFromRequest req, UHost := getHostFromRequest req\<rparr>"

definition GetFullHost :: "request \<Rightarrow> string" where
  "GetFullHost req = getSchemeFromRequest req @ ''://'' @ getHostFromRequest req"

definition EnsureAbsoluteUrl :: "request \<Rightarrow> string \<Rightarrow> string" where
  "EnsureAbsoluteUrl req u =
     (if HasPrefix u ''http://'' \<or> HasPrefix u ''https://'' then u
      else GetFullHost req @ (if \<not> HasPrefix u ''/'' then ''/'' @ u else u))"

text \<open>\<open>URL.Hostname\<close>: the host without a valid port and without brackets.\<close>

definition validOptionalPort :: "string \<Rightarrow> bool" where
  "validOptionalPort p \<longleftrightarrow> p = [] \<or> hd p = CHR '':'' \<and> list_all is_digit (tl p)"

definition Hostname :: "url \<Rightarrow> string" where
  "Hostname u =
     (let h0 = UHost u;
          h = (case LastIndexChar h0 CHR '':'' of
                 None \<Rightarrow> h0
               | Some i \<Rightarrow> if validOptionalPort (drop i h0) then take i h0 else h0)
      in if HasPrefix h ''['' \<and> HasSuffix h '']'' then butlast (tl h) else h)"

section \<open>Numbers\<close>

definition big_of_bytes :: "string \<Rightarrow> nat" where
  "big_of_bytes s = foldl (\<lambda>n c. 256 * n + (of_char c :: nat)) 0 s"

definition ParseBigInt :: "string \<Rightarrow> nat result" where
  "ParseBigInt s =
     (case RawURLEncoding_Decode s of None \<Rightarrow> Err ''illegal base64 data'' | Some b \<Rightarrow> Ok (big_of_bytes b))"

text \<open>\<open>big.Int.Int64\<close> takes the low 64 bits as a signed number.\<close>

definition wrap64 :: "int \<Rightarrow> int" where
  "wrap64 i = (i + 2 ^ 63) mod 2 ^ 64 - 2 ^ 63"

definition ParseInt :: "string \<Rightarrow> int result" where
  "ParseInt s = (case ParseBigInt s of Inl e \<Rightarrow> Err e | Inr v \<Rightarrow> Ok (wrap64 (int v)))"

section \<open>Chunks\<close>

text \<open>With a chunk size of 0 the loop does not end on a non-empty input: that is \<open>None\<close>.\<close>

function chunk_loop :: "nat \<Rightarrow> string \<Rightarrow> string list" where
  "chunk_loop n s = (if s = [] \<or> n = 0 then [] else take n s # chunk_loop n (drop n s))"
  by auto
termination
  by (relation "measure (\<lambda>(n, s). length s)") auto

declare chunk_loop.simps [simp del]

definition ChunkString :: "string \<Rightarrow> nat \<Rightarrow> string list option" where
  "ChunkString input chunkSize =
     (if chunkSize = 0 \<and> input \<noteq> [] then None else Some (chunk_loop chunkSize input))"

lemma chunk_loop_Nil [simp]: "chunk_loop n [] = []"
  by (simp add: chunk_loop.simps)

lemma concat_chunk_loop: "0 < n \<Longrightarrow> concat (chunk_loop n s) = s"
proof (induction n s rule: chunk_loop.induct)
  case (1 n s)
  then show ?case by (cases "s = []") (simp_all add: chunk_loop.simps [of n s])
qed

lemma chunk_loop_sizes: "c \<in> set (chunk_loop n s) \<Longrightarrow> c \<noteq> [] \<and> length c \<le> n"
proof (induction n s rule: chunk_loop.induct)
  case (1 n s)
  from "1.prems" have ne: "s \<noteq> []" "n \<noteq> 0" by (auto simp: chunk_loop.simps [of n s] split: if_splits)
  with "1.prems" have "c = take n s \<or> c \<in> set (chunk_loop n (drop n s))"
    by (simp add: chunk_loop.simps [of n s])
  with "1.IH" ne show ?case by auto
qed

lemma length_chunk_loop: "0 < n \<Longrightarrow> length s \<le> n * k \<Longrightarrow> length (chunk_loop n s) \<le> k"
proof (induction n s arbitrary: k rule: chunk_loop.induct)
  case (1 n s)
  show ?case
  proof (cases "s = []")
    case False
    with 1 obtain k' where k: "k = Suc k'" by (cases k) auto
    with 1 False have "length (chunk_loop n (drop n s)) \<le> k'" by simp
    with 1 False k show ?thesis by (simp add: chunk_loop.simps [of n s])
  qed simp
qed

lemma chunk_loop_single: "0 < n \<Longrightarrow> length (chunk_loop n s) = 1 \<Longrightarrow> chunk_loop n s = [s]"
  by (metis (no_types, lifting) One_nat_def concat.simps append_Nil2 concat_chunk_loop length_0_conv length_Suc_conv)

section \<open>The Accept header\<close>

record AcceptType =
  Type :: string
  Weight :: rat

record mime_ops =
  ParseMediaType :: "string \<Rightarrow> (string \<times> (string \<rightharpoonup> string)) option"
  ParseFloat :: "string \<Rightarrow> rat option"
  SortByWeight :: "AcceptType list \<Rightarrow> AcceptType list"

definition sort_law :: "mime_ops \<Rightarrow> bool" where
  "sort_law M \<longleftrightarrow>
     (\<forall>ts. set (SortByWeight M ts) = set ts \<and> sorted_wrt (\<lambda>a b. Weight b \<le> Weight a) (SortByWeight M ts))"

definition ParseAcceptType :: "mime_ops \<Rightarrow> string \<Rightarrow> AcceptType" where
  "ParseAcceptType M raw =
     (case ParseMediaType M raw of
        None \<Rightarrow> \<lparr>Type = [], Weight = 0\<rparr>
      | Some (mimeType, params) \<Rightarrow>
          (case params ''q'' of
             None \<Rightarrow> \<lparr>Type = mimeType, Weight = 1\<rparr>
           | Some weightString \<Rightarrow>
               (case ParseFloat M weightString of
                  None \<Rightarrow> \<lparr>Type = [], Weight = 0\<rparr>
                | Some weight \<Rightarrow> \<lparr>Type = mimeType, Weight = weight\<rparr>)))"

definition ParseAcceptHeader :: "mime_ops \<Rightarrow> string \<Rightarrow> AcceptType list" where
  "ParseAcceptHeader M raw =
     SortByWeight M (filter (\<lambda>t. Type t \<noteq> []) (map (ParseAcceptType M) (SplitChar CHR '','' raw)))"

definition IsHtmlRequest :: "mime_ops \<Rightarrow> request \<Rightarrow> bool" where
  "IsHtmlRequest M req =
     (case ParseAcceptHeader M (Header_Get (Header req) ''Accept'') of
        [] \<Rightarrow> False
      | t # _ \<Rightarrow> Type t = ''text/html'' \<or> Type t = ''application/xhtml+xml'')"

text \<open>
  A request counts as an HTML request only if its \<open>Accept\<close> header names an HTML
  type whose weight no other acceptable type exceeds.
\<close>

lemma IsHtmlRequest_top_weight:
  assumes "sort_law M" "IsHtmlRequest M req"
  shows "\<exists>t \<in> set (ParseAcceptHeader M (Header_Get (Header req) ''Accept'')).
    Type t \<in> {''text/html'', ''application/xhtml+xml''}
    \<and> (\<forall>piece \<in> set (SplitChar CHR '','' (Header_Get (Header req) ''Accept'')).
        Type (ParseAcceptType M piece) \<noteq> [] \<longrightarrow> Weight (ParseAcceptType M piece) \<le> Weight t)"
proof -
  let ?raw = "Header_Get (Header req) ''Accept''"
  from assms(2) obtain t ts where t: "ParseAcceptHeader M ?raw = t # ts"
    "Type t \<in> {''text/html'', ''application/xhtml+xml''}"
    by (auto simp: IsHtmlRequest_def split: list.splits)
  from assms(1) have s: "sorted_wrt (\<lambda>a b. Weight b \<le> Weight a) (ParseAcceptHeader M ?raw)"
    and m: "set (ParseAcceptHeader M ?raw)
      = set (filter (\<lambda>t. Type t \<noteq> []) (map (ParseAcceptType M) (SplitChar CHR '','' ?raw)))"
    by (simp_all add: sort_law_def ParseAcceptHeader_def)
  have "Weight x \<le> Weight t" if "x \<in> set (ParseAcceptHeader M ?raw)" for x
    using s that by (auto simp: t(1))
  with t m show ?thesis by (intro bexI [of _ t]) auto
qed

definition plain_mime :: mime_ops where
  "plain_mime = \<lparr>ParseMediaType = (\<lambda>s. Some (takeWhile (\<lambda>c. c \<noteq> CHR '';'') s, Map.empty)),
     ParseFloat = (\<lambda>_. None), SortByWeight = sort_key (\<lambda>t. - Weight t)\<rparr>"

lemma plain_mime_law: "sort_law plain_mime"
  unfolding sort_law_def plain_mime_def
  using sorted_sort_key [of "\<lambda>t :: AcceptType. - Weight t"] by (simp add: sorted_map)

definition html_request :: request where
  "html_request = \<lparr>Method = ''GET'', URL = \<lparr>Scheme = [], UHost = [], Path = ''/'', RawQuery = []\<rparr>,
     Host = ''app.example'', Header = (\<lambda>_. [])(''Accept'' := [''text/html'']), RemoteAddr = ''10.0.0.1:4711'',
     TLS = False, RequestURI = ''/''\<rparr>"

lemma html_request_html: "IsHtmlRequest plain_mime html_request"
  by (simp add: IsHtmlRequest_def ParseAcceptHeader_def ParseAcceptType_def plain_mime_def html_request_def
      Header_Get_def CanonicalHeaderKey_def token_char_def lower_char_def upper_char_def)

end
