(* ===== verification/ClaimRules.thy ===== *)
theory ClaimRules
  imports Json ConfigTypes Utils "HOL-Library.AList"
begin

text \<open>
  \<open>src/authorization.go\<close>: the claim assertions. \<open>isAuthorized\<close> evaluates a JSONPath per
  assertion on the marshalled claims and compares the printed values of the matched nodes
  with the assertion's \<open>allOf\<close> and \<open>anyOf\<close> lists.

  Parameters (\<open>claim_ops\<close>): the JSONPath evaluator of the \<open>ajson\<close> package, which gives
  the matched nodes (each unpacked, or an error), and the decimal text of a \<open>float64\<close>
  under the \<open>%v\<close> verb.
\<close>

text \<open>A \<open>map[string]interface{}\<close> with distinct keys; marshalling sorts them.\<close>

type_synonym claims = "(string \<times> json) list"

definition claim_string :: "claims \<Rightarrow> string \<Rightarrow> string option" where
  "claim_string claims k = (case map_of claims k of Some (JStr s) \<Rightarrow> Some s | _ \<Rightarrow> None)"

text \<open>Decoding an object into such a map: a repeated key keeps its last value.\<close>

fun claims_of :: "json \<Rightarrow> claims option" where
  "claims_of JNull = Some []"
| "claims_of (JObj ps) = Some (fold (\<lambda>(k, v). AList.update k v) ps [])"
| "claims_of _ = None"

record claim_ops =
  JSONPath :: "string \<Rightarrow> string \<Rightarrow> json result list result"
  FormatFloat :: "json \<Rightarrow> string"

section \<open>Printing with the default verb\<close>

fun Sprint :: "(json \<Rightarrow> string) \<Rightarrow> json \<Rightarrow> string" where
  "Sprint ff JNull = ''<nil>''"
| "Sprint ff (JBool b) = (if b then ''true'' else ''false'')"
| "Sprint ff (JInt i) = ff (JInt i)"
| "Sprint ff (JFloat f) = ff (JFloat f)"
| "Sprint ff (JStr s) = s"
| "Sprint ff (JArr vs) = ''['' @ Join (map (Sprint ff) vs) '' '' @ '']''"
| "Sprint ff (JObj ps) =
     ''map['' @ Join (map (\<lambda>(k, t). k @ '':'' @ t)
        (sort_key fst (map (\<lambda>p. (fst p, Sprint ff (snd p))) ps))) '' '' @ '']''"

section \<open>One assertion\<close>

text \<open>\<open>allMatches\<close>: the flag of the first equal entry of \<open>allOf\<close> is set.\<close>

fun mark_first :: "string list \<Rightarrow> string \<Rightarrow> bool list \<Rightarrow> bool list" where
  "mark_first (a # as) s (m # ms) = (if a = s then True # ms else m # mark_first as s ms)"
| "mark_first _ s ms = ms"

text \<open>
  The loop over the matched nodes. \<open>None\<close> is \<open>continue assertions\<close> (satisfied);
  \<open>Some\<close> carries the flags with which the loop was left.
\<close>

fun matches_loop ::
  "(json \<Rightarrow> string) \<Rightarrow> ClaimAssertion \<Rightarrow> json result list \<Rightarrow> bool list \<Rightarrow> bool \<Rightarrow> (bool list \<times> bool) option" where
  "matches_loop ff a [] allMatches anyMatch = Some (allMatches, anyMatch)"
| "matches_loop ff a (Inl err # vs) allMatches anyMatch = matches_loop ff a vs allMatches anyMatch"
| "matches_loop ff a (Inr (JArr xs) # vs) allMatches anyMatch =
     (let mapped = map (Sprint ff) xs
      in if AllOf a \<noteq> [] \<and> list_ex (\<lambda>s. s \<notin> set mapped) (AllOf a) then Some (allMatches, anyMatch)
         else if AnyOf a \<noteq> []
         then (if list_ex (\<lambda>s. s \<in> set mapped) (AnyOf a) then None
               else matches_loop ff a vs allMatches anyMatch)
         else None)"
| "matches_loop ff a (Inr v # vs) allMatches anyMatch =
     (let strVal = Sprint ff v
      in matches_loop ff a vs (mark_first (AllOf a) strVal allMatches)
           (anyMatch \<or> AnyOf a \<noteq> [] \<and> strVal \<in> set (AnyOf a)))"

definition assertion_holds :: "(json \<Rightarrow> string) \<Rightarrow> ClaimAssertion \<Rightarrow> json result list \<Rightarrow> bool" where
  "assertion_holds ff a nodes =
     (if AllOf a = [] \<and> AnyOf a = [] then True
      else case matches_loop ff a nodes (replicate (length (AllOf a)) False) False of
             None \<Rightarrow> True
           | Some (allMatches, anyMatch) \<Rightarrow>
               AnyOf a \<noteq> [] \<and> anyMatch \<and> AllOf a \<noteq> [] \<and> False \<notin> set allMatches
               \<or> AnyOf a \<noteq> [] \<and> anyMatch \<and> AllOf a = []
               \<or> AllOf a \<noteq> [] \<and> False \<notin> set allMatches \<and> AnyOf a = [])"

fun check_assertions :: "claim_ops \<Rightarrow> string \<Rightarrow> ClaimAssertion list \<Rightarrow> bool" where
  "check_assertions C parsed [] = True"
| "check_assertions C parsed (a # as) =
     (case JSONPath C parsed (''$.'' @ Claim_Name a) of
        Inl err \<Rightarrow> False
      | Inr [] \<Rightarrow> False
      | Inr nodes \<Rightarrow>
          if assertion_holds (FormatFloat C) a nodes then check_assertions C parsed as else False)"

definition isAuthorized :: "claim_ops \<Rightarrow> json_text \<Rightarrow> AuthorizationConfig \<Rightarrow> claims \<Rightarrow> bool" where
  "isAuthorized C J authorization claims =
     (if AssertClaims authorization \<noteq> []
      then check_assertions C (json_print J (JObj (sort_key fst claims))) (AssertClaims authorization)
      else True)"

section \<open>What the nodes show\<close>

text \<open>The strings an assertion can find: the printed scalars and the printed array elements.\<close>

fun node_values :: "(json \<Rightarrow> string) \<Rightarrow> json result \<Rightarrow> string set" where
  "node_values ff (Inl _) = {}"
| "node_values ff (Inr (JArr xs)) = Sprint ff ` set xs"
| "node_values ff (Inr v) = {Sprint ff v}"

definition claim_values :: "(json \<Rightarrow> string) \<Rightarrow> json result list \<Rightarrow> string set" where
  "claim_values ff nodes = (\<Union>n \<in> set nodes. node_values ff n)"

definition scalar :: "json result \<Rightarrow> bool" where
  "scalar n \<longleftrightarrow> (\<exists>v. n = Inr v \<and> (\<forall>xs. v \<noteq> JArr xs))"

lemma claim_values_Cons: "claim_values ff (n # ns) = node_values ff n \<union> claim_values ff ns"
  by (simp add: claim_values_def)

lemma length_mark_first [simp]: "length (mark_first as s ms) = length ms"
  by (induction as s ms rule: mark_first.induct) auto

lemma mark_first_nth:
  "length as = length ms \<Longrightarrow> i < length as \<Longrightarrow> mark_first as s ms ! i \<Longrightarrow> ms ! i \<or> as ! i = s"
proof (induction as s ms arbitrary: i rule: mark_first.induct)
  case (1 a as s m ms)
  then show ?case by (cases i) (auto split: if_splits)
qed auto

lemma matches_loop_scalar:
  "scalar (Inr v) \<Longrightarrow> matches_loop ff a (Inr v # vs) al an =
     matches_loop ff a vs (mark_first (AllOf a) (Sprint ff v) al) (an \<or> AnyOf a \<noteq> [] \<and> Sprint ff v \<in> set (AnyOf a))"
  by (cases v) (auto simp: scalar_def Let_def)

text \<open>The flags only ever record values that a node shows.\<close>

lemma matches_loop_sound:
  assumes "length al = length (AllOf a)"
    and "\<And>i. i < length al \<Longrightarrow> al ! i \<Longrightarrow> AllOf a ! i \<in> V" "an \<Longrightarrow> \<exists>s \<in> set (AnyOf a). s \<in> V"
    and "claim_values ff nodes \<subseteq> V"
  shows "case matches_loop ff a nodes al an of
      None \<Rightarrow> set (AllOf a) \<subseteq> V \<and> (AnyOf a \<noteq> [] \<longrightarrow> (\<exists>s \<in> set (AnyOf a). s \<in> V))
    | Some (al', an') \<Rightarrow> length al' = length (AllOf a) \<and> (\<forall>i < length al'. al' ! i \<longrightarrow> AllOf a ! i \<in> V)
        \<and> (an' \<longrightarrow> (\<exists>s \<in> set (AnyOf a). s \<in> V))"
  using assms
proof (induction nodes arbitrary: al an)
  case (Cons n nodes)
  then have V: "node_values ff n \<subseteq> V" "claim_values ff nodes \<subseteq> V" by (auto simp: claim_values_Cons)
  show ?case
  proof (cases n)
    case (Inl e)
    with Cons V show ?thesis by simp
  next
    case (Inr v)
    show ?thesis
    proof (cases "\<exists>xs. v = JArr xs")
      case True
      then obtain xs where xs: "v = JArr xs" by blast
      have IH: ?thesis if "matches_loop ff a (n # nodes) al an = matches_loop ff a nodes al an"
        unfolding that using Cons.IH [OF Cons.prems(1,2,3) V(2)] by blast
      have "set (map (Sprint ff) xs) \<subseteq> V" using V(1) Inr xs by simp
      with Cons.prems IH show ?thesis
        unfolding Inr xs by (auto simp: Let_def list_ex_iff)
    next
      case False
      then have sc: "scalar (Inr v)" by (simp add: scalar_def)
      have s: "Sprint ff v \<in> V" using V(1) Inr False by (cases v) auto
      have marked: "AllOf a ! i \<in> V" if "i < length al" "mark_first (AllOf a) (Sprint ff v) al ! i" for i
        using mark_first_nth [of "AllOf a" al i "Sprint ff v"] that Cons.prems(1,2) s by auto
      show ?thesis
        unfolding Inr matches_loop_scalar [OF sc]
        by (rule Cons.IH) (use Cons.prems(1,3) V(2) s marked in auto)
    qed
  qed
qed simp

lemma assertion_holds_sound:
  assumes "assertion_holds ff a nodes"
  shows "set (AllOf a) \<subseteq> claim_values ff nodes"
    "AnyOf a \<noteq> [] \<Longrightarrow> \<exists>s \<in> set (AnyOf a). s \<in> claim_values ff nodes"
  using matches_loop_sound [of "replicate (length (AllOf a)) False" a "claim_values ff nodes" False ff nodes] assms
  by (auto simp: assertion_holds_def in_set_conv_nth split: option.splits prod.splits if_splits)

text \<open>On scalar nodes the flags record exactly the values shown.\<close>

lemma mark_first_distinct:
  "distinct as \<Longrightarrow> length as = length ms \<Longrightarrow> i < length as \<Longrightarrow>
     mark_first as s ms ! i \<longleftrightarrow> ms ! i \<or> as ! i = s"
proof (induction as s ms arbitrary: i rule: mark_first.induct)
  case (1 a as s m ms)
  then show ?case by (cases i) (auto simp: in_set_conv_nth)
qed auto

lemma matches_loop_scalars:
  assumes "list_all scalar nodes" "distinct (AllOf a)" "length al = length (AllOf a)"
  shows "\<exists>al' an'. matches_loop ff a nodes al an = Some (al', an') \<and> length al' = length (AllOf a)
    \<and> (\<forall>i < length al'. al' ! i \<longleftrightarrow> al ! i \<or> AllOf a ! i \<in> claim_values ff nodes)
    \<and> (an' \<longleftrightarrow> an \<or> (\<exists>s \<in> set (AnyOf a). s \<in> claim_values ff nodes))"
  using assms
proof (induction nodes arbitrary: al an)
  case (Cons n nodes)
  then obtain v where v: "n = Inr v" "scalar (Inr v)" by (auto simp: scalar_def)
  then have nv: "node_values ff n = {Sprint ff v}" by (cases v) (auto simp: scalar_def)
  from Cons.IH [of "mark_first (AllOf a) (Sprint ff v) al" "an \<or> AnyOf a \<noteq> [] \<and> Sprint ff v \<in> set (AnyOf a)"] Cons.prems
  show ?case
    unfolding v(1) matches_loop_scalar [OF v(2)]
    using nv mark_first_distinct [OF Cons.prems(2), of al] Cons.prems(3) v(1)
    by (fastforce simp: claim_values_Cons)
qed (simp add: claim_values_def)

section \<open>Properties\<close>

text \<open>
  C31. Authorization is sound: when the claims are authorized, the path of every assertion
  matches at least one node, every value of its \<open>allOf\<close> list is shown by some matched
  node, and so is one of its \<open>anyOf\<close> list when there is one.
\<close>

theorem isAuthorized_sound:
  assumes "isAuthorized C J authorization claims" "a \<in> set (AssertClaims authorization)"
  shows "\<exists>nodes. JSONPath C (json_print J (JObj (sort_key fst claims))) (''$.'' @ Claim_Name a) = Ok nodes \<and> nodes \<noteq> []
    \<and> set (AllOf a) \<subseteq> claim_values (FormatFloat C) nodes
    \<and> (AnyOf a \<noteq> [] \<longrightarrow> (\<exists>s \<in> set (AnyOf a). s \<in> claim_values (FormatFloat C) nodes))"
proof -
  have each: "\<exists>nodes. JSONPath C parsed (''$.'' @ Claim_Name a) = Ok nodes \<and> nodes \<noteq> []
      \<and> assertion_holds (FormatFloat C) a nodes"
    if "check_assertions C parsed as" "a \<in> set as" for parsed as
    using that by (induction as) (auto split: sum.splits list.splits if_splits)
  have chk: "check_assertions C (json_print J (JObj (sort_key fst claims))) (AssertClaims authorization)"
    using assms by (cases "AssertClaims authorization = []") (simp_all add: isAuthorized_def)
  obtain nodes where n: "JSONPath C (json_print J (JObj (sort_key fst claims))) (''$.'' @ Claim_Name a) = Ok nodes"
    "nodes \<noteq> []" and h: "assertion_holds (FormatFloat C) a nodes" using each [OF chk assms(2)] by blast
  show ?thesis using n assertion_holds_sound [OF h] by (intro exI [of _ nodes]) simp
qed

definition role_assertion :: ClaimAssertion where
  "role_assertion = \<lparr>Claim_Name = ''role'', AnyOf = [''admin'', ''ops''], AllOf = []\<rparr>"

definition role_ops :: claim_ops where
  "role_ops = \<lparr>JSONPath = (\<lambda>_ p. if p = ''$.role'' then Ok [Ok (JStr ''admin'')] else Ok []), FormatFloat = (\<lambda>_. ''0'')\<rparr>"

theorem isAuthorized_sound_witness:
  "isAuthorized role_ops unary_json \<lparr>AssertClaims = [role_assertion], CheckOnEveryRequest = False\<rparr> [(''role'', JStr ''admin'')]
   \<and> (\<exists>s \<in> set (AnyOf role_assertion). s \<in> claim_values (FormatFloat role_ops) [Ok (JStr ''admin'')])"
proof -
  have a: "isAuthorized role_ops unary_json \<lparr>AssertClaims = [role_assertion], CheckOnEveryRequest = False\<rparr>
      [(''role'', JStr ''admin'')]"
    by (simp add: isAuthorized_def role_ops_def role_assertion_def assertion_holds_def)
  from isAuthorized_sound [OF a, of role_assertion] a show ?thesis
    by (simp add: role_ops_def role_assertion_def)
qed

text \<open>
  C38. Authorization is complete on the two common shapes of a claim. For an array claim the
  assertion holds exactly when the array has all of \<open>allOf\<close> and one of \<open>anyOf\<close>; for
  scalar nodes it holds exactly when the printed scalars do so together (with an
  \<open>allOf\<close> list that repeats no value).
\<close>

theorem assertion_holds_iff:
  assumes "nodes = [Inr (JArr xs)] \<or> list_all scalar nodes \<and> nodes \<noteq> [] \<and> distinct (AllOf a)"
  shows "assertion_holds ff a nodes \<longleftrightarrow>
    set (AllOf a) \<subseteq> claim_values ff nodes
    \<and> (AnyOf a \<noteq> [] \<longrightarrow> (\<exists>s \<in> set (AnyOf a). s \<in> claim_values ff nodes))"
  using assms
proof
  assume n: "nodes = [Inr (JArr xs)]"
  show ?thesis
    unfolding n assertion_holds_def claim_values_def
    by (auto simp: Let_def list_ex_iff)
next
  assume s: "list_all scalar nodes \<and> nodes \<noteq> [] \<and> distinct (AllOf a)"
  from s matches_loop_scalars [of nodes a "replicate (length (AllOf a)) False" ff False]
  obtain al an where m: "matches_loop ff a nodes (replicate (length (AllOf a)) False) False = Some (al, an)"
    and l: "length al = length (AllOf a)"
    and al: "\<forall>i < length al. al ! i \<longleftrightarrow> AllOf a ! i \<in> claim_values ff nodes"
    and an: "an \<longleftrightarrow> (\<exists>s \<in> set (AnyOf a). s \<in> claim_values ff nodes)" by auto
  have "False \<notin> set al \<longleftrightarrow> set (AllOf a) \<subseteq> claim_values ff nodes"
    using al l by (force simp: in_set_conv_nth subset_iff)
  with m an show ?thesis by (cases "AnyOf a = []"; cases "AllOf a = []") (auto simp: assertion_holds_def)
qed

theorem assertion_holds_iff_witness:
  "assertion_holds (FormatFloat role_ops) role_assertion [Ok (JStr ''admin'')]
   \<and> \<not> assertion_holds (FormatFloat role_ops) role_assertion [Ok (JStr ''guest'')]"
  using assertion_holds_iff [of "[Ok (JStr ''admin'')]" "[]" role_assertion "FormatFloat role_ops"]
    assertion_holds_iff [of "[Ok (JStr ''guest'')]" "[]" role_assertion "FormatFloat role_ops"]
  by (simp add: role_assertion_def scalar_def claim_values_def)

end
