(* ===== verification/Jwt.thy ===== *)
theory Jwt
  imports ClaimRules
begin

text \<open>
  The part of the vendored package \<open>golang-jwt/jwt/v5\<close> that validates a token
  (\<open>Parser.ParseWithClaims\<close> with map claims, and the claims validator), with the options
  the middleware sets. Signature verification, signing and the instant a JSON number
  denotes are the parameter \<open>jwt_ops\<close>. Instants are nanoseconds since Go's zero time.
\<close>

section \<open>Keys, tokens and options\<close>

datatype jwk =
    RsaPublicKey nat int
  | EcdsaPublicKey string nat nat

record jwt_ops =
  Verify :: "string \<Rightarrow> string \<Rightarrow> string \<Rightarrow> jwk \<Rightarrow> error option"
  SignRS256 :: "string \<Rightarrow> claims \<Rightarrow> string \<Rightarrow> string result"
  NumericDate :: "json \<Rightarrow> int option"

text \<open>A parsed token as a key function sees it: the signing method and the header map.\<close>

record jwt_token =
  TokenAlg :: string
  TokenHeader :: claims

record jwt_options =
  requireExp :: bool
  leeway :: int
  validMethods :: "string list"
  expectedIss :: string
  expectedAud :: "string list"

definition no_options :: jwt_options where
  "no_options = \<lparr>requireExp = False, leeway = 0, validMethods = [], expectedIss = [], expectedAud = []\<rparr>"

section \<open>Errors\<close>

definition newError :: "string \<Rightarrow> error \<Rightarrow> error list \<Rightarrow> error" where
  "newError message err causes =
     err @ (if message \<noteq> [] then '': '' @ message else []) @ concat (map (\<lambda>e. '': '' @ e) causes)"

definition ErrTokenMalformed :: error where "ErrTokenMalformed = ''token is malformed''"
definition ErrTokenUnverifiable :: error where "ErrTokenUnverifiable = ''token is unverifiable''"
definition ErrTokenSignatureInvalid :: error where "ErrTokenSignatureInvalid = ''token signature is invalid''"
definition ErrTokenExpired :: error where "ErrTokenExpired = ''token is expired''"
definition ErrTokenInvalidClaims :: error where "ErrTokenInvalidClaims = ''token has invalid claims''"
definition ErrInvalidType :: error where "ErrInvalidType = ''invalid type for claim''"
definition ErrRequiredClaim :: error where "ErrRequiredClaim = ''token is missing required claim''"

section \<open>Validation of the claims\<close>

text \<open>A date claim: absent (or zero), a date, or a value of the wrong type.\<close>

definition parseNumericDate :: "jwt_ops \<Rightarrow> claims \<Rightarrow> string \<Rightarrow> int option result" where
  "parseNumericDate J c k =
     (case map_of c k of
        None \<Rightarrow> Ok None
      | Some (JInt i) \<Rightarrow> Ok (NumericDate J (JInt i))
      | Some (JFloat f) \<Rightarrow> Ok (NumericDate J (JFloat f))
      | _ \<Rightarrow> Err (newError (k @ '' is invalid'') ErrInvalidType []))"

fun strings_of :: "json list \<Rightarrow> string list option" where
  "strings_of [] = Some []"
| "strings_of (JStr s # vs) = map_option ((#) s) (strings_of vs)"
| "strings_of (_ # vs) = None"

definition parseClaimsString :: "claims \<Rightarrow> string \<Rightarrow> string list result" where
  "parseClaimsString c k =
     (case map_of c k of
        Some (JStr s) \<Rightarrow> Ok [s]
      | Some (JArr vs) \<Rightarrow>
          (case strings_of vs of
             None \<Rightarrow> Err (newError (k @ '' is invalid'') ErrInvalidType []) | Some ss \<Rightarrow> Ok ss)
      | _ \<Rightarrow> Ok [])"

definition parseString :: "claims \<Rightarrow> string \<Rightarrow> string result" where
  "parseString c k =
     (case map_of c k of
        None \<Rightarrow> Ok []
      | Some (JStr s) \<Rightarrow> Ok s
      | _ \<Rightarrow> Err (newError (k @ '' is invalid'') ErrInvalidType []))"

definition errorIfRequired :: "bool \<Rightarrow> string \<Rightarrow> error option" where
  "errorIfRequired required k =
     (if required then Some (newError (k @ '' claim is required'') ErrRequiredClaim []) else None)"

definition verifyExpiresAt :: "jwt_ops \<Rightarrow> jwt_options \<Rightarrow> claims \<Rightarrow> int \<Rightarrow> error option" where
  "verifyExpiresAt J opts c now =
     (case parseNumericDate J c ''exp'' of
        Inl e \<Rightarrow> Some e
      | Inr None \<Rightarrow> errorIfRequired (requireExp opts) ''exp''
      | Inr (Some expires) \<Rightarrow> if now < expires + leeway opts then None else Some ErrTokenExpired)"

definition verifyNotBefore :: "jwt_ops \<Rightarrow> jwt_options \<Rightarrow> claims \<Rightarrow> int \<Rightarrow> error option" where
  "verifyNotBefore J opts c now =
     (case parseNumericDate J c ''nbf'' of
        Inl e \<Rightarrow> Some e
      | Inr None \<Rightarrow> None
      | Inr (Some nbf) \<Rightarrow> if \<not> now < nbf - leeway opts then None else Some ''token is not valid yet'')"

definition verifyAudience :: "jwt_options \<Rightarrow> claims \<Rightarrow> error option" where
  "verifyAudience opts c =
     (case parseClaimsString c ''aud'' of
        Inl e \<Rightarrow> Some e
      | Inr aud \<Rightarrow>
          if aud = [] \<or> aud = [[]] then errorIfRequired (expectedAud opts \<noteq> []) ''aud''
          else if list_ex (\<lambda>a. a \<in> set (expectedAud opts)) aud then None
          else Some ''token has invalid audience'')"

definition verifyIssuer :: "jwt_options \<Rightarrow> claims \<Rightarrow> error option" where
  "verifyIssuer opts c =
     (case parseString c ''iss'' of
        Inl e \<Rightarrow> Some e
      | Inr iss \<Rightarrow>
          if iss = [] then errorIfRequired True ''iss''
          else if iss = expectedIss opts then None else Some ''token has invalid issuer'')"

definition Validate :: "jwt_ops \<Rightarrow> jwt_options \<Rightarrow> claims \<Rightarrow> int \<Rightarrow> error option" where
  "Validate J opts c now =
     (case concat (map (\<lambda>e. case e of None \<Rightarrow> [] | Some x \<Rightarrow> [x])
             [verifyExpiresAt J opts c now, verifyNotBefore J opts c now,
              if expectedAud opts \<noteq> [] then verifyAudience opts c else None,
              if expectedIss opts \<noteq> [] then verifyIssuer opts c else None]) of
        [] \<Rightarrow> None
      | errs \<Rightarrow> Some (Join errs '', ''))"

section \<open>Parsing\<close>

definition signing_methods :: "string list" where
  "signing_methods = [''HS256'', ''HS384'', ''HS512'', ''RS256'', ''RS384'', ''RS512'', ''ES256'', ''ES384'', ''ES512'',
     ''PS256'', ''PS384'', ''PS512'', ''EdDSA'', ''none'']"

record unverified =
  Token :: jwt_token
  SignedText :: string
  Claims :: claims
  Signature :: string

definition decode_segment :: "json_text \<Rightarrow> string \<Rightarrow> string \<Rightarrow> claims result" where
  "decode_segment T what seg =
     (case RawURLEncoding_Decode seg of
        None \<Rightarrow> Err (newError (''could not base64 decode '' @ what) ErrTokenMalformed [])
      | Some bs \<Rightarrow>
          (case Option.bind (json_parse T bs) claims_of of
             None \<Rightarrow> Err (newError (''could not JSON decode '' @ what) ErrTokenMalformed [])
           | Some c \<Rightarrow> Ok c))"

text \<open>A token has exactly three segments.\<close>

definition splitToken :: "string \<Rightarrow> (string \<times> string \<times> string) option" where
  "splitToken t = (case SplitChar CHR ''.'' t of [a, b, c] \<Rightarrow> Some (a, b, c) | _ \<Rightarrow> None)"

definition ParseUnverified :: "json_text \<Rightarrow> string \<Rightarrow> unverified result" where
  "ParseUnverified T tokenString =
     (case splitToken tokenString of
        None \<Rightarrow> Err (newError ''token contains an invalid number of segments'' ErrTokenMalformed [])
      | Some (h, c, s) \<Rightarrow>
          (case decode_segment T ''header'' h of
             Inl e \<Rightarrow> Err e
           | Inr hdr \<Rightarrow>
               (case decode_segment T ''claim'' c of
                  Inl e \<Rightarrow> Err e
                | Inr claims \<Rightarrow>
                    (case claim_string hdr ''alg'' of
                       None \<Rightarrow> Err (newError ''signing method (alg) is unspecified'' ErrTokenUnverifiable [])
                     | Some alg \<Rightarrow>
                         if alg \<notin> set signing_methods
                         then Err (newError ''signing method (alg) is unavailable'' ErrTokenUnverifiable [])
                         else (case RawURLEncoding_Decode s of
                                 None \<Rightarrow> Err (newError ''could not base64 decode signature'' ErrTokenMalformed [])
                               | Some sig \<Rightarrow>
                                   Ok \<lparr>Token = \<lparr>TokenAlg = alg, TokenHeader = hdr\<rparr>,
                                       SignedText = h @ ''.'' @ c, Claims = claims, Signature = sig\<rparr>)))))"

definition ParseWithClaims ::
  "jwt_ops \<Rightarrow> json_text \<Rightarrow> jwt_options \<Rightarrow> int \<Rightarrow> string \<Rightarrow> (jwt_token \<Rightarrow> jwk result) \<Rightarrow> claims result" where
  "ParseWithClaims J T opts now tokenString keyFunc =
     (case ParseUnverified T tokenString of
        Inl e \<Rightarrow> Err e
      | Inr u \<Rightarrow>
          if TokenAlg (Token u) \<notin> set (validMethods opts)
          then Err (newError (''signing method '' @ TokenAlg (Token u) @ '' is invalid'') ErrTokenSignatureInvalid [])
          else (case keyFunc (Token u) of
                  Inl e \<Rightarrow> Err (newError ''error while executing keyfunc'' ErrTokenUnverifiable [e])
                | Inr key \<Rightarrow>
                    (case Verify J (TokenAlg (Token u)) (SignedText u) (Signature u) key of
                       Some e \<Rightarrow> Err (newError [] ErrTokenSignatureInvalid [e])
                     | None \<Rightarrow>
                         (case Validate J opts (Claims u) now of
                            Some e \<Rightarrow> Err (newError [] ErrTokenInvalidClaims [e])
                          | None \<Rightarrow> Ok (Claims u)))))"

section \<open>What an accepted token guarantees\<close>

text \<open>The checks behind an accepted token, as one predicate on the claims.\<close>

definition claims_valid :: "jwt_ops \<Rightarrow> jwt_options \<Rightarrow> int \<Rightarrow> claims \<Rightarrow> bool" where
  "claims_valid J opts now c \<longleftrightarrow>
     (requireExp opts \<longrightarrow> (\<exists>v e. map_of c ''exp'' = Some v \<and> NumericDate J v = Some e \<and> now < e + leeway opts))
     \<and> (\<forall>v nbf. map_of c ''nbf'' = Some v \<longrightarrow> NumericDate J v = Some nbf \<longrightarrow> nbf - leeway opts \<le> now)
     \<and> (expectedIss opts \<noteq> [] \<longrightarrow> claim_string c ''iss'' = Some (expectedIss opts))
     \<and> (expectedAud opts \<noteq> [] \<longrightarrow>
          (\<exists>aud. parseClaimsString c ''aud'' = Ok aud \<and> set aud \<inter> set (expectedAud opts) \<noteq> {}))"

lemma Validate_None:
  assumes "Validate J opts c now = None"
  shows "verifyExpiresAt J opts c now = None" "verifyNotBefore J opts c now = None"
    "expectedAud opts \<noteq> [] \<Longrightarrow> verifyAudience opts c = None" "expectedIss opts \<noteq> [] \<Longrightarrow> verifyIssuer opts c = None"
  using assms by (auto simp: Validate_def split: option.splits list.splits if_splits)

lemma parseNumericDate_Some: "parseNumericDate J c k = Ok (Some t) \<Longrightarrow> \<exists>v. map_of c k = Some v \<and> NumericDate J v = Some t"
  by (auto simp: parseNumericDate_def split: option.splits json.splits)

lemma parseNumericDate_value:
  "map_of c k = Some v \<Longrightarrow> parseNumericDate J c k = Ok d \<Longrightarrow> d = NumericDate J v"
  by (auto simp: parseNumericDate_def split: json.splits)

lemma Validate_claims_valid:
  assumes "Validate J opts c now = None"
  shows "claims_valid J opts now c"
  unfolding claims_valid_def
proof (intro conjI impI allI)
  note v = Validate_None [OF assms]
  show "\<exists>v e. map_of c ''exp'' = Some v \<and> NumericDate J v = Some e \<and> now < e + leeway opts" if "requireExp opts"
    using v(1) that
    by (auto simp: verifyExpiresAt_def errorIfRequired_def dest!: parseNumericDate_Some split: sum.splits option.splits if_splits)
  show "nbf - leeway opts \<le> now" if "map_of c ''nbf'' = Some w" "NumericDate J w = Some nbf" for w nbf
    using v(2) that parseNumericDate_value [OF that(1), of J]
    by (auto simp: verifyNotBefore_def split: sum.splits option.splits if_splits)
  show "claim_string c ''iss'' = Some (expectedIss opts)" if "expectedIss opts \<noteq> []"
    using v(4) [OF that]
    by (auto simp: verifyIssuer_def errorIfRequired_def parseString_def claim_string_def
        split: sum.splits option.splits if_splits json.splits)
  show "\<exists>aud. parseClaimsString c ''aud'' = Ok aud \<and> set aud \<inter> set (expectedAud opts) \<noteq> {}" if "expectedAud opts \<noteq> []"
    using v(3) [OF that] that
    by (auto simp: verifyAudience_def errorIfRequired_def list_ex_iff split: sum.splits if_splits)
qed

text \<open>An accepted token: signed by a key that the key function gave for its own header.\<close>

definition signed_by :: "jwt_ops \<Rightarrow> json_text \<Rightarrow> string \<Rightarrow> jwt_token \<Rightarrow> jwk \<Rightarrow> claims \<Rightarrow> bool" where
  "signed_by J T tokenString t key c \<longleftrightarrow>
     (\<exists>u. ParseUnverified T tokenString = Ok u \<and> Token u = t \<and> Claims u = c
        \<and> Verify J (TokenAlg t) (SignedText u) (Signature u) key = None)"

lemma ParseWithClaims_Ok:
  assumes "ParseWithClaims J T opts now tokenString keyFunc = Ok c"
  obtains t key where "TokenAlg t \<in> set (validMethods opts)" "keyFunc t = Ok key"
    "signed_by J T tokenString t key c" "claims_valid J opts now c"
  using assms
  by (auto simp: ParseWithClaims_def signed_by_def dest!: Validate_claims_valid split: sum.splits option.splits if_splits)

end
