(* ===== verification/OidcState.thy ===== *)
theory OidcState
  imports Json Crypto
begin

text \<open>
  \<open>src/oidc/state.go\<close>: the login state that travels through the browser in the
  \<open>state\<close> parameter. \<open>SealState\<close> stamps a type tag, the issue and the expiry time,
  encrypts the JSON under the purpose \<open>oidc-state\<close> and base64url-encodes the result;
  \<open>UnsealState\<close> undoes it and rejects an expired state. \<open>now\<close> is the clock reading
  of the call and \<open>nonce\<close> the random bytes drawn for the encryption.
\<close>

section \<open>Data\<close>

text \<open>\<open>time.Second\<close> and \<open>time.Minute\<close> in nanoseconds.\<close>

definition Second :: int where "Second = 1000000000"
definition Minute :: int where "Minute = 60 * Second"

definition stateLifetime :: int where
  "stateLifetime = 10 * Minute"

definition stateTypeTag :: string where
  "stateTypeTag = ''oidc-state''"

definition ErrStateExpired :: error where
  "ErrStateExpired = ''oidc state has expired''"

record OidcState =
  Action :: string
  RedirectUrl :: string
  CodeVerifierEnc :: string
  Csrf :: string
  Nonce :: string
  IsChallenge :: bool
  StateType :: string
  IssuedAt :: int
  StateExpires :: int

definition zero_state :: OidcState where
  "zero_state = \<lparr>Action = [], RedirectUrl = [], CodeVerifierEnc = [], Csrf = [], Nonce = [],
     IsChallenge = False, StateType = [], IssuedAt = 0, StateExpires = 0\<rparr>"

text \<open>The struct tags: four string fields and the flag are omitted when empty.\<close>

definition omit_str :: "string \<Rightarrow> string \<Rightarrow> (string \<times> json) list" where
  "omit_str k s = (if s = [] then [] else [(k, JStr s)])"

definition state_pairs :: "string \<Rightarrow> string \<Rightarrow> OidcState \<Rightarrow> (string \<times> json) list" where
  "state_pairs issued expires st =
     [(''action'', JStr (Action st)), (''redirect_url'', JStr (RedirectUrl st))]
     @ omit_str ''cve'' (CodeVerifierEnc st)
     @ omit_str ''csrf'' (Csrf st)
     @ omit_str ''nonce'' (Nonce st)
     @ (if IsChallenge st then [(''is_challenge'', JBool True)] else [])
     @ omit_str ''typ'' (StateType st)
     @ [(''issued_at'', JStr issued), (''expires'', JStr expires)]"

text \<open>A \<open>time.Time\<close> is a struct, which \<open>omitempty\<close> never omits.\<close>

definition state_json :: "time_text \<Rightarrow> OidcState \<Rightarrow> json option" where
  "state_json T st =
     (case (time_print T (IssuedAt st), time_print T (StateExpires st)) of
        (Some i, Some e) \<Rightarrow> Some (JObj (state_pairs i e st))
      | _ \<Rightarrow> None)"

definition state_fields :: "time_text \<Rightarrow> OidcState field list" where
  "state_fields T =
     [(''action'', dec_string (\<lambda>s st. st\<lparr>Action := s\<rparr>)),
      (''redirect_url'', dec_string (\<lambda>s st. st\<lparr>RedirectUrl := s\<rparr>)),
      (''cve'', dec_string (\<lambda>s st. st\<lparr>CodeVerifierEnc := s\<rparr>)),
      (''csrf'', dec_string (\<lambda>s st. st\<lparr>Csrf := s\<rparr>)),
      (''nonce'', dec_string (\<lambda>s st. st\<lparr>Nonce := s\<rparr>)),
      (''is_challenge'', dec_bool (\<lambda>b st. st\<lparr>IsChallenge := b\<rparr>)),
      (''typ'', dec_string (\<lambda>s st. st\<lparr>StateType := s\<rparr>)),
      (''issued_at'', dec_time T (\<lambda>t st. st\<lparr>IssuedAt := t\<rparr>)),
      (''expires'', dec_time T (\<lambda>t st. st\<lparr>StateExpires := t\<rparr>))]"

section \<open>Sealing\<close>

definition stamp_state :: "int \<Rightarrow> OidcState \<Rightarrow> OidcState" where
  "stamp_state now st =
     st\<lparr>StateType := stateTypeTag, IssuedAt := now, StateExpires := now + stateLifetime\<rparr>"

definition SealState ::
  "aead \<Rightarrow> json_text \<Rightarrow> time_text \<Rightarrow> int \<Rightarrow> string option \<Rightarrow> OidcState option \<Rightarrow> string \<Rightarrow> string result" where
  "SealState A J T now nonce state secret =
     (case state of
        None \<Rightarrow> Err ''state must not be nil''
      | Some st \<Rightarrow>
          (case state_json T (stamp_state now st) of
             None \<Rightarrow> Err ''Time.MarshalJSON: year outside of range [0,9999]''
           | Some j \<Rightarrow>
               (case EncryptWithPurpose A nonce (json_print J j) secret PurposeOidcState of
                  Inl err \<Rightarrow> Err err
                | Inr encrypted \<Rightarrow> Ok (RawURLEncoding_Encode encrypted))))"

section \<open>Opening\<close>

text \<open>
  The legacy fallback's shape check on the decoded object: no \<open>typ\<close>, no usable
  \<open>expires\<close>, and a non-empty string \<open>action\<close>.
\<close>

definition legacy_shape :: "time_text \<Rightarrow> (string \<rightharpoonup> json) \<Rightarrow> bool" where
  "legacy_shape T probe \<longleftrightarrow>
     probe ''typ'' = None
     \<and> (case probe ''expires'' of
          None \<Rightarrow> True
        | Some raw \<Rightarrow> (case dec_time T (\<lambda>t _. t) raw 0 of None \<Rightarrow> True | Some e \<Rightarrow> e = 0))
     \<and> (case probe ''action'' of
          None \<Rightarrow> False
        | Some raw \<Rightarrow> (case dec_string (\<lambda>s _. s) raw [] of None \<Rightarrow> False | Some a \<Rightarrow> a \<noteq> []))"

text \<open>The plaintext and whether the purpose-less fallback was used.\<close>

definition openState ::
  "aead \<Rightarrow> json_text \<Rightarrow> time_text \<Rightarrow> string \<Rightarrow> string \<Rightarrow> (string \<times> bool) result" where
  "openState A J T encBytes secret =
     (case DecryptWithPurpose A encBytes secret PurposeOidcState of
        Inr plain \<Rightarrow> Ok (plain, False)
      | Inl err \<Rightarrow>
          (case Decrypt A encBytes secret of
             Inl _ \<Rightarrow> Err err
           | Inr plain \<Rightarrow>
               (case Option.bind (json_parse J plain) decode_map of
                  None \<Rightarrow> Err err
                | Some probe \<Rightarrow> if legacy_shape T probe then Ok (plain, True) else Err err)))"

definition UnsealState ::
  "aead \<Rightarrow> json_text \<Rightarrow> time_text \<Rightarrow> int \<Rightarrow> string \<Rightarrow> string \<Rightarrow> OidcState result" where
  "UnsealState A J T now sealed secret =
     (case RawURLEncoding_Decode sealed of
        None \<Rightarrow> Err ''illegal base64 data''
      | Some encBytes \<Rightarrow>
          (case openState A J T encBytes secret of
             Inl err \<Rightarrow> Err err
           | Inr (plain, legacy) \<Rightarrow>
               (case Option.bind (json_parse J plain) (\<lambda>j. decode_struct (state_fields T) j zero_state) of
                  None \<Rightarrow> Err ''json: cannot unmarshal into OidcState''
                | Some state \<Rightarrow>
                    if \<not> legacy \<and> StateType state \<noteq> stateTypeTag
                    then Err (''unexpected oidc state type '' @ StateType state)
                    else if StateExpires state \<noteq> 0 \<and> now > StateExpires state
                    then Err ErrStateExpired
                    else Ok state)))"

section \<open>The codec of sealed values\<close>

lemma additionalData_id [simp]: "additionalDataForPurpose p = p"
  by (simp add: additionalDataForPurpose_def)

lemma DecryptWithPurpose_Encrypt:
  assumes "aead_correct A" "aes_key_ok k" "length n = NonceSize"
    and "EncryptWithPurpose A (Some n) p k ad = Ok c"
  shows "DecryptWithPurpose A c k ad = Ok p"
  using assms
  by (auto simp: EncryptWithPurpose_def DecryptWithPurpose_def std64.dec_enc std64.enc_empty
      aead_correct_def NonceSize_def split: option.splits)

lemma DecryptWithPurpose_other:
  assumes "aead_binds A" "length n = NonceSize"
    and "EncryptWithPurpose A (Some n) p k ad = Ok c" "k \<noteq> k' \<or> ad \<noteq> ad'"
  shows "\<exists>e. DecryptWithPurpose A c k' ad' = Err e"
  using assms
  by (auto simp: EncryptWithPurpose_def DecryptWithPurpose_def std64.dec_enc std64.enc_empty
      aead_binds_def NonceSize_def split: option.splits if_splits)

lemma EncryptWithPurpose_Ok:
  "aes_key_ok k \<Longrightarrow> \<exists>c. EncryptWithPurpose A (Some n) p k ad = Ok c"
  by (simp add: EncryptWithPurpose_def)

section \<open>The JSON of a state\<close>

lemma decode_state_pairs:
  assumes "time_parse T i = Some (IssuedAt st)" "time_parse T e = Some (StateExpires st)"
  shows "decode_fields (state_fields T) (state_pairs i e st) zero_state = Some st"
  by (cases st) (use assms in \<open>simp add: state_pairs_def omit_str_def state_fields_def zero_state_def\<close>)

definition state_utf8 :: "OidcState \<Rightarrow> bool" where
  "state_utf8 st \<longleftrightarrow> list_all ValidUtf8 [Action st, RedirectUrl st, CodeVerifierEnc st, Csrf st, Nonce st]"

lemma state_json_roundtrip:
  assumes "json_law J" "time_law T" "state_utf8 st" "ValidUtf8 (StateType st)" "state_json T st = Some j"
  shows "Option.bind (json_parse J (json_print J j)) (\<lambda>j. decode_struct (state_fields T) j zero_state) = Some st"
proof -
  from assms(5) obtain i e where ie: "time_print T (IssuedAt st) = Some i"
    "time_print T (StateExpires st) = Some e" "j = JObj (state_pairs i e st)"
    by (auto simp: state_json_def split: option.splits)
  with assms(2) have t: "time_parse T i = Some (IssuedAt st)" "time_parse T e = Some (StateExpires st)"
    "ValidUtf8 i" "ValidUtf8 e" by (auto simp: time_law_def)
  have "json_utf8 j"
    using assms(3,4) t(3,4) unfolding ie(3)
    by (auto simp: state_pairs_def omit_str_def state_utf8_def intro!: utf8_ascii)
  with assms(1) have "json_parse J (json_print J j) = Some j" by (simp add: json_law_def)
  then show ?thesis by (simp add: ie(3) decode_struct_def decode_state_pairs [OF t(1,2)])
qed

section \<open>Properties\<close>

lemma SealState_Ok:
  assumes "SealState A J T now (Some n) (Some st) k = Ok s"
  obtains j c where "state_json T (stamp_state now st) = Some j"
    "EncryptWithPurpose A (Some n) (json_print J j) k PurposeOidcState = Ok c" "s = RawURLEncoding_Encode c"
  using assms by (auto simp: SealState_def split: option.splits sum.splits)

lemma foreign_openState:
  assumes "aead_binds A" "length n = NonceSize" "EncryptWithPurpose A (Some n) p k ad = Ok c" "k \<noteq> k'"
  shows "\<exists>e. openState A J T c k' = Err e"
  using DecryptWithPurpose_other [OF assms(1-3), of k' PurposeOidcState] DecryptWithPurpose_other [OF assms(1-3), of k' "[]"] assms(4)
  by (auto simp: openState_def Decrypt_def)

lemma UnsealState_encoded:
  "UnsealState A J T now (RawURLEncoding_Encode c) k =
     (case openState A J T c k of
        Inl err \<Rightarrow> Err err
      | Inr (plain, legacy) \<Rightarrow>
          (case Option.bind (json_parse J plain) (\<lambda>j. decode_struct (state_fields T) j zero_state) of
             None \<Rightarrow> Err ''json: cannot unmarshal into OidcState''
           | Some state \<Rightarrow>
               if \<not> legacy \<and> StateType state \<noteq> stateTypeTag
               then Err (''unexpected oidc state type '' @ StateType state)
               else if StateExpires state \<noteq> 0 \<and> now > StateExpires state
               then Err ErrStateExpired
               else Ok state))"
  by (simp add: UnsealState_def raw64.dec_enc)

lemma foreign_state:
  assumes "aead_binds A" "length n = NonceSize" "SealState A J T now (Some n) (Some st) k = Ok s" "k \<noteq> k'"
  shows "\<exists>e. UnsealState A J T now' s k' = Err e"
proof -
  from assms(3) obtain j c where "EncryptWithPurpose A (Some n) (json_print J j) k PurposeOidcState = Ok c"
    and s: "s = RawURLEncoding_Encode c" by (rule SealState_Ok)
  with foreign_openState [OF assms(1,2) _ assms(4)] obtain e where "openState A J T c k' = Err e" by blast
  then show ?thesis by (simp add: s UnsealState_encoded)
qed

text \<open>
  C16. A sealed login state opens to exactly the state that was sealed, stamped with the
  type tag and the two times, for ten minutes; after that it is rejected as expired.
\<close>

theorem SealState_UnsealState:
  assumes "aead_correct A" "json_law J" "time_law T"
    and "state_utf8 st" "aes_key_ok k" "length n = NonceSize" "0 \<le> now"
    and "SealState A J T now (Some n) (Some st) k = Ok s"
  shows "UnsealState A J T now' s k =
    (if now' \<le> now + stateLifetime then Ok (stamp_state now st) else Err ErrStateExpired)"
proof -
  from assms(8) obtain j c where j: "state_json T (stamp_state now st) = Some j"
    and c: "EncryptWithPurpose A (Some n) (json_print J j) k PurposeOidcState = Ok c"
    and s: "s = RawURLEncoding_Encode c" by (rule SealState_Ok)
  have "openState A J T c k = Ok (json_print J j, False)"
    by (simp add: openState_def DecryptWithPurpose_Encrypt [OF assms(1,5,6) c])
  moreover have "state_utf8 (stamp_state now st)" "ValidUtf8 (StateType (stamp_state now st))"
    using assms(4) by (auto simp: state_utf8_def stamp_state_def stateTypeTag_def intro!: utf8_ascii)
  ultimately show ?thesis
    using state_json_roundtrip [OF assms(2,3) _ _ j] assms(7)
    by (simp add: s UnsealState_encoded stamp_state_def stateLifetime_def Minute_def Second_def)
qed

theorem SealState_UnsealState_witness:
  "\<exists>s. SealState ideal_aead unary_json unary_time 5 (Some (replicate 12 CHR ''n''))
         (Some (zero_state\<lparr>Action := ''Login'', RedirectUrl := ''https://a/''\<rparr>)) (replicate 32 CHR ''k'') = Ok s
     \<and> UnsealState ideal_aead unary_json unary_time 7 s (replicate 32 CHR ''k'')
       = Ok (stamp_state 5 (zero_state\<lparr>Action := ''Login'', RedirectUrl := ''https://a/''\<rparr>))
     \<and> UnsealState ideal_aead unary_json unary_time 600000000006 s (replicate 32 CHR ''k'') = Err ErrStateExpired"
proof -
  define k where "k = replicate 32 CHR ''k''"
  define n where "n = replicate 12 CHR ''n''"
  define st where "st = zero_state\<lparr>Action := ''Login'', RedirectUrl := ''https://a/''\<rparr>"
  have k: "aes_key_ok k" and n: "length n = NonceSize"
    by (simp_all add: k_def n_def aes_key_ok_def NonceSize_def)
  have u: "state_utf8 st" by (auto simp: st_def state_utf8_def zero_state_def intro!: utf8_ascii)
  obtain s where s: "SealState ideal_aead unary_json unary_time 5 (Some n) (Some st) k = Ok s"
    using k unfolding SealState_def EncryptWithPurpose_def state_json_def stamp_state_def
    by (simp add: unary_time_def stateLifetime_def Minute_def Second_def)
  show ?thesis
    using s SealState_UnsealState [OF ideal_aead_correct unary_json_law unary_time_law u k n _ s]
    unfolding k_def [symmetric] n_def [symmetric] st_def [symmetric]
    by (intro exI [of _ s]) (simp add: stateLifetime_def Minute_def Second_def)
qed

text \<open>
  C15. What \<open>UnsealState\<close> accepts is not expired, and its ciphertext is authentic:
  either it opens under the purpose \<open>oidc-state\<close> and carries the type tag, or it is a
  purpose-less ciphertext whose object has no \<open>typ\<close> and a non-empty \<open>action\<close>.
\<close>

theorem UnsealState_accepts:
  assumes "UnsealState A J T now sealed k = Ok st"
  shows "(StateExpires st = 0 \<or> now \<le> StateExpires st)
    \<and> (\<exists>enc plain. RawURLEncoding_Decode sealed = Some enc
        \<and> (DecryptWithPurpose A enc k PurposeOidcState = Ok plain \<and> StateType st = stateTypeTag
           \<or> Decrypt A enc k = Ok plain
             \<and> (\<exists>ps a. json_parse J plain = Some (JObj ps) \<and> map_of (rev ps) ''typ'' = None
                  \<and> map_of (rev ps) ''action'' = Some (JStr a) \<and> a \<noteq> [])))"
proof -
  from assms obtain enc plain legacy where enc: "RawURLEncoding_Decode sealed = Some enc"
    and o: "openState A J T enc k = Ok (plain, legacy)"
    and st: "legacy \<or> StateType st = stateTypeTag" "StateExpires st = 0 \<or> now \<le> StateExpires st"
    by (auto simp: UnsealState_def not_less split: option.splits sum.splits if_splits)
  have action: "\<exists>a. v = JStr a \<and> a \<noteq> []" if "dec_string (\<lambda>s _. s) v [] = Some b" "b \<noteq> []" for v b
    using that by (cases v) auto
  have parsed: "\<exists>ps. j = JObj ps \<and> m = map_of (rev ps)" if "decode_map j = Some m" "m x \<noteq> None" for j m and x :: string
    using that by (cases j) auto
  show ?thesis
  proof (cases legacy)
    case False
    with enc o st show ?thesis by (auto simp: openState_def split: sum.splits option.splits if_splits)
  next
    case True
    with o obtain j probe where l: "Decrypt A enc k = Ok plain" "json_parse J plain = Some j"
      "decode_map j = Some probe" "legacy_shape T probe"
      by (auto simp: openState_def bind_eq_Some_conv split: sum.splits option.splits if_splits)
    then obtain v b where v: "probe ''action'' = Some v" "dec_string (\<lambda>s _. s) v [] = Some b" "b \<noteq> []"
      "probe ''typ'' = None" by (auto simp: legacy_shape_def split: option.splits)
    with parsed [OF l(3), of "''action''"] action show ?thesis using enc st(2) l(1,2) by fastforce
  qed
qed

theorem UnsealState_accepts_witness:
  "\<exists>s. UnsealState ideal_aead unary_json unary_time 7 s (replicate 32 CHR ''k'')
       = Ok (stamp_state 5 (zero_state\<lparr>Action := ''Login''\<rparr>))
     \<and> 7 \<le> StateExpires (stamp_state 5 (zero_state\<lparr>Action := ''Login''\<rparr>))
     \<and> (\<exists>enc. RawURLEncoding_Decode s = Some enc)"
proof -
  define k where "k = replicate 32 CHR ''k''"
  define n where "n = replicate 12 CHR ''n''"
  define j where "j = JObj (state_pairs (replicate 5 CHR ''t'') (replicate (nat (5 + stateLifetime)) CHR ''t'')
    (stamp_state 5 (zero_state\<lparr>Action := ''Login''\<rparr>)))"
  have k: "aes_key_ok k" and n: "length n = NonceSize"
    by (simp_all add: k_def n_def aes_key_ok_def NonceSize_def)
  obtain c where c: "EncryptWithPurpose ideal_aead (Some n) (json_print unary_json j) k PurposeOidcState = Ok c"
    using EncryptWithPurpose_Ok [OF k] by blast
  have "UnsealState ideal_aead unary_json unary_time 7 (RawURLEncoding_Encode c) k
      = Ok (stamp_state 5 (zero_state\<lparr>Action := ''Login''\<rparr>))"
    unfolding UnsealState_encoded openState_def DecryptWithPurpose_Encrypt [OF ideal_aead_correct k n c]
    by (simp add: unary_json_def j_def decode_struct_def decode_state_pairs unary_time_def stamp_state_def
        stateLifetime_def Minute_def Second_def)
  with UnsealState_accepts [OF this] show ?thesis
    unfolding k_def by (auto simp: stamp_state_def stateLifetime_def Minute_def Second_def)
qed

text \<open>
  A value sealed for another purpose, such as a session ticket, never opens as a
  login state, whatever it contains.
\<close>

theorem UnsealState_other_purpose:
  assumes "aead_binds A" "length n = NonceSize" "purpose \<notin> {[], PurposeOidcState}"
    and "EncryptWithPurpose A (Some n) plain k purpose = Ok c"
  shows "\<exists>e. UnsealState A J T now (RawURLEncoding_Encode c) k' = Err e"
proof -
  from assms(3) have p: "purpose \<noteq> PurposeOidcState" "purpose \<noteq> []" by auto
  obtain e where e: "DecryptWithPurpose A c k' PurposeOidcState = Err e"
    using DecryptWithPurpose_other [OF assms(1,2,4)] p(1) by blast
  obtain e' where "Decrypt A c k' = Err e'"
    using DecryptWithPurpose_other [OF assms(1,2,4)] p(2) unfolding Decrypt_def by blast
  with e show ?thesis by (simp add: UnsealState_encoded openState_def)
qed

theorem UnsealState_other_purpose_witness:
  "\<exists>c. EncryptWithPurpose ideal_aead (Some (replicate 12 CHR ''n'')) ''{}'' (replicate 32 CHR ''k'') PurposeSession = Ok c
     \<and> (\<exists>e. UnsealState ideal_aead unary_json unary_time 7 (RawURLEncoding_Encode c) (replicate 32 CHR ''k'') = Err e)"
proof -
  have k: "aes_key_ok (replicate 32 CHR ''k'')" by (simp add: aes_key_ok_def)
  obtain c where c: "EncryptWithPurpose ideal_aead (Some (replicate 12 CHR ''n'')) ''{}'' (replicate 32 CHR ''k'')
    PurposeSession = Ok c" using EncryptWithPurpose_Ok [OF k] by blast
  have p: "PurposeSession \<notin> {[], PurposeOidcState}" by (simp add: PurposeSession_def PurposeOidcState_def)
  show ?thesis
    using c UnsealState_other_purpose [OF ideal_aead_binds _ p c] by (auto simp: NonceSize_def)
qed

end
