(* ===== verification/SessionStore.thy ===== *)
theory SessionStore
  imports OidcState ConfigTypes
begin

text \<open>
  \<open>src/session\<close>: the session state and the cookie session storage, which seals the
  state under the purpose \<open>session\<close> and bounds the size of the ticket.
  \<open>StoreSession\<close> changes the state it is given (the two time stamps), so it returns the
  state with the result.
\<close>

definition ChunkSize :: nat where "ChunkSize = 3072"
definition MaxChunks :: nat where "MaxChunks = 32"
definition MaxTicketSize :: nat where "MaxTicketSize = ChunkSize * MaxChunks"

definition ErrSessionTooLarge :: error where
  "ErrSessionTooLarge = ''session state exceeds the maximum cookie size''"

record SessionState =
  Id :: string
  RefreshedAt :: int
  AccessToken :: string
  IdToken :: string
  RefreshToken :: string
  IsAuthorized :: bool
  TokenExpiresIn :: int
  ChallengeAttempted :: bool
  CreatedAt :: int
  LastUsedAt :: int

definition zero_session :: SessionState where
  "zero_session = \<lparr>Id = [], RefreshedAt = 0, AccessToken = [], IdToken = [], RefreshToken = [],
     IsAuthorized = False, TokenExpiresIn = 0, ChallengeAttempted = False, CreatedAt = 0, LastUsedAt = 0\<rparr>"

section \<open>The JSON of a session\<close>

definition session_pairs :: "string \<Rightarrow> string \<Rightarrow> string \<Rightarrow> SessionState \<Rightarrow> (string \<times> json) list" where
  "session_pairs refreshed created used s =
     [(''id'', JStr (Id s)),
      (''created_at'', JStr refreshed),
      (''access_token'', JStr (AccessToken s)),
      (''id_token'', JStr (IdToken s)),
      (''refresh_token'', JStr (RefreshToken s)),
      (''is_authorized'', JBool (IsAuthorized s)),
      (''token_expires_in'', JInt (TokenExpiresIn s)),
      (''challenge_attempted'', JBool (ChallengeAttempted s)),
      (''session_created_at'', JStr created),
      (''last_used_at'', JStr used)]"

definition session_json :: "time_text \<Rightarrow> SessionState \<Rightarrow> json option" where
  "session_json T s =
     (case (time_print T (RefreshedAt s), time_print T (CreatedAt s), time_print T (LastUsedAt s)) of
        (Some r, Some c, Some u) \<Rightarrow> Some (JObj (session_pairs r c u s))
      | _ \<Rightarrow> None)"

definition session_fields :: "time_text \<Rightarrow> SessionState field list" where
  "session_fields T =
     [(''id'', dec_string (\<lambda>v s. s\<lparr>Id := v\<rparr>)),
      (''created_at'', dec_time T (\<lambda>v s. s\<lparr>RefreshedAt := v\<rparr>)),
      (''access_token'', dec_string (\<lambda>v s. s\<lparr>AccessToken := v\<rparr>)),
      (''id_token'', dec_string (\<lambda>v s. s\<lparr>IdToken := v\<rparr>)),
      (''refresh_token'', dec_string (\<lambda>v s. s\<lparr>RefreshToken := v\<rparr>)),
      (''is_authorized'', dec_bool (\<lambda>v s. s\<lparr>IsAuthorized := v\<rparr>)),
      (''token_expires_in'', dec_int (\<lambda>v s. s\<lparr>TokenExpiresIn := v\<rparr>)),
      (''challenge_attempted'', dec_bool (\<lambda>v s. s\<lparr>ChallengeAttempted := v\<rparr>)),
      (''session_created_at'', dec_time T (\<lambda>v s. s\<lparr>CreatedAt := v\<rparr>)),
      (''last_used_at'', dec_time T (\<lambda>v s. s\<lparr>LastUsedAt := v\<rparr>))]"

section \<open>Storing and loading\<close>

definition stamp_session :: "int \<Rightarrow> SessionState \<Rightarrow> SessionState" where
  "stamp_session now s = s\<lparr>CreatedAt := (if CreatedAt s = 0 then now else CreatedAt s), LastUsedAt := now\<rparr>"

definition StoreSession ::
  "aead \<Rightarrow> json_text \<Rightarrow> time_text \<Rightarrow> int \<Rightarrow> string option \<Rightarrow> Config \<Rightarrow> SessionState
     \<Rightarrow> SessionState \<times> string result" where
  "StoreSession A J T now nonce config state0 =
     (let state = stamp_session now state0
      in (state,
          case session_json T state of
            None \<Rightarrow> Err ''Time.MarshalJSON: year outside of range [0,9999]''
          | Some stateJson \<Rightarrow>
              (case EncryptWithPurpose A nonce (json_print J stateJson) (Secret config) PurposeSession of
                 Inl err \<Rightarrow> Err err
               | Inr ticket \<Rightarrow>
                   if MaxTicketSize < length ticket then Err ErrSessionTooLarge else Ok ticket)))"

text \<open>A ticket that was sealed before the lifetime bounds existed gets its stamps here.\<close>

definition backfill_session :: "int \<Rightarrow> SessionState \<Rightarrow> SessionState" where
  "backfill_session now s =
     (let s1 = (if CreatedAt s = 0
                then s\<lparr>CreatedAt := (if LastUsedAt s = 0 then now else LastUsedAt s)\<rparr> else s)
      in if LastUsedAt s1 = 0 then s1\<lparr>LastUsedAt := CreatedAt s1\<rparr> else s1)"

definition open_ticket :: "aead \<Rightarrow> Config \<Rightarrow> string \<Rightarrow> string result" where
  "open_ticket A config ticket =
     (case DecryptWithPurpose A ticket (Secret config) PurposeSession of
        Inr plain \<Rightarrow> Ok plain
      | Inl err \<Rightarrow> (case Decrypt A ticket (Secret config) of Inl _ \<Rightarrow> Err err | Inr legacyPlain \<Rightarrow> Ok legacyPlain))"

definition TryGetSession ::
  "aead \<Rightarrow> json_text \<Rightarrow> time_text \<Rightarrow> int \<Rightarrow> Config \<Rightarrow> string \<Rightarrow> SessionState result" where
  "TryGetSession A J T now config ticket =
     (case open_ticket A config ticket of
        Inl err \<Rightarrow> Err err
      | Inr plain \<Rightarrow>
          (case Option.bind (json_parse J plain) (\<lambda>j. decode_struct (session_fields T) j zero_session) of
             None \<Rightarrow> Err ''json: cannot unmarshal into SessionState''
           | Some state \<Rightarrow> Ok (backfill_session now state)))"

section \<open>Lemmas\<close>

lemma decode_session_pairs:
  assumes "time_parse T r = Some (RefreshedAt s)" "time_parse T c = Some (CreatedAt s)"
    "time_parse T u = Some (LastUsedAt s)" "int64 (TokenExpiresIn s)"
  shows "decode_fields (session_fields T) (session_pairs r c u s) zero_session = Some s"
  by (cases s) (use assms in \<open>simp add: session_pairs_def session_fields_def zero_session_def\<close>)

definition session_utf8 :: "SessionState \<Rightarrow> bool" where
  "session_utf8 s \<longleftrightarrow> list_all ValidUtf8 [Id s, AccessToken s, IdToken s, RefreshToken s]"

lemma session_json_roundtrip:
  assumes "json_law J" "time_law T" "session_utf8 s" "int64 (TokenExpiresIn s)" "session_json T s = Some j"
  shows "Option.bind (json_parse J (json_print J j)) (\<lambda>j. decode_struct (session_fields T) j zero_session) = Some s"
proof -
  from assms(5) obtain r c u where p: "time_print T (RefreshedAt s) = Some r"
    "time_print T (CreatedAt s) = Some c" "time_print T (LastUsedAt s) = Some u"
    "j = JObj (session_pairs r c u s)"
    by (auto simp: session_json_def split: option.splits)
  with assms(2) have t: "time_parse T r = Some (RefreshedAt s)" "time_parse T c = Some (CreatedAt s)"
    "time_parse T u = Some (LastUsedAt s)" "list_all ValidUtf8 [r, c, u]" by (auto simp: time_law_def)
  have "json_utf8 j"
    using assms(3) t(4) unfolding p(4)
    by (auto simp: session_pairs_def session_utf8_def intro!: utf8_ascii)
  with assms(1) have "json_parse J (json_print J j) = Some j" by (simp add: json_law_def)
  then show ?thesis by (simp add: p(4) decode_struct_def decode_session_pairs [OF t(1-3) assms(4)])
qed

lemma backfill_stamped: "CreatedAt s \<noteq> 0 \<Longrightarrow> LastUsedAt s \<noteq> 0 \<Longrightarrow> backfill_session now s = s"
  by (simp add: backfill_session_def)

lemma backfill_nonzero: "now \<noteq> 0 \<Longrightarrow> CreatedAt (backfill_session now s) \<noteq> 0 \<and> LastUsedAt (backfill_session now s) \<noteq> 0"
  by (simp add: backfill_session_def Let_def)

lemma TryGetSession_nonzero:
  "TryGetSession A J T now config ticket = Ok s \<Longrightarrow> now \<noteq> 0 \<Longrightarrow> CreatedAt s \<noteq> 0 \<and> LastUsedAt s \<noteq> 0"
  using backfill_nonzero by (auto simp: TryGetSession_def split: sum.splits option.splits)

lemma StoreSession_Ok:
  assumes "StoreSession A J T now (Some n) config s = (s', Ok ticket)"
  obtains j where "s' = stamp_session now s" "session_json T s' = Some j"
    "EncryptWithPurpose A (Some n) (json_print J j) (Secret config) PurposeSession = Ok ticket"
    "length ticket \<le> MaxTicketSize"
  using assms by (auto simp: StoreSession_def Let_def split: option.splits sum.splits if_splits)

lemma foreign_ticket:
  assumes "aead_binds A" "length n = NonceSize" "Secret config \<noteq> Secret config'"
    and "StoreSession A J T now (Some n) config s = (s', Ok ticket)"
  shows "\<exists>e. TryGetSession A J T now' config' ticket = Err e"
proof -
  from assms(4) obtain j where e: "EncryptWithPurpose A (Some n) (json_print J j) (Secret config) PurposeSession = Ok ticket"
    by (rule StoreSession_Ok)
  note other = DecryptWithPurpose_other [OF assms(1,2) e, of "Secret config'"]
  from assms(3) other [of PurposeSession] other [of "[]"] show ?thesis
    by (auto simp: TryGetSession_def open_ticket_def Decrypt_def)
qed

section \<open>Properties\<close>

lemma stored_session_reads:
  assumes "aead_correct A" "json_law J" "time_law T" "aes_key_ok (Secret config)" "length n = NonceSize"
    and "session_utf8 s" "int64 (TokenExpiresIn s)" "0 < now"
    and "StoreSession A J T now (Some n) config s = (s', Ok ticket)"
  shows "TryGetSession A J T now' config ticket = Ok (stamp_session now s)
    \<and> s' = stamp_session now s \<and> length ticket \<le> MaxTicketSize
    \<and> CreatedAt s' = (if CreatedAt s = 0 then now else CreatedAt s)"
proof -
  from assms(9) obtain j where j: "s' = stamp_session now s" "session_json T s' = Some j"
    and e: "EncryptWithPurpose A (Some n) (json_print J j) (Secret config) PurposeSession = Ok ticket"
    and l: "length ticket \<le> MaxTicketSize" by (rule StoreSession_Ok)
  have s': "session_utf8 s'" "int64 (TokenExpiresIn s')" "CreatedAt s' \<noteq> 0" "LastUsedAt s' \<noteq> 0"
    using assms(6-8) by (auto simp: j stamp_session_def session_utf8_def)
  have "TryGetSession A J T now' config ticket = Ok s'"
    using session_json_roundtrip [OF assms(2,3) s'(1,2) j(2)] backfill_stamped [OF s'(3,4)]
    by (simp add: TryGetSession_def open_ticket_def DecryptWithPurpose_Encrypt [OF assms(1,4,5) e])
  then show ?thesis using l by (simp add: j stamp_session_def)
qed

text \<open>
  A stored session reads back field for field, stamped: \<open>CreatedAt\<close> is set by the
  first write and kept by every later one, \<open>LastUsedAt\<close> is the time of the write. The
  ticket fits the cookie budget.
\<close>

theorem StoreSession_TryGetSession:
  assumes "aead_correct A" "json_law J" "time_law T" "aes_key_ok (Secret config)" "length n = NonceSize"
    and "session_utf8 s" "int64 (TokenExpiresIn s)" "0 < now"
    and "StoreSession A J T now (Some n) config s = (s', Ok ticket)"
  shows "TryGetSession A J T now' config ticket = Ok (stamp_session now s)
    \<and> s' = stamp_session now s \<and> length ticket \<le> MaxTicketSize
    \<and> CreatedAt s' = (if CreatedAt s = 0 then now else CreatedAt s)"
  using assms by (rule stored_session_reads)

definition sample_json :: json_text where
  "sample_json = pinned_json (JObj (session_pairs [] ''t'' ''t'' (stamp_session 1 zero_session)))"

lemma sample_store:
  assumes "length (Secret config) = 32"
  shows "\<exists>ticket. StoreSession ideal_aead sample_json unary_time 1 (Some (replicate 12 CHR ''n'')) config zero_session
     = (stamp_session 1 zero_session, Ok ticket)"
proof -
  have "length (frame s) = 2 * length s + 1" for s by (induction s) auto
  with assms show ?thesis
    by (simp add: StoreSession_def Let_def session_json_def stamp_session_def zero_session_def unary_time_def
        EncryptWithPurpose_def aes_key_ok_def sample_json_def pinned_json_def
        length_StdEncoding_Encode ideal_aead_def PurposeSession_def MaxTicketSize_def ChunkSize_def MaxChunks_def)
qed

theorem StoreSession_TryGetSession_witness:
  "\<exists>ticket. StoreSession ideal_aead sample_json unary_time 1 (Some (replicate 12 CHR ''n'')) CreateConfig zero_session
       = (stamp_session 1 zero_session, Ok ticket)
     \<and> TryGetSession ideal_aead sample_json unary_time 9 CreateConfig ticket = Ok (stamp_session 1 zero_session)"
proof -
  obtain ticket where t: "StoreSession ideal_aead sample_json unary_time 1 (Some (replicate 12 CHR ''n''))
    CreateConfig zero_session = (stamp_session 1 zero_session, Ok ticket)"
    using sample_store [of CreateConfig] by (auto simp: CreateConfig_def DefaultSecret_def)
  have law: "json_law sample_json" by (simp add: sample_json_def pinned_json_law)
  have k: "aes_key_ok (Secret CreateConfig)" by (simp add: aes_key_ok_def CreateConfig_def DefaultSecret_def)
  have z: "session_utf8 zero_session" "int64 (TokenExpiresIn zero_session)"
    by (auto simp: session_utf8_def zero_session_def int64_def intro!: utf8_ascii)
  show ?thesis
    using t StoreSession_TryGetSession [OF ideal_aead_correct law unary_time_law k _ z _ t]
    by (auto simp: NonceSize_def)
qed

text \<open>
  A session that was read always carries both time stamps, so the lifetime and the
  idle bound apply to it; stamps that the ticket carries are not changed.
\<close>

theorem TryGetSession_stamped:
  assumes "TryGetSession A J T now config ticket = Ok s" "now \<noteq> 0"
  shows "CreatedAt s \<noteq> 0 \<and> LastUsedAt s \<noteq> 0
    \<and> (\<exists>plain j s0. open_ticket A config ticket = Ok plain \<and> json_parse J plain = Some j
        \<and> decode_struct (session_fields T) j zero_session = Some s0
        \<and> s = s0\<lparr>CreatedAt := CreatedAt s, LastUsedAt := LastUsedAt s\<rparr>
        \<and> (CreatedAt s0 \<noteq> 0 \<longrightarrow> CreatedAt s = CreatedAt s0)
        \<and> (LastUsedAt s0 \<noteq> 0 \<longrightarrow> LastUsedAt s = LastUsedAt s0))"
proof -
  from assms(1) obtain plain j s0 where o: "open_ticket A config ticket = Ok plain" "json_parse J plain = Some j"
    "decode_struct (session_fields T) j zero_session = Some s0" and s: "s = backfill_session now s0"
    by (auto simp: TryGetSession_def bind_eq_Some_conv split: sum.splits option.splits)
  have "CreatedAt s \<noteq> 0 \<and> LastUsedAt s \<noteq> 0 \<and> s = s0\<lparr>CreatedAt := CreatedAt s, LastUsedAt := LastUsedAt s\<rparr>
      \<and> (CreatedAt s0 \<noteq> 0 \<longrightarrow> CreatedAt s = CreatedAt s0) \<and> (LastUsedAt s0 \<noteq> 0 \<longrightarrow> LastUsedAt s = LastUsedAt s0)"
    using assms(2) unfolding s backfill_session_def by (cases s0) (simp add: Let_def)
  with o show ?thesis by blast
qed

theorem TryGetSession_stamped_witness:
  "\<exists>ticket s. TryGetSession ideal_aead (pinned_json (JObj [])) unary_time 9 CreateConfig ticket = Ok s
     \<and> CreatedAt s \<noteq> 0 \<and> LastUsedAt s \<noteq> 0"
proof -
  have k: "aes_key_ok (Secret CreateConfig)" by (simp add: aes_key_ok_def CreateConfig_def DefaultSecret_def)
  obtain c where c: "EncryptWithPurpose ideal_aead (Some (replicate 12 CHR ''n'')) ''0'' (Secret CreateConfig)
    PurposeSession = Ok c" using EncryptWithPurpose_Ok [OF k] by blast
  have "DecryptWithPurpose ideal_aead c (Secret CreateConfig) PurposeSession = Ok ''0''"
    by (rule DecryptWithPurpose_Encrypt [OF ideal_aead_correct k _ c]) (simp add: NonceSize_def)
  then have t: "TryGetSession ideal_aead (pinned_json (JObj [])) unary_time 9 CreateConfig c
      = Ok (backfill_session 9 zero_session)"
    by (simp add: TryGetSession_def open_ticket_def pinned_json_def decode_struct_def)
  from TryGetSession_stamped [OF t] t show ?thesis by auto
qed

text \<open>
  A sealed login state is never accepted as a session ticket: neither the purpose
  \<open>session\<close> nor the purpose-less fallback opens it.
\<close>

theorem TryGetSession_rejects_state:
  assumes "aead_binds A" "length n = NonceSize"
    and "EncryptWithPurpose A (Some n) plain k PurposeOidcState = Ok c"
  shows "\<exists>e. TryGetSession A J T now config c = Err e"
proof -
  obtain e e' where "DecryptWithPurpose A c (Secret config) PurposeSession = Err e"
    "DecryptWithPurpose A c (Secret config) [] = Err e'"
    using DecryptWithPurpose_other [OF assms, of "Secret config" PurposeSession]
      DecryptWithPurpose_other [OF assms, of "Secret config" "[]"]
    by (auto simp: PurposeOidcState_def PurposeSession_def)
  then show ?thesis by (simp add: TryGetSession_def open_ticket_def Decrypt_def)
qed

theorem TryGetSession_rejects_state_witness:
  "\<exists>c. EncryptWithPurpose ideal_aead (Some (replicate 12 CHR ''n'')) ''{}'' DefaultSecret PurposeOidcState = Ok c
     \<and> (\<exists>e. TryGetSession ideal_aead unary_json unary_time 9 CreateConfig c = Err e)"
proof -
  have k: "aes_key_ok DefaultSecret" by (simp add: aes_key_ok_def DefaultSecret_def)
  obtain c where c: "EncryptWithPurpose ideal_aead (Some (replicate 12 CHR ''n'')) ''{}'' DefaultSecret
    PurposeOidcState = Ok c" using EncryptWithPurpose_Ok [OF k] by blast
  show ?thesis using c TryGetSession_rejects_state [OF ideal_aead_binds _ c] by (auto simp: NonceSize_def)
qed

end
