(* ===== verification/CookieJar.thy ===== *)
theory CookieJar
  imports Utils SessionStore
begin

text \<open>
  \<open>src/cookie.go\<close> and \<open>createSessionCookie\<close> of \<open>src/session.go\<close>: the session
  ticket as chunked cookies, the login CSRF cookie, and the expiry of older PKCE cookies.
  The functions take the calls already made on the response writer and return them with
  their own appended. \<open>now\<close> is the clock reading behind an immediate expiry. The
  callback URL is never nil in a middleware that \<open>New\<close> built.
\<close>

section \<open>Building cookies\<close>

definition parseCookieSameSiteChecked :: "string \<Rightarrow> SameSite \<times> error option" where
  "parseCookieSameSiteChecked sameSite =
     (if sameSite = ''none'' then (SameSiteNoneMode, None)
      else if sameSite = ''lax'' then (SameSiteLaxMode, None)
      else if sameSite = ''strict'' then (SameSiteStrictMode, None)
      else if sameSite = [] \<or> sameSite = ''default'' then (SameSiteDefaultMode, None)
      else (SameSiteLaxMode,
            Some (''unknown session cookie same_site value '' @ sameSite @ '', expected one of none, lax, strict'')))"

definition parseCookieSameSite :: "string \<Rightarrow> SameSite" where
  "parseCookieSameSite sameSite =
     (case parseCookieSameSiteChecked sameSite of (mode, err) \<Rightarrow>
        if err \<noteq> None then SameSiteLaxMode else mode)"

definition makeCookieName :: "Config \<Rightarrow> string \<Rightarrow> string" where
  "makeCookieName config name = CookieNamePrefix config @ ''.'' @ name"

definition getCodeVerifierCookieName :: "Config \<Rightarrow> string" where
  "getCodeVerifierCookieName config = makeCookieName config ''CodeVerifier''"

definition getLoginCsrfCookieName :: "Config \<Rightarrow> string \<Rightarrow> string" where
  "getLoginCsrfCookieName config csrf = makeCookieName config (''LoginCsrf.'' @ csrf)"

definition getSessionCookieName :: "Config \<Rightarrow> string" where
  "getSessionCookieName config = makeCookieName config ''Session''"

definition createSessionCookie :: "Config \<Rightarrow> cookie" where
  "createSessionCookie config = \<lparr>
     Name = getSessionCookieName config, Value = [],
     CookiePath = SC_Path (SessionCookie config), Domain = SC_Domain (SessionCookie config),
     Expires = None, MaxAge = SC_MaxAge (SessionCookie config),
     Secure = SC_Secure (SessionCookie config), HttpOnly = SC_HttpOnly (SessionCookie config),
     CookieSameSite = fst (parseCookieSameSiteChecked (SC_SameSite (SessionCookie config)))\<rparr>"

definition makeCookieExpireImmediately :: "int \<Rightarrow> cookie \<Rightarrow> cookie" where
  "makeCookieExpireImmediately now c = c\<lparr>Expires := Some (now - 24 * 60 * Minute), MaxAge := - 1\<rparr>"

section \<open>Chunked cookies\<close>

definition chunk_name :: "string \<Rightarrow> nat \<Rightarrow> string" where
  "chunk_name cookieName i = cookieName @ ''.'' @ Itoa (int i)"

text \<open>One cookie per chunk, numbered from \<open>i\<close>.\<close>

fun set_chunks :: "cookie \<Rightarrow> string \<Rightarrow> nat \<Rightarrow> string list \<Rightarrow> rw \<Rightarrow> rw" where
  "set_chunks base cookieName i [] rw = rw"
| "set_chunks base cookieName i (chunk # chunks) rw =
     set_chunks base cookieName (Suc i) chunks
       (SetCookie (base\<lparr>Name := chunk_name cookieName i, Value := chunk\<rparr>) rw)"

definition setChunkedCookies :: "Config \<Rightarrow> rw \<Rightarrow> string \<Rightarrow> string \<Rightarrow> rw" where
  "setChunkedCookies config rw cookieName cookieValue =
     (let cookieChunks0 = (case ChunkString cookieValue ChunkSize of None \<Rightarrow> [] | Some cs \<Rightarrow> cs);
          cookieChunks = (if MaxChunks < length cookieChunks0 then take MaxChunks cookieChunks0 else cookieChunks0);
          baseCookie = (createSessionCookie config)\<lparr>Name := cookieName\<rparr>
      in if length cookieChunks = 1
         then SetCookie (baseCookie\<lparr>Value := cookieValue\<rparr>) rw
         else set_chunks baseCookie cookieName 1 cookieChunks
                (SetCookie (baseCookie\<lparr>Name := cookieName @ ''.Chunks'',
                    Value := Itoa (int (length cookieChunks))\<rparr>) rw))"

definition ErrNoCookie :: error where
  "ErrNoCookie = ''http: named cookie not present''"

definition getChunkedCookieCount :: "request \<Rightarrow> string \<Rightarrow> nat result" where
  "getChunkedCookieCount req cookieName =
     (case Cookie req (cookieName @ ''.Chunks'') of
        None \<Rightarrow> Ok 0
      | Some v \<Rightarrow>
          (case Atoi v of
             Inl err \<Rightarrow> Err (''invalid chunk count cookie '' @ cookieName @ ''.Chunks: '' @ err)
           | Inr chunkCount \<Rightarrow>
               if chunkCount < 0 \<or> int MaxChunks < chunkCount
               then Err (''chunk count cookie '' @ cookieName @ ''.Chunks out of range: '' @ Itoa chunkCount)
               else Ok (nat chunkCount)))"

fun read_chunks :: "request \<Rightarrow> string \<Rightarrow> nat list \<Rightarrow> string result" where
  "read_chunks req cookieName [] = Ok []"
| "read_chunks req cookieName (i # is) =
     (case Cookie req (chunk_name cookieName i) of
        None \<Rightarrow> Err ErrNoCookie
      | Some v \<Rightarrow> (case read_chunks req cookieName is of Inl err \<Rightarrow> Err err | Inr r \<Rightarrow> Ok (v @ r)))"

definition readChunkedCookie :: "request \<Rightarrow> string \<Rightarrow> string result" where
  "readChunkedCookie req cookieName =
     (case getChunkedCookieCount req cookieName of
        Inl err \<Rightarrow> Err err
      | Inr chunkCount \<Rightarrow>
          if chunkCount = 0
          then (case Cookie req cookieName of None \<Rightarrow> Err ErrNoCookie | Some v \<Rightarrow> Ok v)
          else read_chunks req cookieName [1..<Suc chunkCount])"

definition clearChunkedCookie :: "int \<Rightarrow> Config \<Rightarrow> rw \<Rightarrow> request \<Rightarrow> string \<Rightarrow> rw" where
  "clearChunkedCookie now config rw req cookieName =
     (let chunkCount = (case getChunkedCookieCount req cookieName of Inl _ \<Rightarrow> 0 | Inr n \<Rightarrow> n);
          baseCookie = makeCookieExpireImmediately now
            ((createSessionCookie config)\<lparr>Name := cookieName, Value := []\<rparr>)
      in if chunkCount = 0 then SetCookie baseCookie rw
         else set_chunks baseCookie cookieName 1 (replicate chunkCount [])
                (SetCookie (baseCookie\<lparr>Name := cookieName @ ''.Chunks''\<rparr>) rw))"

section \<open>Older PKCE cookies\<close>

definition maxLegacyCookiesToExpire :: nat where
  "maxLegacyCookiesToExpire = 32"

text \<open>\<open>expire\<close>: a pair of name and domain is expired once.\<close>

definition expire_legacy ::
  "int \<Rightarrow> url \<Rightarrow> string \<Rightarrow> string \<Rightarrow> rw \<times> (string \<times> string) list \<Rightarrow> rw \<times> (string \<times> string) list" where
  "expire_legacy now callbackURL name cookieDomain acc =
     (case acc of (rw, seen) \<Rightarrow>
        if (name, cookieDomain) \<in> set seen then (rw, seen)
        else (SetCookie (makeCookieExpireImmediately now \<lparr>Name = name, Value = [], CookiePath = Path callbackURL,
                 Domain = cookieDomain, Expires = None, MaxAge = 0, Secure = True, HttpOnly = True,
                 CookieSameSite = SameSiteLaxMode\<rparr>) rw,
              (name, cookieDomain) # seen))"

definition expireVariants ::
  "int \<Rightarrow> url \<Rightarrow> string \<Rightarrow> rw \<times> (string \<times> string) list \<Rightarrow> rw \<times> (string \<times> string) list" where
  "expireVariants now callbackURL name acc =
     (let acc1 = (if Hostname callbackURL \<noteq> [] then expire_legacy now callbackURL name (Hostname callbackURL) acc
                  else acc)
      in expire_legacy now callbackURL name [] acc1)"

fun legacy_loop ::
  "int \<Rightarrow> url \<Rightarrow> string \<Rightarrow> nat \<Rightarrow> string list \<Rightarrow> rw \<times> (string \<times> string) list \<Rightarrow> rw \<times> (string \<times> string) list" where
  "legacy_loop now cb pfx expired [] acc = acc"
| "legacy_loop now cb pfx expired (n # ns) acc =
     (if expired \<ge> maxLegacyCookiesToExpire then acc
      else if n = pfx \<or> HasPrefix n (pfx @ ''.'')
      then legacy_loop now cb pfx (Suc expired) ns (expireVariants now cb n acc)
      else legacy_loop now cb pfx expired ns acc)"

definition clearLegacyCodeVerifierCookies :: "int \<Rightarrow> Config \<Rightarrow> rw \<Rightarrow> request \<Rightarrow> url \<Rightarrow> rw" where
  "clearLegacyCodeVerifierCookies now config rw req callbackURL =
     (let pfx = getCodeVerifierCookieName config
      in fst (legacy_loop now callbackURL pfx 0 (map fst (Cookies req))
                (expireVariants now callbackURL pfx (rw, []))))"

section \<open>The login CSRF cookie\<close>

definition loginCsrfMaxAge :: int where
  "loginCsrfMaxAge = 600"

definition csrfCookieSecure :: "Config \<Rightarrow> bool" where
  "csrfCookieSecure config = SC_Secure (SessionCookie config)"

definition csrf_cookie :: "Config \<Rightarrow> url \<Rightarrow> string \<Rightarrow> string \<Rightarrow> int \<Rightarrow> cookie" where
  "csrf_cookie config callbackURL csrf v maxAge = \<lparr>
     Name = getLoginCsrfCookieName config csrf, Value = v, CookiePath = Path callbackURL, Domain = [],
     Expires = None, MaxAge = maxAge, Secure = csrfCookieSecure config, HttpOnly = True,
     CookieSameSite = SameSiteLaxMode\<rparr>"

definition setLoginCsrfCookie :: "Config \<Rightarrow> rw \<Rightarrow> url \<Rightarrow> string \<Rightarrow> rw" where
  "setLoginCsrfCookie config rw callbackURL csrf =
     (if csrf = [] then rw else SetCookie (csrf_cookie config callbackURL csrf csrf loginCsrfMaxAge) rw)"

definition clearLoginCsrfCookie :: "int \<Rightarrow> Config \<Rightarrow> rw \<Rightarrow> url \<Rightarrow> string \<Rightarrow> rw" where
  "clearLoginCsrfCookie now config rw callbackURL csrf =
     (if csrf = [] then rw
      else SetCookie (makeCookieExpireImmediately now (csrf_cookie config callbackURL csrf [] 0)) rw)"

definition validateLoginCsrf :: "Config \<Rightarrow> request \<Rightarrow> string \<Rightarrow> error option" where
  "validateLoginCsrf config req csrf =
     (if csrf = [] then Some ''missing CSRF in state''
      else case Cookie req (getLoginCsrfCookieName config csrf) of
             None \<Rightarrow> Some ''missing CSRF cookie''
           | Some v \<Rightarrow> if v \<noteq> csrf then Some ''CSRF cookie mismatch'' else None)"

section \<open>A browser\<close>

text \<open>
  What a browser does with the \<open>Set-Cookie\<close> headers, seen from the middleware's own
  cookies: a cookie with a negative \<open>Max-Age\<close> or an expiry time in the past removes the
  stored one, any other replaces it. The next request carries the jar.
\<close>

fun jar_step :: "(string \<rightharpoonup> string) \<Rightarrow> rw_event \<Rightarrow> (string \<rightharpoonup> string)" where
  "jar_step jar (EvSetCookie c) =
     (if MaxAge c < 0 then jar(Name c := None) else jar(Name c \<mapsto> Value c))"
| "jar_step jar _ = jar"

definition jar_after :: "(string \<rightharpoonup> string) \<Rightarrow> rw \<Rightarrow> (string \<rightharpoonup> string)" where
  "jar_after jar rw = foldl jar_step jar rw"

definition carries :: "request \<Rightarrow> (string \<rightharpoonup> string) \<Rightarrow> bool" where
  "carries req jar \<longleftrightarrow> (\<forall>name. name \<noteq> [] \<longrightarrow> Cookie req name = jar name)"

section \<open>Lemmas on names\<close>

lemma nat_digits_inj: "nat_digits m = nat_digits n \<Longrightarrow> m = n"
  by (metis digits_val_nat_digits)

lemma chunk_name_inj [simp]: "chunk_name nm i = chunk_name nm j \<longleftrightarrow> i = j"
  using nat_digits_inj by (auto simp: chunk_name_def Itoa_def)

lemma nat_digits_head: "\<exists>c r. nat_digits n = c # r \<and> is_digit c"
  using nat_digits_digits [of n] by (cases "nat_digits n") auto

lemma chunk_name_other [simp]:
  "chunk_name nm i \<noteq> nm @ ''.Chunks''" "chunk_name nm i \<noteq> nm" "nm @ ''.Chunks'' \<noteq> chunk_name nm i"
  "nm \<noteq> chunk_name nm i"
proof -
  obtain c r where "nat_digits i = c # r" "is_digit c" using nat_digits_head by blast
  then show a: "chunk_name nm i \<noteq> nm @ ''.Chunks''" by (auto simp: chunk_name_def Itoa_def is_digit_def)
  show b: "chunk_name nm i \<noteq> nm" by (simp add: chunk_name_def)
  from a b show "nm @ ''.Chunks'' \<noteq> chunk_name nm i" "nm \<noteq> chunk_name nm i" by metis+
qed

lemma token_digit: "is_digit c \<Longrightarrow> token_char c"
  by (auto simp: is_digit_def token_char_def Let_def)

lemma valid_chunk_names:
  assumes "isCookieNameValid nm"
  shows "isCookieNameValid (chunk_name nm i)" "isCookieNameValid (nm @ ''.Chunks'')"
  using assms nat_digits_digits [of i] token_digit
  by (auto simp: isCookieNameValid_def chunk_name_def Itoa_def list_all_iff token_char_def)

section \<open>Lemmas on the jar\<close>

lemma jar_after_Nil [simp]: "jar_after jar [] = jar"
  by (simp add: jar_after_def)

lemma jar_after_SetCookie [simp]:
  "jar_after jar (SetCookie c rw) =
     (if isCookieNameValid (Name c) then jar_step (jar_after jar rw) (EvSetCookie c) else jar_after jar rw)"
  by (simp add: jar_after_def SetCookie_def)

text \<open>The jar after a run of numbered cookies, live or expired.\<close>

lemma jar_set_chunks_other:
  "(\<And>j. i \<le> j \<Longrightarrow> k \<noteq> chunk_name nm j) \<Longrightarrow> jar_after jar (set_chunks base nm i cs rw) k = jar_after jar rw k"
proof (induction cs arbitrary: i rw)
  case (Cons c cs)
  then have "k \<noteq> chunk_name nm i" by blast
  with Cons show ?case by (simp add: Suc_leD)
qed simp

lemma jar_set_chunks_hit:
  assumes "isCookieNameValid nm" "j < length cs"
  shows "jar_after jar (set_chunks base nm i cs rw) (chunk_name nm (i + j)) =
    (if MaxAge base < 0 then None else Some (cs ! j))"
  using assms(2)
proof (induction cs arbitrary: i j rw)
  case (Cons c cs)
  show ?case
  proof (cases j)
    case 0
    then show ?thesis using valid_chunk_names(1) [OF assms(1)] by (simp add: jar_set_chunks_other)
  next
    case (Suc j')
    with Cons.prems Cons.IH [of j' "Suc i"] show ?thesis by simp
  qed
qed simp

lemma jar_set_chunks_fixed [simp]:
  "jar_after jar (set_chunks base nm i cs rw) nm = jar_after jar rw nm"
  "jar_after jar (set_chunks base nm i cs rw) (nm @ ''.Chunks'') = jar_after jar rw (nm @ ''.Chunks'')"
  by (simp_all add: jar_set_chunks_other)

lemma carries_Cookie: "carries req jar \<Longrightarrow> name \<noteq> [] \<Longrightarrow> Cookie req name = jar name"
  by (simp add: carries_def)

text \<open>A request whose \<open>Cookie\<close> header was built from a list of cookies carries them.\<close>

definition request_with :: "(string \<times> string) list \<Rightarrow> request \<Rightarrow> request" where
  "request_with ps req =
     req\<lparr>Header := fold AddCookie (map (\<lambda>(n, v). (n, v, False)) ps) (Header_Del ''Cookie'' (Header req))\<rparr>"

lemma request_with_carries:
  assumes "list_all (\<lambda>(n, v). isCookieNameValid n \<and> list_all validCookieValueByte v) ps"
  shows "carries (request_with ps req) (map_of ps)"
proof -
  have ok: "valid_req_cookie ck" if "ck \<in> set (map (\<lambda>(n, v). (n, v, False)) ps)" for ck
    using that assms by (auto simp: list_all_iff valid_req_cookie_def)
  have "map name_value (Cookies (request_with ps req)) = map name_value (map (\<lambda>(n, v). (n, v, False)) ps)"
    using readCookies_AddCookie [of "map (\<lambda>(n, v). (n, v, False)) ps" "Header req", OF ok] by (simp add: Cookies_def request_with_def)
  then have m: "map name_value (Cookies (request_with ps req)) = ps" by (simp add: name_value_def split_def comp_def)
  have "map_option fst (map_of xs n) = map_of (map name_value xs) n" for xs :: "req_cookie list" and n
    by (induction xs) (auto simp: name_value_def)
  then show ?thesis by (simp add: carries_def Cookie_def m)
qed

section \<open>Writing and reading a ticket\<close>

lemma setChunkedCookies_chunks:
  assumes "length v \<le> MaxTicketSize" "ChunkSize < length v"
  shows "setChunkedCookies config rw nm v =
    (let base = (createSessionCookie config)\<lparr>Name := nm\<rparr>; cs = chunk_loop ChunkSize v
     in set_chunks base nm 1 cs (SetCookie (base\<lparr>Name := nm @ ''.Chunks'', Value := Itoa (int (length cs))\<rparr>) rw))"
    and "length (chunk_loop ChunkSize v) \<le> MaxChunks" "1 < length (chunk_loop ChunkSize v)"
proof -
  have pos: "0 < ChunkSize" by (simp add: ChunkSize_def)
  show l: "length (chunk_loop ChunkSize v) \<le> MaxChunks"
    using assms(1) by (intro length_chunk_loop [OF pos]) (simp add: MaxTicketSize_def)
  have "length (chunk_loop ChunkSize v) \<noteq> 1"
    using chunk_loop_single [OF pos, of v] chunk_loop_sizes [of v ChunkSize v] assms(2) by auto
  moreover have "length (chunk_loop ChunkSize v) \<noteq> 0"
    using concat_chunk_loop [OF pos, of v] assms(2) by auto
  ultimately show n: "1 < length (chunk_loop ChunkSize v)" by linarith
  with l show "setChunkedCookies config rw nm v =
    (let base = (createSessionCookie config)\<lparr>Name := nm\<rparr>; cs = chunk_loop ChunkSize v
     in set_chunks base nm 1 cs (SetCookie (base\<lparr>Name := nm @ ''.Chunks'', Value := Itoa (int (length cs))\<rparr>) rw))"
    using pos by (simp add: setChunkedCookies_def ChunkString_def Let_def)
qed

lemma setChunkedCookies_single:
  assumes "v \<noteq> []" "length v \<le> ChunkSize"
  shows "setChunkedCookies config rw nm v = SetCookie ((createSessionCookie config)\<lparr>Name := nm, Value := v\<rparr>) rw"
proof -
  have "chunk_loop ChunkSize v = [v]"
    unfolding chunk_loop.simps [of ChunkSize v] using assms by (simp add: ChunkSize_def)
  then show ?thesis using assms by (simp add: setChunkedCookies_def ChunkString_def Let_def ChunkSize_def MaxChunks_def)
qed

lemma read_chunks_all:
  "(\<And>i. i \<in> set is \<Longrightarrow> Cookie req (chunk_name nm i) = Some (f i)) \<Longrightarrow>
     read_chunks req nm is = Ok (concat (map f is))"
  by (induction "is") auto

lemma map_nth_upt: "map (\<lambda>i. cs ! (i - 1)) [1..<Suc (length cs)] = cs"
  by (rule nth_equalityI) (auto simp del: upt_Suc)

text \<open>A jar that holds a chunk count and its chunks reads as their concatenation.\<close>

lemma readChunkedCookie_chunks:
  assumes "carries req jar" "isCookieNameValid nm" "jar (nm @ ''.Chunks'') = Some (Itoa (int (length cs)))"
    and "cs \<noteq> []" "length cs \<le> MaxChunks"
    and "\<And>j. j < length cs \<Longrightarrow> jar (chunk_name nm (Suc j)) = Some (cs ! j)"
  shows "readChunkedCookie req nm = Ok (concat cs)"
proof -
  have ne: "nm @ ''.Chunks'' \<noteq> []" "chunk_name nm i \<noteq> []" for i by (simp_all add: chunk_name_def)
  have "int64 (int (length cs))" using assms(5) by (simp add: int64_def MaxChunks_def)
  then have "Atoi (Itoa (int (length cs))) = Ok (int (length cs))" by (intro Atoi_Itoa) (simp_all add: int64_def)
  with assms(1,3,5) have count: "getChunkedCookieCount req nm = Ok (length cs)"
    by (simp add: getChunkedCookieCount_def carries_Cookie)
  have "read_chunks req nm [1..<Suc (length cs)] = Ok (concat (map (\<lambda>i. cs ! (i - 1)) [1..<Suc (length cs)]))"
  proof (rule read_chunks_all)
    fix i assume "i \<in> set [1..<Suc (length cs)]"
    then have i: "i = Suc (i - 1)" "i - 1 < length cs" by auto
    from assms(6) [OF i(2)] i(1) show "Cookie req (chunk_name nm i) = Some (cs ! (i - 1))"
      using carries_Cookie [OF assms(1) ne(2)] by simp
  qed
  with count assms(4) show ?thesis unfolding map_nth_upt by (simp add: readChunkedCookie_def)
qed

lemma jar_chunked:
  assumes "0 \<le> SC_MaxAge (SessionCookie config)" "isCookieNameValid nm"
    and "length v \<le> MaxTicketSize" "ChunkSize < length v"
  defines "cs \<equiv> chunk_loop ChunkSize v"
  shows "jar_after jar (setChunkedCookies config rw nm v) (nm @ ''.Chunks'') = Some (Itoa (int (length cs)))"
    "j < length cs \<Longrightarrow> jar_after jar (setChunkedCookies config rw nm v) (chunk_name nm (Suc j)) = Some (cs ! j)"
    "jar_after jar (setChunkedCookies config rw nm v) nm = jar_after jar rw nm"
    "cs \<noteq> []" "length cs \<le> MaxChunks" "concat cs = v"
  using setChunkedCookies_chunks [OF assms(3,4)] assms(1) valid_chunk_names(2) [OF assms(2)]
    jar_set_chunks_hit [OF assms(2), of j cs _ "(createSessionCookie config)\<lparr>Name := nm\<rparr>" 1]
    concat_chunk_loop [of ChunkSize v]
  by (auto simp: Let_def createSessionCookie_def cs_def ChunkSize_def)

lemma jar_single:
  assumes "0 \<le> SC_MaxAge (SessionCookie config)" "isCookieNameValid nm" "v \<noteq> []" "length v \<le> ChunkSize"
  shows "jar_after jar (setChunkedCookies config rw nm v) = (jar_after jar rw)(nm \<mapsto> v)"
  using assms by (simp add: setChunkedCookies_single createSessionCookie_def)

section \<open>Properties of the session cookies\<close>

lemma chunked_read:
  assumes "0 \<le> SC_MaxAge (SessionCookie config)" "isCookieNameValid nm"
    and "v \<noteq> []" "length v \<le> MaxTicketSize"
    and "ChunkSize < length v \<or> jar (nm @ ''.Chunks'') = None"
    and "carries req (jar_after jar (setChunkedCookies config [] nm v))"
  shows "readChunkedCookie req nm = Ok v"
proof (cases "ChunkSize < length v")
  case True
  note j = jar_chunked(1,2) [OF assms(1,2,4) True, where jar = jar and rw = "[]"] and c = jar_chunked(4-6) [OF assms(1,2,4) True]
  show ?thesis using readChunkedCookie_chunks [OF assms(6,2) j(1) c(1,2) j(2)] c(3) by simp
next
  case False
  with assms have "carries req (jar(nm \<mapsto> v))" "jar (nm @ ''.Chunks'') = None" by (simp_all add: jar_single)
  moreover from assms(2) have "nm \<noteq> []" by (simp add: isCookieNameValid_def)
  ultimately show ?thesis
    by (simp add: readChunkedCookie_def getChunkedCookieCount_def carries_Cookie)
qed

lemma b64_digit_cookie_byte: "n < 64 \<Longrightarrow> validCookieValueByte (b64_char u n)"
proof -
  assume n: "n < 64"
  show ?thesis
    unfolding validCookieValueByte_def Let_def of_char_b64_char [OF n] using n by auto
qed

text \<open>What the encryption produces passes through a cookie unchanged.\<close>

lemma sealed_cookie_value: "EncryptWithPurpose A n p k purpose = Ok c \<Longrightarrow> list_all validCookieValueByte c"
proof -
  have "list_all validCookieValueByte (b64_encode u pad s)" for u pad s
    by (induction u pad s rule: b64_encode.induct)
      (simp_all add: Let_def b64_digits [THEN b64_digit_cookie_byte], simp_all add: validCookieValueByte_def)
  then show "EncryptWithPurpose A n p k purpose = Ok c \<Longrightarrow> list_all validCookieValueByte c"
    by (auto simp: EncryptWithPurpose_def StdEncoding_Encode_def split: if_splits option.splits)
qed

text \<open>
  The ticket that was set is the ticket that the next request reads, in one cookie or
  in chunks, provided the jar holds no chunk count from before when the ticket fits in one
  cookie.
\<close>

theorem setChunkedCookies_read:
  assumes "0 \<le> SC_MaxAge (SessionCookie config)" "isCookieNameValid nm"
    and "v \<noteq> []" "length v \<le> MaxTicketSize"
    and "ChunkSize < length v \<or> jar (nm @ ''.Chunks'') = None"
    and "carries req (jar_after jar (setChunkedCookies config [] nm v))"
  shows "readChunkedCookie req nm = Ok v"
  using assms by (rule chunked_read)

theorem setChunkedCookies_read_witness:
  "readChunkedCookie (request_with [(''S'', ''abc'')] html_request) ''S'' = Ok ''abc''"
proof -
  have "jar_after Map.empty (setChunkedCookies CreateConfig [] ''S'' ''abc'') = map_of [(''S'', ''abc'')]"
    by (simp add: jar_single CreateConfig_def isCookieNameValid_def token_char_def ChunkSize_def)
  moreover have "carries (request_with [(''S'', ''abc'')] html_request) (map_of [(''S'', ''abc'')])"
    by (rule request_with_carries) (simp add: isCookieNameValid_def token_char_def validCookieValueByte_def)
  ultimately show ?thesis
    by (intro setChunkedCookies_read [of CreateConfig "''S''" "''abc''" Map.empty])
      (simp_all add: CreateConfig_def isCookieNameValid_def token_char_def MaxTicketSize_def ChunkSize_def MaxChunks_def)
qed

text \<open>
  C36. When a ticket shrinks from several chunks to one cookie, the browser still sends the
  old chunk count and the old chunks, and the middleware reads the old ticket: the write is
  lost.
\<close>

theorem setChunkedCookies_shrink_stale:
  assumes "0 \<le> SC_MaxAge (SessionCookie config)" "isCookieNameValid nm"
    and "ChunkSize < length old" "length old \<le> MaxTicketSize" "new \<noteq> []" "length new \<le> ChunkSize"
    and "carries req (jar_after (jar_after jar (setChunkedCookies config [] nm old)) (setChunkedCookies config [] nm new))"
  shows "readChunkedCookie req nm = Ok old"
proof -
  note j = jar_chunked(1,2) [OF assms(1,2,4,3), where jar = jar and rw = "[]"] and c' = jar_chunked(4-6) [OF assms(1,2,4,3)]
  let ?jar = "(jar_after jar (setChunkedCookies config [] nm old))(nm \<mapsto> new)"
  have c: "carries req ?jar" using assms(7) by (simp add: jar_single [OF assms(1,2,5,6)])
  have "?jar (nm @ ''.Chunks'') = Some (Itoa (int (length (chunk_loop ChunkSize old))))"
    "\<And>j. j < length (chunk_loop ChunkSize old) \<Longrightarrow> ?jar (chunk_name nm (Suc j)) = Some (chunk_loop ChunkSize old ! j)"
    using j(1,2) by simp_all
  from readChunkedCookie_chunks [OF c assms(2) this(1) c'(1,2) this(2)] c'(3) show ?thesis by simp
qed

definition sample_chunks :: "(string \<times> string) list" where
  "sample_chunks = [(''S'', ''b''), (''S.2'', ''a''), (''S.1'', replicate 3072 CHR ''a''),
     (''S.Chunks'', ''2'')]"

lemma sample_name: "isCookieNameValid ''S''"
  by (simp add: isCookieNameValid_def token_char_def)

lemma sample_chunk_valid: "isCookieNameValid ''S.1''" "isCookieNameValid ''S.2''" "isCookieNameValid ''S.Chunks''"
  by (simp_all add: isCookieNameValid_def token_char_def)

lemma sample_digits: "Itoa 1 = ''1''" "Itoa 2 = ''2''"
  by code_simp+

lemma sample_chunk_names: "chunk_name ''S'' (Suc 0) = ''S.1''" "chunk_name ''S'' (Suc (Suc 0)) = ''S.2''"
  using sample_digits by (simp_all add: chunk_name_def)

lemma sample_chunks_carried: "carries (request_with sample_chunks html_request) (map_of sample_chunks)"
  using valid_chunk_names(1) [OF sample_name]
  by (intro request_with_carries)
    (simp add: sample_chunks_def isCookieNameValid_def token_char_def validCookieValueByte_def list_all_iff)

lemma sample_jar_old:
  "jar_after Map.empty (setChunkedCookies CreateConfig [] ''S'' (replicate 3073 CHR ''a'')) = map_of (tl sample_chunks)"
proof -
  have r: "replicate 3073 CHR ''a'' = replicate 3072 CHR ''a'' @ ''a''"
    using replicate_add [of 3072 1 "CHR ''a''"] by simp
  have "chunk_loop ChunkSize (replicate 3073 CHR ''a'') = [replicate 3072 CHR ''a'', ''a'']"
    unfolding r ChunkSize_def
    by (subst chunk_loop.simps, subst chunk_loop.simps) simp
  then show ?thesis
    using setChunkedCookies_chunks(1) [of "replicate 3073 CHR ''a''" CreateConfig "[]" "''S''"]
      valid_chunk_names [OF sample_name]
    by (simp add: Let_def MaxTicketSize_def ChunkSize_def MaxChunks_def createSessionCookie_def CreateConfig_def
        sample_chunks_def sample_digits sample_chunk_names sample_chunk_valid)
qed

theorem setChunkedCookies_shrink_stale_witness:
  "carries (request_with sample_chunks html_request)
     (jar_after (jar_after Map.empty (setChunkedCookies CreateConfig [] ''S'' (replicate 3073 CHR ''a'')))
        (setChunkedCookies CreateConfig [] ''S'' ''b''))
   \<and> readChunkedCookie (request_with sample_chunks html_request) ''S'' = Ok (replicate 3073 CHR ''a'')"
proof -
  have "jar_after (jar_after Map.empty (setChunkedCookies CreateConfig [] ''S'' (replicate 3073 CHR ''a'')))
      (setChunkedCookies CreateConfig [] ''S'' ''b'') = map_of sample_chunks"
    unfolding sample_jar_old
    by (subst jar_single) (simp_all add: sample_name CreateConfig_def ChunkSize_def sample_chunks_def)
  with sample_chunks_carried have c: "carries (request_with sample_chunks html_request)
     (jar_after (jar_after Map.empty (setChunkedCookies CreateConfig [] ''S'' (replicate 3073 CHR ''a'')))
        (setChunkedCookies CreateConfig [] ''S'' ''b''))" by simp
  show ?thesis
    using c setChunkedCookies_shrink_stale [OF _ sample_name _ _ _ _ c]
    by (simp add: CreateConfig_def ChunkSize_def MaxTicketSize_def MaxChunks_def)
qed

text \<open>
  C37. What a request reads after the session cookies were cleared. With a usable chunk count
  the count and the chunks are gone, but a base cookie that the jar held beside them
  survives and is read as the session again; without chunks nothing is left; a count that
  is refused stays refused.
\<close>

theorem clearChunkedCookie_read:
  assumes "isCookieNameValid nm" "carries req jar"
    and "carries req' (jar_after jar (clearChunkedCookie now config [] req nm))"
  shows "readChunkedCookie req' nm =
    (case getChunkedCookieCount req nm of
       Inl e \<Rightarrow> Err e
     | Inr n \<Rightarrow> if n = 0 then Err ErrNoCookie
              else (case jar nm of None \<Rightarrow> Err ErrNoCookie | Some v \<Rightarrow> Ok v))"
proof -
  let ?base = "makeCookieExpireImmediately now ((createSessionCookie config)\<lparr>Name := nm, Value := []\<rparr>)"
  have ne: "nm \<noteq> []" using assms(1) by (simp add: isCookieNameValid_def)
  have exp: "MaxAge ?base = - 1" by (simp add: makeCookieExpireImmediately_def)
  have keep: "jar_after jar (clearChunkedCookie now config [] req nm) = jar(nm := None)"
    if "\<And>n. getChunkedCookieCount req nm = Ok n \<Longrightarrow> n = 0"
    using that assms(1) by (auto simp: clearChunkedCookie_def makeCookieExpireImmediately_def split: sum.splits)
  have "Cookie req' (nm @ ''.Chunks'') = Cookie req (nm @ ''.Chunks'')" "Cookie req' nm = None"
    if "\<And>n. getChunkedCookieCount req nm = Ok n \<Longrightarrow> n = 0"
    using keep [OF that] assms(2,3) ne by (simp_all add: carries_Cookie)
  then have unchunked: "readChunkedCookie req' nm = (case getChunkedCookieCount req nm of Inl e \<Rightarrow> Err e | Inr n \<Rightarrow> Err ErrNoCookie)"
    if "\<And>n. getChunkedCookieCount req nm = Ok n \<Longrightarrow> n = 0"
    using that by (simp add: readChunkedCookie_def getChunkedCookieCount_def split: option.splits sum.splits if_splits)
  show ?thesis
  proof (cases "\<exists>n. getChunkedCookieCount req nm = Ok n \<and> n \<noteq> 0")
    case True
    then obtain n where n: "getChunkedCookieCount req nm = Ok n" "n \<noteq> 0" by blast
    have "jar_after jar (clearChunkedCookie now config [] req nm) (nm @ ''.Chunks'') = None"
      "jar_after jar (clearChunkedCookie now config [] req nm) nm = jar nm"
      using n exp valid_chunk_names(2) [OF assms(1)]
      by (simp_all add: clearChunkedCookie_def Let_def makeCookieExpireImmediately_def)
    with n assms(3) ne show ?thesis
      by (simp add: readChunkedCookie_def getChunkedCookieCount_def carries_Cookie)
  next
    case False
    then show ?thesis using unchunked by (auto split: sum.splits)
  qed
qed

theorem clearChunkedCookie_read_witness:
  "readChunkedCookie (request_with [(''S'', ''b'')] html_request) ''S'' = Ok ''b''
   \<and> carries (request_with [(''S'', ''b'')] html_request) (jar_after (map_of sample_chunks)
       (clearChunkedCookie 0 CreateConfig [] (request_with sample_chunks html_request) ''S''))"
proof -
  have n: "getChunkedCookieCount (request_with sample_chunks html_request) ''S'' = Ok 2"
    using carries_Cookie [OF sample_chunks_carried, of "''S.Chunks''"] Atoi_Itoa [of 2]
    by (simp add: getChunkedCookieCount_def sample_chunks_def sample_digits MaxChunks_def)
  have "jar_after (map_of sample_chunks)
      (clearChunkedCookie 0 CreateConfig [] (request_with sample_chunks html_request) ''S'') = map_of [(''S'', ''b'')]"
    using valid_chunk_names [OF sample_name]
    unfolding clearChunkedCookie_def n
    by (simp add: Let_def makeCookieExpireImmediately_def numeral_2_eq_2 sample_chunks_def
        sample_chunk_names sample_chunk_valid fun_eq_iff)
  moreover have "carries (request_with [(''S'', ''b'')] html_request) (map_of [(''S'', ''b'')])"
    by (rule request_with_carries) (simp add: isCookieNameValid_def token_char_def validCookieValueByte_def)
  ultimately have c: "carries (request_with [(''S'', ''b'')] html_request) (jar_after (map_of sample_chunks)
      (clearChunkedCookie 0 CreateConfig [] (request_with sample_chunks html_request) ''S''))" by simp
  show ?thesis
    using c clearChunkedCookie_read [OF sample_name sample_chunks_carried c] n by (simp add: sample_chunks_def)
qed

lemma length_SetCookie: "length (SetCookie c rw) \<le> Suc (length rw)"
  by (simp add: SetCookie_def)

lemma length_set_chunks: "length (set_chunks base nm i cs rw) \<le> length rw + length cs"
proof (induction cs arbitrary: i rw)
  case (Cons c cs)
  show ?case
    using Cons [of "Suc i" "SetCookie (base\<lparr>Name := chunk_name nm i, Value := c\<rparr>) rw"]
      length_SetCookie [of "base\<lparr>Name := chunk_name nm i, Value := c\<rparr>" rw] by simp
qed simp

lemma length_expire_legacy: "length (fst (expire_legacy now cb n d acc)) \<le> Suc (length (fst acc))"
  by (auto simp: expire_legacy_def length_SetCookie split: prod.splits)

lemma length_expireVariants: "length (fst (expireVariants now cb n acc)) \<le> length (fst acc) + 2"
  using length_expire_legacy [of now cb n "[]" acc]
    length_expire_legacy [of now cb n "[]" "expire_legacy now cb n (Hostname cb) acc"]
    length_expire_legacy [of now cb n "Hostname cb" acc]
  by (simp add: expireVariants_def)

lemma length_legacy_loop:
  "k \<le> maxLegacyCookiesToExpire \<Longrightarrow>
     length (fst (legacy_loop now cb pfx k ns acc)) \<le> length (fst acc) + 2 * (maxLegacyCookiesToExpire - k)"
proof (induction now cb pfx k ns acc rule: legacy_loop.induct)
  case (2 now cb pfx k n ns acc)
  show ?case
  proof (cases "k < maxLegacyCookiesToExpire \<and> (n = pfx \<or> HasPrefix n (pfx @ ''.''))")
    case True
    with 2 have "length (fst (legacy_loop now cb pfx (Suc k) ns (expireVariants now cb n acc)))
      \<le> length (fst (expireVariants now cb n acc)) + 2 * (maxLegacyCookiesToExpire - Suc k)" by simp
    moreover have "maxLegacyCookiesToExpire - k = Suc (maxLegacyCookiesToExpire - Suc k)" using True by arith
    ultimately show ?thesis using True length_expireVariants [of now cb n acc] by simp
  next
    case False
    with 2 show ?thesis by auto
  qed
qed simp

text \<open>
  The number of \<open>Set-Cookie\<close> headers is bounded whatever the request claims: at most
  33 for writing or clearing a session, at most 66 for the older PKCE cookies.
\<close>

theorem cookie_headers_bounded:
  "length (setChunkedCookies config rw nm v) \<le> length rw + 33
   \<and> length (clearChunkedCookie now config rw req nm) \<le> length rw + 33
   \<and> length (clearLegacyCodeVerifierCookies now config rw req cb) \<le> length rw + 66"
proof (intro conjI)
  let ?cs = "chunk_loop ChunkSize v"
  have "length (set_chunks b nm 1 cs (SetCookie c rw)) \<le> length rw + 33" if "length cs \<le> 32" for b cs c
    using length_set_chunks [of b nm 1 cs "SetCookie c rw"] length_SetCookie [of c rw] that by linarith
  moreover have "length (SetCookie c rw) \<le> length rw + 33" for c using length_SetCookie [of c rw] by linarith
  ultimately show "length (setChunkedCookies config rw nm v) \<le> length rw + 33"
    by (auto simp: setChunkedCookies_def Let_def MaxChunks_def)
  have count: "n \<le> 32" if "getChunkedCookieCount req nm = Ok n" for n
    using that by (auto simp: getChunkedCookieCount_def MaxChunks_def split: option.splits sum.splits if_splits)
  have "length (set_chunks b nm 1 cs (SetCookie c rw)) \<le> length rw + 33" if "length cs \<le> 32" for b cs c
    using length_set_chunks [of b nm 1 cs "SetCookie c rw"] length_SetCookie [of c rw] that by linarith
  then show "length (clearChunkedCookie now config rw req nm) \<le> length rw + 33"
    using count length_SetCookie [of _ rw]
    by (auto simp: clearChunkedCookie_def Let_def intro: le_trans [OF length_SetCookie] split: sum.splits)
  show "length (clearLegacyCodeVerifierCookies now config rw req cb) \<le> length rw + 66"
    using length_legacy_loop [of 0 now cb "getCodeVerifierCookieName config" "map fst (Cookies req)"
        "expireVariants now cb (getCodeVerifierCookieName config) (rw, [])"]
      length_expireVariants [of now cb "getCodeVerifierCookieName config" "(rw, [])"]
    by (simp add: clearLegacyCodeVerifierCookies_def Let_def maxLegacyCookiesToExpire_def)
qed

text \<open>
  C30. The login CSRF token is a double submit, used once: the request that follows
  \<open>setLoginCsrfCookie\<close> passes for the sealed token and for no other that the jar did not
  hold; after \<open>clearLoginCsrfCookie\<close> it passes no more.
\<close>

theorem login_csrf_double_submit:
  assumes "isCookieNameValid (getLoginCsrfCookieName config csrf)" "csrf \<noteq> []"
    and "carries req (jar_after jar (setLoginCsrfCookie config [] cb csrf))"
    and "carries req' (jar_after (jar_after jar (setLoginCsrfCookie config [] cb csrf))
           (clearLoginCsrfCookie now config [] cb csrf))"
  shows "validateLoginCsrf config req csrf = None
    \<and> (\<forall>other. other \<noteq> csrf \<longrightarrow> jar (getLoginCsrfCookieName config other) = None
         \<longrightarrow> validateLoginCsrf config req other \<noteq> None)
    \<and> validateLoginCsrf config req' csrf = Some ''missing CSRF cookie''"
proof -
  have ne: "getLoginCsrfCookieName config x \<noteq> []" for x
    by (simp add: getLoginCsrfCookieName_def makeCookieName_def)
  have inj: "getLoginCsrfCookieName config x = getLoginCsrfCookieName config y \<Longrightarrow> x = y" for x y
    by (simp add: getLoginCsrfCookieName_def makeCookieName_def)
  have set: "jar_after jar (setLoginCsrfCookie config [] cb csrf) = jar(getLoginCsrfCookieName config csrf \<mapsto> csrf)"
    using assms(1,2) by (simp add: setLoginCsrfCookie_def csrf_cookie_def loginCsrfMaxAge_def)
  have clear: "jar_after j (clearLoginCsrfCookie now config [] cb csrf) = j(getLoginCsrfCookieName config csrf := None)" for j
    using assms(1,2) by (simp add: clearLoginCsrfCookie_def csrf_cookie_def makeCookieExpireImmediately_def)
  show ?thesis
    using assms(2-4) inj
    by (auto simp: validateLoginCsrf_def set clear carries_Cookie ne)
qed

theorem login_csrf_double_submit_witness:
  "validateLoginCsrf CreateConfig (request_with [(getLoginCsrfCookieName CreateConfig ''c0'', ''c0'')] html_request) ''c0'' = None
   \<and> validateLoginCsrf CreateConfig (request_with [] html_request) ''c0'' = Some ''missing CSRF cookie''"
proof -
  let ?n = "getLoginCsrfCookieName CreateConfig ''c0''"
  have n: "isCookieNameValid ?n"
    by (simp add: getLoginCsrfCookieName_def makeCookieName_def CreateConfig_def isCookieNameValid_def token_char_def)
  have j: "jar_after Map.empty (setLoginCsrfCookie CreateConfig [] (URL html_request) ''c0'') = map_of [(?n, ''c0'')]"
    using n by (simp add: setLoginCsrfCookie_def csrf_cookie_def loginCsrfMaxAge_def)
  have "carries (request_with [(?n, ''c0'')] html_request) (map_of [(?n, ''c0'')])"
    by (rule request_with_carries) (simp add: n validCookieValueByte_def)
  moreover have "carries (request_with [] html_request) (jar_after (map_of [(?n, ''c0'')])
      (clearLoginCsrfCookie 0 CreateConfig [] (URL html_request) ''c0''))"
    using n request_with_carries [of "[]" html_request]
    by (simp add: clearLoginCsrfCookie_def csrf_cookie_def makeCookieExpireImmediately_def)
  ultimately show ?thesis
    using login_csrf_double_submit [OF n, of "request_with [(?n, ''c0'')] html_request" Map.empty
        "URL html_request" "request_with [] html_request" 0] unfolding j by simp
qed

end
