(* ===== verification/Effects.thy ===== *)
theory Effects
  imports Jwt CookieJar "HOL-Library.State_Monad"
begin

text \<open>
  The state of a middleware instance (\<open>TraefikOidcAuth\<close> in \<open>src/main.go\<close>) while it serves
  one request, and the effects its code has, as a state monad.

  The state holds the fields of the struct that change, the request (whose headers the
  code rewrites), the calls made on the response writer, and a value \<open>World\<close> of any
  type that stands for everything outside: clock, random source and identity provider.
  How the outside answers is the parameter \<open>'w env\<close>; a theorem holds for every
  environment unless it names a hypothesis on it. Locks are not modelled: a request runs
  alone, as the locks make each critical section do.
\<close>

section \<open>The environment\<close>

record http_resp =
  StatusCode :: int
  RespHeader :: header
  Body :: string
  BodyErr :: "error option"

text \<open>An outgoing request; \<open>BasicAuth\<close> is the pair given to \<open>SetBasicAuth\<close>.\<close>

record out_req =
  OutMethod :: string
  OutUrl :: string
  OutBody :: string
  OutHeader :: "(string \<times> string) list"
  BasicAuth :: "(string \<times> string) option"

text \<open>
  \<open>FloatSeconds\<close> is \<open>int64(float64)\<close> of a JSON number, \<open>ParseRFC3339\<close> is \<open>time.Parse\<close>,
  \<open>Redact\<close> the regular expression that blanks secrets by key. \<open>Sha256\<close> and the
  template engine are library functions of Go. \<open>TplParse\<close> is the
  verdict of \<open>template.Parse\<close>; \<open>TplExecute\<close> gives the text written so far and the
  error, if any. \<open>Files\<close> is \<open>os.ReadFile\<close>, \<open>DefaultTemplate\<close> the page literal in
  \<open>errorPage.go\<close> and \<open>HtmlPage\<close> parses and executes a page template.
  \<open>BypassRule\<close> is the compiled bypass rule, if one is configured (\<open>Rules\<close>).
\<close>

record tpl_context =
  ctx_claims :: claims
  ctx_accessToken :: string
  ctx_idToken :: string
  ctx_refreshToken :: string

record 'w env =
  Now :: "'w \<Rightarrow> int \<times> 'w"
  RandRead :: "nat \<Rightarrow> 'w \<Rightarrow> string option \<times> 'w"
  NewUUID :: "'w \<Rightarrow> string \<times> 'w"
  Do :: "out_req \<Rightarrow> 'w \<Rightarrow> http_resp result \<times> 'w"
  Aead :: aead
  JsonText :: json_text
  TimeText :: time_text
  UrlOps :: url_ops
  MimeOps :: mime_ops
  ClaimOps :: claim_ops
  JwtOps :: jwt_ops
  FloatSeconds :: "json \<Rightarrow> int"
  ParseRFC3339 :: "string \<Rightarrow> int option"
  Redact :: "string \<Rightarrow> string"
  Sha256 :: "string \<Rightarrow> string"
  ParseIP :: "string \<Rightarrow> ip option"
  TplParse :: "string \<Rightarrow> error option"
  TplExecute :: "string \<Rightarrow> tpl_context \<Rightarrow> string \<times> error option"
  Files :: "string \<Rightarrow> string option"
  DefaultTemplate :: string
  HtmlPage :: "string \<Rightarrow> (string \<times> string) list \<Rightarrow> string result"
  BypassRule :: "(request \<Rightarrow> bool) option"

section \<open>The state\<close>

record JwksHandler =
  JwksUrl :: string
  RsaKeys :: "(string \<times> jwk) list"
  EcdsaKeys :: "(string \<times> jwk) list"
  CacheDate :: int
  lastReloadError :: int

definition new_jwks :: JwksHandler where
  "new_jwks = \<lparr>JwksUrl = [], RsaKeys = [], EcdsaKeys = [], CacheDate = 0, lastReloadError = 0\<rparr>"

text \<open>The fields of the discovery document that the middleware reads.\<close>

record OidcDiscovery =
  AuthorizationEndpoint :: string
  EndSessionEndpoint :: string
  IntrospectionEndpoint :: string
  Issuer :: string
  JWKSURI :: string
  RevocationEndpoint :: string
  TokenEndpoint :: string
  UserinfoEndpoint :: string

record sessionWriteTracker =
  last_write :: "string \<rightharpoonup> int"
  write_count :: nat

record 'w toa =
  World :: 'w
  ProviderURL :: url
  ClientJwtPrivateKey :: "string option"
  CallbackURL :: url
  Config :: Config
  DiscoveryDocument :: "OidcDiscovery option"
  Jwks :: JwksHandler
  RedirectUriWildcardsEnabled :: bool
  validIssuer :: string
  validAudience :: string
  sessionWrites :: sessionWriteTracker
  Req :: request
  Rw :: rw

type_synonym ('w, 'a) m = "('w toa, 'a) state"

section \<open>Effects\<close>

abbreviation return :: "'a \<Rightarrow> ('s, 'a) state" where
  "return \<equiv> State_Monad.return"

definition ask :: "('s \<Rightarrow> 'a) \<Rightarrow> ('s, 'a) state" where
  "ask f = State (\<lambda>s. (f s, s))"

definition change :: "('s \<Rightarrow> 's) \<Rightarrow> ('s, unit) state" where
  "change f = State (\<lambda>s. ((), f s))"

definition outside :: "('w \<Rightarrow> 'a \<times> 'w) \<Rightarrow> ('w, 'a) m" where
  "outside f = State (\<lambda>s. case f (World s) of (x, w) \<Rightarrow> (x, s\<lparr>World := w\<rparr>))"

definition emit :: "(rw \<Rightarrow> rw) \<Rightarrow> ('w, unit) m" where
  "emit f = change (\<lambda>s. s\<lparr>Rw := f (Rw s)\<rparr>)"

definition http_Error :: "string \<Rightarrow> nat \<Rightarrow> ('w, unit) m" where
  "http_Error msg code = emit (\<lambda>rw. rw @ [EvError msg code])"

definition http_Redirect :: "string \<Rightarrow> nat \<Rightarrow> ('w, unit) m" where
  "http_Redirect u code = emit (\<lambda>rw. rw @ [EvRedirect u code])"

definition conf :: "(Config \<Rightarrow> 'a) \<Rightarrow> ('w, 'a) m" where
  "conf f = ask (\<lambda>s. f (Config s))"

definition prov :: "(ProviderConfig \<Rightarrow> 'a) \<Rightarrow> ('w, 'a) m" where
  "prov f = ask (\<lambda>s. f (Provider (Config s)))"

lemma run_ask [simp]: "run_state (ask f) s = (f s, s)"
  by (simp add: ask_def)

lemma run_change [simp]: "run_state (change f) s = ((), f s)"
  by (simp add: change_def)

lemma run_outside [simp]:
  "run_state (outside f) s = (case f (World s) of (x, w) \<Rightarrow> (x, s\<lparr>World := w\<rparr>))"
  by (simp add: outside_def)

lemma run_emit [simp]: "run_state (emit f) s = ((), s\<lparr>Rw := f (Rw s)\<rparr>)"
  by (simp add: emit_def)

lemma run_http_Error [simp]: "run_state (http_Error msg code) s = ((), s\<lparr>Rw := Rw s @ [EvError msg code]\<rparr>)"
  by (simp add: http_Error_def)

lemma run_http_Redirect [simp]: "run_state (http_Redirect u code) s = ((), s\<lparr>Rw := Rw s @ [EvRedirect u code]\<rparr>)"
  by (simp add: http_Redirect_def)

lemma run_conf [simp]: "run_state (conf f) s = (f (Config s), s)"
  by (simp add: conf_def)

lemma run_prov [simp]: "run_state (prov f) s = (f (Provider (Config s)), s)"
  by (simp add: prov_def)

section \<open>A logic of what a computation keeps\<close>

text \<open>
  \<open>triple P m Q\<close>: started in a state with \<open>P\<close>, \<open>m\<close> ends with \<open>Q\<close> of its
  result and state. \<open>keeps f m\<close>: the part \<open>f\<close> of the state is unchanged.
\<close>

definition triple :: "('s \<Rightarrow> bool) \<Rightarrow> ('s, 'a) state \<Rightarrow> ('a \<Rightarrow> 's \<Rightarrow> bool) \<Rightarrow> bool" where
  "triple P m Q \<longleftrightarrow> (\<forall>s. P s \<longrightarrow> (case run_state m s of (x, s') \<Rightarrow> Q x s'))"

definition keeps :: "('s \<Rightarrow> 'b) \<Rightarrow> ('s, 'a) state \<Rightarrow> bool" where
  "keeps f m \<longleftrightarrow> (\<forall>s. f (snd (run_state m s)) = f s)"

named_theorems frame \<open>introduction rules for keeps\<close>
named_theorems hoare \<open>introduction rules for triple\<close>

lemma keeps_return [frame]: "keeps f (return x)"
  by (simp add: keeps_def)

lemma keeps_bind [frame]: "keeps f m \<Longrightarrow> (\<And>x. keeps f (k x)) \<Longrightarrow> keeps f (m \<bind> k)"
  by (simp add: keeps_def split: prod.split) (metis snd_conv)

lemma keeps_ask [frame]: "keeps f (ask g)"
  by (simp add: keeps_def)

lemma keeps_conf [frame]: "keeps f (conf g)"
  by (simp add: keeps_def)

lemma keeps_prov [frame]: "keeps f (prov g)"
  by (simp add: keeps_def)

lemma keeps_if [frame]: "(b \<Longrightarrow> keeps f m) \<Longrightarrow> (\<not> b \<Longrightarrow> keeps f m') \<Longrightarrow> keeps f (if b then m else m')"
  by simp

lemma keeps_case_sum [frame]:
  "(\<And>e. x = Inl e \<Longrightarrow> keeps f (g e)) \<Longrightarrow> (\<And>y. x = Inr y \<Longrightarrow> keeps f (h y)) \<Longrightarrow>
     keeps f (case x of Inl e \<Rightarrow> g e | Inr y \<Rightarrow> h y)"
  by (cases x) simp_all

lemma keeps_case_option [frame]:
  "(x = None \<Longrightarrow> keeps f g) \<Longrightarrow> (\<And>y. x = Some y \<Longrightarrow> keeps f (h y)) \<Longrightarrow>
     keeps f (case x of None \<Rightarrow> g | Some y \<Rightarrow> h y)"
  by (cases x) simp_all

lemma keeps_case_prod [frame]: "(\<And>a b. x = (a, b) \<Longrightarrow> keeps f (g a b)) \<Longrightarrow> keeps f (case x of (a, b) \<Rightarrow> g a b)"
  by (cases x) simp

lemma keeps_case_list [frame]:
  "(x = [] \<Longrightarrow> keeps f g) \<Longrightarrow> (\<And>y ys. x = y # ys \<Longrightarrow> keeps f (h y ys)) \<Longrightarrow>
     keeps f (case x of [] \<Rightarrow> g | y # ys \<Rightarrow> h y ys)"
  by (cases x) simp_all

lemma keeps_let [frame]: "(\<And>y. y = x \<Longrightarrow> keeps f (g y)) \<Longrightarrow> keeps f (let y = x in g y)"
  by simp

lemma keeps_outside [frame]: "(\<And>s w. f (s\<lparr>World := w\<rparr>) = f s) \<Longrightarrow> keeps f (outside g)"
  by (simp add: keeps_def split: prod.split)

lemma keeps_change [frame]: "(\<And>s. f (g s) = f s) \<Longrightarrow> keeps f (change g)"
  by (simp add: keeps_def)

lemma keeps_emit [frame]: "(\<And>s r. f (s\<lparr>Rw := r\<rparr>) = f s) \<Longrightarrow> keeps f (emit g)"
  by (simp add: keeps_def)

lemma keeps_run: "keeps f m \<Longrightarrow> run_state m s = (x, s') \<Longrightarrow> f s' = f s"
  unfolding keeps_def by (metis snd_conv)

text \<open>
  What a computation adds to the response: \<open>appends A m\<close> says that it only appends
  events, and each of them satisfies \<open>A\<close>.
\<close>

definition appends :: "(rw_event \<Rightarrow> bool) \<Rightarrow> ('w, 'a) m \<Rightarrow> bool" where
  "appends A m \<longleftrightarrow> (\<forall>s. \<exists>evs. Rw (snd (run_state m s)) = Rw s @ evs \<and> list_all A evs)"

lemma appends_keeps: "keeps Rw m \<Longrightarrow> appends A m"
  unfolding keeps_def appends_def by (metis append_Nil2 list.pred_inject(1))

lemma appends_bind [hoare]: "appends A m \<Longrightarrow> (\<And>x. appends A (k x)) \<Longrightarrow> appends A (m \<bind> k)"
  unfolding appends_def
proof (intro allI)
  fix s
  assume m: "\<forall>s. \<exists>evs. Rw (snd (run_state m s)) = Rw s @ evs \<and> list_all A evs"
    and k: "\<And>x. \<forall>s. \<exists>evs. Rw (snd (run_state (k x) s)) = Rw s @ evs \<and> list_all A evs"
  obtain x s' where r: "run_state m s = (x, s')" by (cases "run_state m s")
  from m r obtain e1 where "Rw s' = Rw s @ e1" "list_all A e1" by (metis snd_conv)
  moreover from k obtain e2 where "Rw (snd (run_state (k x) s')) = Rw s' @ e2" "list_all A e2" by blast
  ultimately show "\<exists>evs. Rw (snd (run_state (m \<bind> k) s)) = Rw s @ evs \<and> list_all A evs"
    using r by (intro exI [of _ "e1 @ e2"]) simp
qed

lemma appends_if [hoare]: "(b \<Longrightarrow> appends A m) \<Longrightarrow> (\<not> b \<Longrightarrow> appends A m') \<Longrightarrow> appends A (if b then m else m')"
  by simp

lemma appends_case_sum [hoare]:
  "(\<And>e. x = Inl e \<Longrightarrow> appends A (g e)) \<Longrightarrow> (\<And>y. x = Inr y \<Longrightarrow> appends A (h y)) \<Longrightarrow>
     appends A (case x of Inl e \<Rightarrow> g e | Inr y \<Rightarrow> h y)"
  by (cases x) simp_all

lemma appends_case_option [hoare]:
  "(x = None \<Longrightarrow> appends A g) \<Longrightarrow> (\<And>y. x = Some y \<Longrightarrow> appends A (h y)) \<Longrightarrow>
     appends A (case x of None \<Rightarrow> g | Some y \<Rightarrow> h y)"
  by (cases x) simp_all

lemma appends_case_prod [hoare]:
  "(\<And>a b. x = (a, b) \<Longrightarrow> appends A (g a b)) \<Longrightarrow> appends A (case x of (a, b) \<Rightarrow> g a b)"
  by (cases x) simp

lemma appends_let [hoare]: "(\<And>y. y = x \<Longrightarrow> appends A (g y)) \<Longrightarrow> appends A (let y = x in g y)"
  by simp

lemma appends_return [hoare]: "appends A (return x)"
  by (simp add: appends_def)

lemma appends_ask [hoare]: "appends A (ask f)" "appends A (conf g)" "appends A (prov h)"
  by (simp_all add: appends_def)

lemma appends_outside [hoare]: "appends A (outside f)"
  by (simp add: appends_def split: prod.split)

lemma appends_change [hoare]: "(\<And>s. Rw (f s) = Rw s) \<Longrightarrow> appends A (change f)"
  by (simp add: appends_def)

lemma appends_http [hoare]:
  "A (EvError msg code) \<Longrightarrow> appends A (http_Error msg code)"
  "A (EvRedirect u code) \<Longrightarrow> appends A (http_Redirect u code)"
  by (simp_all add: appends_def)

lemma appends_emit: "(\<And>rw. \<exists>evs. f rw = rw @ evs \<and> list_all A evs) \<Longrightarrow> appends A (emit f)"
  by (simp add: appends_def)

lemma appends_mono: "appends A m \<Longrightarrow> (\<And>e. A e \<Longrightarrow> B e) \<Longrightarrow> appends B m"
  unfolding appends_def by (metis list.pred_mono_strong)

text \<open>
  How often a computation commits the response, as a function of its result:
  \<open>commits_by m f\<close>.
\<close>

definition commits_by :: "('w, 'a) m \<Rightarrow> ('a \<Rightarrow> nat) \<Rightarrow> bool" where
  "commits_by m f \<longleftrightarrow>
     (\<forall>s. case run_state m s of (x, s') \<Rightarrow> commit_count (Rw s') = commit_count (Rw s) + f x)"

named_theorems commit \<open>introduction rules for commits_by\<close>

lemma commits_by_bind [commit]:
  "commits_by m f \<Longrightarrow> (\<And>x. commits_by (k x) (g x)) \<Longrightarrow> (\<And>x y. f x + g x y = h y) \<Longrightarrow> commits_by (m \<bind> k) h"
  unfolding commits_by_def by (fastforce split: prod.splits)

lemma commits_by_0 [commit]: "appends (\<lambda>e. \<not> commits e) m \<Longrightarrow> commits_by m (\<lambda>_. 0)"
  unfolding commits_by_def appends_def commit_count_def
proof (intro allI)
  fix s
  assume "\<forall>s. \<exists>evs. Rw (snd (run_state m s)) = Rw s @ evs \<and> list_all (\<lambda>e. \<not> commits e) evs"
  then obtain evs where "Rw (snd (run_state m s)) = Rw s @ evs" "list_all (\<lambda>e. \<not> commits e) evs" by blast
  then show "case run_state m s of (x, s') \<Rightarrow> length (filter commits (Rw s')) = length (filter commits (Rw s)) + 0"
    by (simp add: split_def list_all_iff filter_empty_conv)
qed

lemma commits_by_quiet_bind [commit]:
  "appends (\<lambda>e. \<not> commits e) m \<Longrightarrow> (\<And>x. commits_by (k x) h) \<Longrightarrow> commits_by (m \<bind> k) h"
  by (rule commits_by_bind [OF commits_by_0]) auto

lemma commits_by_http [commit]:
  "commits_by (http_Error msg code) (\<lambda>_. 1)" "commits_by (http_Redirect u code) (\<lambda>_. 1)"
  by (simp_all add: commits_by_def commit_count_def)

lemma commits_by_if [commit]:
  "(b \<Longrightarrow> commits_by m h) \<Longrightarrow> (\<not> b \<Longrightarrow> commits_by m' h) \<Longrightarrow> commits_by (if b then m else m') h"
  by simp

lemma commits_by_case_sum [commit]:
  "(\<And>e. x = Inl e \<Longrightarrow> commits_by (g e) h) \<Longrightarrow> (\<And>y. x = Inr y \<Longrightarrow> commits_by (k y) h) \<Longrightarrow>
     commits_by (case x of Inl e \<Rightarrow> g e | Inr y \<Rightarrow> k y) h"
  by (cases x) simp_all

lemma commits_by_case_option [commit]:
  "(x = None \<Longrightarrow> commits_by g h) \<Longrightarrow> (\<And>y. x = Some y \<Longrightarrow> commits_by (k y) h) \<Longrightarrow>
     commits_by (case x of None \<Rightarrow> g | Some y \<Rightarrow> k y) h"
  by (cases x) simp_all

lemma commits_by_case_prod [commit]:
  "(\<And>a b. x = (a, b) \<Longrightarrow> commits_by (g a b) h) \<Longrightarrow> commits_by (case x of (a, b) \<Rightarrow> g a b) h"
  by (cases x) simp

lemma commits_by_let [commit]: "(\<And>y. y = x \<Longrightarrow> commits_by (g y) h) \<Longrightarrow> commits_by (let y = x in g y) h"
  by simp

lemma commits_by_emit:
  fixes f :: "rw \<Rightarrow> rw"
  assumes "\<And>rw. \<exists>evs. f rw = rw @ evs \<and> length (filter commits evs) = n"
  shows "commits_by (emit f :: ('w, unit) m) (\<lambda>_. n)"
  unfolding commits_by_def commit_count_def
proof
  fix s :: "'w toa"
  obtain evs where "f (Rw s) = Rw s @ evs" "length (filter commits evs) = n" using assms by blast
  then show "case run_state (emit f) s of (x, s') \<Rightarrow> length (filter commits (Rw s')) = length (filter commits (Rw s)) + n"
    by simp
qed

lemma commits_by_run: "commits_by m f \<Longrightarrow> run_state m s = (x, s') \<Longrightarrow> commit_count (Rw s') = commit_count (Rw s) + f x"
  unfolding commits_by_def by (drule spec [of _ s]) simp

section \<open>Set-Cookie only\<close>

text \<open>Writers that only add \<open>Set-Cookie\<close> headers, for cookies with \<open>P\<close>.\<close>

definition sets_cookies :: "(cookie \<Rightarrow> bool) \<Rightarrow> (rw \<Rightarrow> rw) \<Rightarrow> bool" where
  "sets_cookies P f \<longleftrightarrow> (\<forall>rw. \<exists>cs. f rw = rw @ map EvSetCookie cs \<and> list_all P cs)"

lemma sets_cookies_id: "sets_cookies P (\<lambda>rw. rw)"
  unfolding sets_cookies_def by (auto intro: exI [of _ "[]"])

lemma sets_cookies_comp:
  assumes "sets_cookies P f" "sets_cookies P g"
  shows "sets_cookies P (\<lambda>rw. g (f rw))"
  unfolding sets_cookies_def
proof
  fix rw
  obtain c1 where c1: "f rw = rw @ map EvSetCookie c1" "list_all P c1"
    using assms(1) unfolding sets_cookies_def by blast
  obtain c2 where "g (f rw) = f rw @ map EvSetCookie c2" "list_all P c2"
    using assms(2) unfolding sets_cookies_def by blast
  with c1 show "\<exists>cs. g (f rw) = rw @ map EvSetCookie cs \<and> list_all P cs" by (intro exI [of _ "c1 @ c2"]) simp
qed

lemma sets_cookies_if: "sets_cookies P f \<Longrightarrow> sets_cookies P g \<Longrightarrow> sets_cookies P (\<lambda>rw. if b then f rw else g rw)"
  by (cases b) simp_all

lemma sets_cookies_SetCookie: "P c \<Longrightarrow> sets_cookies P (SetCookie c)"
  unfolding sets_cookies_def
proof
  fix rw
  assume "P c"
  then show "\<exists>cs. SetCookie c rw = rw @ map EvSetCookie cs \<and> list_all P cs"
    by (cases "isCookieNameValid (Name c)")
      (auto simp: SetCookie_def intro: exI [of _ "[c]"] exI [of _ "[]"])
qed

lemma sets_cookies_set_chunks:
  "(\<And>j c. c \<in> set cs \<Longrightarrow> P (base\<lparr>Name := chunk_name nm j, Value := c\<rparr>)) \<Longrightarrow> sets_cookies P (set_chunks base nm i cs)"
proof (induction cs arbitrary: i)
  case Nil
  then show ?case using sets_cookies_id by simp
next
  case (Cons c cs)
  then show ?case by (auto intro!: sets_cookies_comp [OF sets_cookies_SetCookie])
qed

lemma sets_cookies_chunked: "sets_cookies (\<lambda>_. True) (\<lambda>rw. setChunkedCookies cfg rw nm v)"
  unfolding setChunkedCookies_def Let_def
  by (intro sets_cookies_if sets_cookies_SetCookie sets_cookies_comp [OF sets_cookies_SetCookie sets_cookies_set_chunks] TrueI)

text \<open>The expiring writers only set cookies without a value.\<close>

lemma sets_cookies_clear: "sets_cookies (\<lambda>c. Value c = []) (\<lambda>rw. clearChunkedCookie now cfg rw req nm)"
  unfolding clearChunkedCookie_def Let_def
  by (intro sets_cookies_if sets_cookies_SetCookie sets_cookies_comp [OF sets_cookies_SetCookie sets_cookies_set_chunks])
    (simp_all add: makeCookieExpireImmediately_def)

lemma sets_cookies_csrf:
  "sets_cookies (\<lambda>c. Name c = getLoginCsrfCookieName cfg csrf) (\<lambda>rw. setLoginCsrfCookie cfg rw cb csrf)"
  "sets_cookies (\<lambda>c. Value c = []) (\<lambda>rw. clearLoginCsrfCookie now cfg rw cb csrf)"
  unfolding setLoginCsrfCookie_def clearLoginCsrfCookie_def
  by (intro sets_cookies_if sets_cookies_id sets_cookies_SetCookie;
      simp add: csrf_cookie_def makeCookieExpireImmediately_def)+

definition expires_only :: "rw \<times> 'a \<Rightarrow> rw \<times> 'a \<Rightarrow> bool" where
  "expires_only acc acc' \<longleftrightarrow> (\<exists>cs. fst acc' = fst acc @ map EvSetCookie cs \<and> list_all (\<lambda>c. Value c = []) cs)"

lemma expires_only_refl: "expires_only acc acc"
  by (auto simp: expires_only_def intro: exI [of _ "[]"])

lemma expires_only_trans: "expires_only a b \<Longrightarrow> expires_only b c \<Longrightarrow> expires_only a c"
  unfolding expires_only_def by (metis (no_types, lifting) append.assoc list_all_append map_append)

lemma expire_legacy_only: "expires_only acc (expire_legacy now cb n d acc)"
proof -
  have "sets_cookies (\<lambda>c. Value c = []) (SetCookie c)" if "Value c = []" for c
    using that by (rule sets_cookies_SetCookie)
  then show ?thesis
    by (cases acc) (auto simp: expires_only_def expire_legacy_def sets_cookies_def makeCookieExpireImmediately_def
        intro: exI [of _ "[]"])
qed

lemma expireVariants_only: "expires_only acc (expireVariants now cb n acc)"
  unfolding expireVariants_def Let_def
  by (cases "Hostname cb \<noteq> []") (auto intro: expire_legacy_only expires_only_trans)

lemma legacy_loop_only: "expires_only acc (legacy_loop now cb pfx k ns acc)"
proof (induction now cb pfx k ns acc rule: legacy_loop.induct)
  case (1 now cb pfx k acc)
  then show ?case by (simp add: expires_only_refl)
next
  case (2 now cb pfx k n ns acc)
  then show ?case by (auto intro: expires_only_refl expires_only_trans [OF expireVariants_only])
qed

lemma sets_cookies_legacy: "sets_cookies (\<lambda>c. Value c = []) (\<lambda>rw. clearLegacyCodeVerifierCookies now cfg rw req cb)"
  unfolding sets_cookies_def
proof
  fix rw
  let ?p = "getCodeVerifierCookieName cfg"
  have "expires_only (rw, []) (legacy_loop now cb ?p 0 (map fst (Cookies req)) (expireVariants now cb ?p (rw, [])))"
    by (rule expires_only_trans [OF expireVariants_only legacy_loop_only])
  then show "\<exists>cs. clearLegacyCodeVerifierCookies now cfg rw req cb = rw @ map EvSetCookie cs \<and> list_all (\<lambda>c. Value c = []) cs"
    by (simp add: expires_only_def clearLegacyCodeVerifierCookies_def Let_def)
qed

lemma appends_cookies: "sets_cookies P f \<Longrightarrow> (\<And>c. P c \<Longrightarrow> A (EvSetCookie c)) \<Longrightarrow> appends A (emit f)"
proof (rule appends_emit)
  fix rw
  assume "sets_cookies P f" and A: "\<And>c. P c \<Longrightarrow> A (EvSetCookie c)"
  then obtain cs where "f rw = rw @ map EvSetCookie cs" "list_all P cs" unfolding sets_cookies_def by blast
  with A show "\<exists>evs. f rw = rw @ evs \<and> list_all A evs"
    by (intro exI [of _ "map EvSetCookie cs"]) (auto simp: list_all_iff)
qed

lemma sets_cookies_any: "sets_cookies P f \<Longrightarrow> sets_cookies (\<lambda>_. True) f"
  unfolding sets_cookies_def by (metis (mono_tags, lifting) list.pred_mono_strong)

lemma appends_any_cookie [hoare]: "sets_cookies (\<lambda>_. True) f \<Longrightarrow> (\<And>c. A (EvSetCookie c)) \<Longrightarrow> appends A (emit f)"
  by (rule appends_cookies)

lemmas cookie_writers [hoare] = sets_cookies_chunked sets_cookies_clear [THEN sets_cookies_any]
  sets_cookies_csrf [THEN sets_cookies_any] sets_cookies_legacy [THEN sets_cookies_any]

text \<open>Handing a request on is the one event that the next two theories keep track of.\<close>

fun forwards :: "rw_event \<Rightarrow> bool" where
  "forwards (EvForward _) = True"
| "forwards _ = False"

section \<open>What a handler adds, in a context\<close>

text \<open>
  \<open>adds I A m\<close>: started in a state with \<open>I\<close>, the computation only appends events to the
  response, and each of them satisfies \<open>A\<close>. With \<open>I\<close> naming the configuration and the
  request, the branches of a handler know which values they were taken on.
\<close>

definition adds :: "('w toa \<Rightarrow> bool) \<Rightarrow> (rw_event \<Rightarrow> bool) \<Rightarrow> ('w, 'a) m \<Rightarrow> bool" where
  "adds I A m \<longleftrightarrow> (\<forall>s. I s \<longrightarrow> (\<exists>evs. Rw (snd (run_state m s)) = Rw s @ evs \<and> list_all A evs))"

definition serving :: "Config \<Rightarrow> request \<Rightarrow> 'w toa \<Rightarrow> bool" where
  "serving cfg req s \<longleftrightarrow> Config s = cfg \<and> Req s = req"

definition stays :: "('s \<Rightarrow> bool) \<Rightarrow> ('s, 'a) state \<Rightarrow> bool" where
  "stays I m \<longleftrightarrow> triple I m (\<lambda>_. I)"

lemma adds_appends: "appends A m \<Longrightarrow> adds I A m"
  by (simp add: adds_def appends_def)

lemma adds_run:
  assumes "adds I A m" "I s" "run_state m s = (x, s')"
  obtains evs where "Rw s' = Rw s @ evs" "list_all A evs"
  using assms unfolding adds_def by (metis snd_conv)

lemma stays_run: "stays I m \<Longrightarrow> I s \<Longrightarrow> run_state m s = (x, s') \<Longrightarrow> I s'"
  by (force simp: stays_def triple_def)

lemma staysI: "(\<And>s. I s \<Longrightarrow> I (snd (run_state m s))) \<Longrightarrow> stays I m"
  by (auto simp: stays_def triple_def split_beta)

text \<open>The continuation may use that its argument is a result of the first part.\<close>

lemma adds_bind:
  fixes m :: "('w, 'a) m"
  assumes m: "adds I A m" "stays I m"
    and k: "\<And>s x s'. I s \<Longrightarrow> run_state m s = (x, s') \<Longrightarrow> adds I A (k x)"
  shows "adds I A (m \<bind> k)"
  unfolding adds_def
proof (intro allI impI)
  fix s :: "'w toa"
  assume I: "I s"
  obtain x s' where r: "run_state m s = (x, s')" by (cases "run_state m s")
  have I': "I s'" using stays_run [OF m(2) I r] .
  obtain e1 where e1: "Rw s' = Rw s @ e1" "list_all A e1" using adds_run [OF m(1) I r] by blast
  obtain e2 where e2: "Rw (snd (run_state (k x) s')) = Rw s' @ e2" "list_all A e2"
    using k [OF I r] I' unfolding adds_def by blast
  show "\<exists>evs. Rw (snd (run_state (m \<bind> k) s)) = Rw s @ evs \<and> list_all A evs"
    using r e1 e2 by (intro exI [of _ "e1 @ e2"]) simp
qed

text \<open>Reading the configuration or the request in their context gives the named values.\<close>

lemma adds_ask_serving:
  "adds (serving cfg req) A (k cfg) \<Longrightarrow> adds (serving cfg req) A (ask Config \<bind> k)"
  "adds (serving cfg req) A (k2 req) \<Longrightarrow> adds (serving cfg req) A (ask Req \<bind> k2)"
  "adds (serving cfg req) A (k3 (f cfg)) \<Longrightarrow> adds (serving cfg req) A (conf f \<bind> k3)"
  "adds (serving cfg req) A (k4 (g (Provider cfg))) \<Longrightarrow> adds (serving cfg req) A (prov g \<bind> k4)"
  by (simp_all add: adds_def serving_def)

lemma adds_ask: "(\<And>x. adds I A (k x)) \<Longrightarrow> adds I A (ask f \<bind> k)"
  by (simp add: adds_def)

lemma stays_simple:
  "stays (serving cfg req) (emit f)" "stays (serving cfg req) (outside g)" "stays (serving cfg req) (return x)"
  "stays (serving cfg req) (http_Error msg code)"
  by (auto intro!: staysI simp: serving_def split: prod.splits)

lemma stays_branch:
  "(b \<Longrightarrow> stays I m) \<Longrightarrow> (\<not> b \<Longrightarrow> stays I m') \<Longrightarrow> stays I (if b then m else m')"
  by simp

lemma stays_bind:
  assumes "stays I m" "\<And>x. stays I (k x)"
  shows "stays I (m \<bind> k)"
proof (rule staysI)
  fix s assume I: "I s"
  obtain x s' where r: "run_state m s = (x, s')" by (cases "run_state m s")
  have "I s'" using stays_run [OF assms(1) I r] .
  then have "I (snd (run_state (k x) s'))" using stays_run [OF assms(2)] by (metis prod.collapse)
  then show "I (snd (run_state (m \<bind> k) s))" using r by simp
qed

lemma adds_outside_bind:
  "(\<And>s x w. serving cfg req s \<Longrightarrow> f (World s) = (x, w) \<Longrightarrow> adds (serving cfg req) A (k x)) \<Longrightarrow>
     adds (serving cfg req) A (outside f \<bind> k)"
  by (rule adds_bind) (auto intro: adds_appends appends_outside stays_simple split: prod.splits)

lemma adds_branch:
  "(b \<Longrightarrow> adds I A m) \<Longrightarrow> (\<not> b \<Longrightarrow> adds I A m') \<Longrightarrow> adds I A (if b then m else m')"
  "(\<And>e. x = Inl e \<Longrightarrow> adds I A (g e)) \<Longrightarrow> (\<And>y. x = Inr y \<Longrightarrow> adds I A (h y)) \<Longrightarrow>
     adds I A (case x of Inl e \<Rightarrow> g e | Inr y \<Rightarrow> h y)"
  "(z = None \<Longrightarrow> adds I A p) \<Longrightarrow> (\<And>y. z = Some y \<Longrightarrow> adds I A (q y)) \<Longrightarrow>
     adds I A (case z of None \<Rightarrow> p | Some y \<Rightarrow> q y)"
  by (simp_all split: sum.split option.split)

lemma adds_let: "adds I A (g x) \<Longrightarrow> adds I A (let y = x in g y)"
  by simp

lemma adds_weaken: "adds J A m \<Longrightarrow> (\<And>s. I s \<Longrightarrow> J s) \<Longrightarrow> adds I A m"
  by (simp add: adds_def)

lemma adds_mono: "adds I A m \<Longrightarrow> (\<And>e. A e \<Longrightarrow> B e) \<Longrightarrow> adds I B m"
  unfolding adds_def by (metis list.pred_mono_strong)

end
