(* ===== verification/JwksCache.thy ===== *)
theory JwksCache
  imports Effects
begin

text \<open>
  \<open>src/oidc/jwks.go\<close>: the cache of the provider's signing keys. The reload is decided by
  \<open>needsReload\<close>, done by \<open>loadKeysContext\<close> and wrapped by \<open>EnsureLoadedContext\<close>, which
  keeps the cached keys when the provider fails; \<open>Keyfunc\<close> picks the key for a token by
  its algorithm and key id.
\<close>

section \<open>Data\<close>

record JwksKey =
  Crv :: string
  KeyE :: string
  Kid :: string
  Kty :: string
  KeyN :: string
  Use :: string
  KeyX :: string
  KeyY :: string

definition zero_key :: JwksKey where
  "zero_key = \<lparr>Crv = [], KeyE = [], Kid = [], Kty = [], KeyN = [], Use = [], KeyX = [], KeyY = []\<rparr>"

definition key_fields :: "JwksKey field list" where
  "key_fields =
     [(''crv'', dec_string (\<lambda>v k. k\<lparr>Crv := v\<rparr>)), (''e'', dec_string (\<lambda>v k. k\<lparr>KeyE := v\<rparr>)),
      (''kid'', dec_string (\<lambda>v k. k\<lparr>Kid := v\<rparr>)), (''kty'', dec_string (\<lambda>v k. k\<lparr>Kty := v\<rparr>)),
      (''n'', dec_string (\<lambda>v k. k\<lparr>KeyN := v\<rparr>)), (''use'', dec_string (\<lambda>v k. k\<lparr>Use := v\<rparr>)),
      (''x'', dec_string (\<lambda>v k. k\<lparr>KeyX := v\<rparr>)), (''y'', dec_string (\<lambda>v k. k\<lparr>KeyY := v\<rparr>))]"

fun decode_keys :: "json list \<Rightarrow> JwksKey list option" where
  "decode_keys [] = Some []"
| "decode_keys (v # vs) =
     (case decode_struct key_fields v zero_key of
        None \<Rightarrow> None | Some k \<Rightarrow> map_option ((#) k) (decode_keys vs))"

text \<open>\<open>JwksKeys\<close> has one field, the list of keys.\<close>

fun dec_keys :: "json \<Rightarrow> JwksKey list \<Rightarrow> JwksKey list option" where
  "dec_keys JNull ks = Some []"
| "dec_keys (JArr vs) ks = decode_keys vs"
| "dec_keys _ ks = None"

definition decode_jwks :: "json \<Rightarrow> JwksKey list option" where
  "decode_jwks j = decode_struct [(''keys'', dec_keys)] j []"

section \<open>Extracting keys\<close>

definition getEllipticCurve :: "string \<Rightarrow> string option" where
  "getEllipticCurve crv = (if crv \<in> {''P-224'', ''P-256'', ''P-384'', ''P-521''} then Some crv else None)"

definition extractRsaKey :: "JwksKey \<Rightarrow> (string \<times> jwk) result" where
  "extractRsaKey k =
     (case ParseBigInt (KeyN k) of
        Inl e \<Rightarrow> Err e
      | Inr n \<Rightarrow> (case ParseInt (KeyE k) of Inl e \<Rightarrow> Err e | Inr e \<Rightarrow> Ok (Kid k, RsaPublicKey n e)))"

definition extractEcdsaKey :: "JwksKey \<Rightarrow> (string \<times> jwk) result" where
  "extractEcdsaKey k =
     (case ParseBigInt (KeyX k) of
        Inl e \<Rightarrow> Err e
      | Inr x \<Rightarrow>
          (case ParseBigInt (KeyY k) of
             Inl e \<Rightarrow> Err e
           | Inr y \<Rightarrow>
               (case getEllipticCurve (Crv k) of
                  None \<Rightarrow> Err (''unsupported or empty elliptic curve '' @ Crv k)
                | Some curve \<Rightarrow> Ok (Kid k, EcdsaPublicKey curve x y))))"

fun extract_loop :: "JwksKey list \<Rightarrow> (string \<times> jwk) list \<Rightarrow> (string \<times> jwk) list
    \<Rightarrow> (string \<times> jwk) list \<times> (string \<times> jwk) list" where
  "extract_loop [] rsaKeys ecdsaKeys = (rsaKeys, ecdsaKeys)"
| "extract_loop (k # ks) rsaKeys ecdsaKeys =
     (if Use k = ''sig'' \<or> Use k = []
      then if Kty k = ''RSA''
           then (case extractRsaKey k of
                   Inl _ \<Rightarrow> extract_loop ks rsaKeys ecdsaKeys
                 | Inr x \<Rightarrow> extract_loop ks (rsaKeys @ [x]) ecdsaKeys)
           else if Kty k = ''EC''
           then (case extractEcdsaKey k of
                   Inl _ \<Rightarrow> extract_loop ks rsaKeys ecdsaKeys
                 | Inr x \<Rightarrow> extract_loop ks rsaKeys (ecdsaKeys @ [x]))
           else extract_loop ks rsaKeys ecdsaKeys
      else extract_loop ks rsaKeys ecdsaKeys)"

definition extractKeys :: "JwksKey list \<Rightarrow> ((string \<times> jwk) list \<times> (string \<times> jwk) list) result" where
  "extractKeys keys =
     (case extract_loop keys [] [] of (rsaKeys, ecdsaKeys) \<Rightarrow>
        if ecdsaKeys = [] \<and> rsaKeys = [] then Err ''no public Keys found'' else Ok (rsaKeys, ecdsaKeys))"

section \<open>Reloading\<close>

definition reloadFailureBackoff :: int where
  "reloadFailureBackoff = Minute"

definition hasKeys :: "JwksHandler \<Rightarrow> bool" where
  "hasKeys h \<longleftrightarrow> RsaKeys h \<noteq> [] \<or> EcdsaKeys h \<noteq> []"

definition needsReload :: "JwksHandler \<Rightarrow> int \<Rightarrow> bool \<Rightarrow> bool" where
  "needsReload h now forceReload =
     (let maxCacheTimeout = now - 6 * 60 * Minute;
          minCacheTimeout = now - 5 * Minute;
          reload = \<not> hasKeys h \<or> CacheDate h < maxCacheTimeout \<or> forceReload \<and> CacheDate h < minCacheTimeout
      in if reload \<and> lastReloadError h \<noteq> 0 \<and> now - lastReloadError h < reloadFailureBackoff \<and> hasKeys h
         then False else reload)"

definition maxJwksBodySize :: nat where
  "maxJwksBodySize = 4194304"

definition maxErrorExcerpt :: nat where
  "maxErrorExcerpt = 512"

definition excerptForError :: "string \<Rightarrow> string" where
  "excerptForError body =
     (if maxErrorExcerpt < length body then take maxErrorExcerpt body @ ''...(truncated)'' else body)"

text \<open>\<open>io.ReadAll(io.LimitReader(resp.Body, n))\<close>: a read error counts only below the limit.\<close>

definition read_limited :: "nat \<Rightarrow> http_resp \<Rightarrow> string result" where
  "read_limited n resp =
     (if n \<le> length (Body resp) then Ok (take n (Body resp))
      else case BodyErr resp of None \<Rightarrow> Ok (Body resp) | Some e \<Rightarrow> Err e)"

text \<open>\<open>http.NewRequest\<close> fails when the URL does not parse; then \<open>httpClient.Do\<close>.\<close>

definition send :: "'w env \<Rightarrow> out_req \<Rightarrow> ('w, http_resp result) m" where
  "send E r =
     (case UrlParse (UrlOps E) (OutUrl r) of Inl e \<Rightarrow> return (Err e) | Inr _ \<Rightarrow> outside (Do E r))"

text \<open>A response to the key request: the keys it carries, or why it has none.\<close>

definition keys_of_response :: "'w env \<Rightarrow> string \<Rightarrow> http_resp \<Rightarrow> ((string \<times> jwk) list \<times> (string \<times> jwk) list) result" where
  "keys_of_response E u resp =
     (case read_limited (maxJwksBodySize + 1) resp of
        Inl e \<Rightarrow> Err e
      | Inr body \<Rightarrow>
          if StatusCode resp \<noteq> 200
          then Err (''JWKS request to '' @ u @ '' returned status '' @ Itoa (StatusCode resp) @ '': '' @ excerptForError body)
          else (case Option.bind (json_parse (JsonText E) body) decode_jwks of
                  None \<Rightarrow> Err ''json: cannot unmarshal JwksKeys''
                | Some loaded \<Rightarrow> extractKeys loaded))"

definition loadKeysContext :: "'w env \<Rightarrow> ('w, error option) m" where
  "loadKeysContext E = do {
     u \<leftarrow> ask (\<lambda>s. JwksUrl (Jwks s));
     r \<leftarrow> send E \<lparr>OutMethod = ''GET'', OutUrl = u, OutBody = [], OutHeader = [], BasicAuth = None\<rparr>;
     case r of
       Inl e \<Rightarrow> return (Some e)
     | Inr resp \<Rightarrow>
         (case keys_of_response E u resp of
            Inl e \<Rightarrow> return (Some e)
          | Inr (rsaKeys, ecdsaKeys) \<Rightarrow> do {
              now \<leftarrow> outside (Now E);
              change (\<lambda>s. s\<lparr>Jwks := (Jwks s)\<lparr>RsaKeys := rsaKeys, EcdsaKeys := ecdsaKeys, CacheDate := now,
                lastReloadError := 0\<rparr>\<rparr>);
              return None
            })
   }"

text \<open>\<open>None\<close> is the nil error. The second test is the one under the reload lock.\<close>

definition EnsureLoadedContext :: "'w env \<Rightarrow> bool \<Rightarrow> ('w, error option) m" where
  "EnsureLoadedContext E forceReload = do {
     t1 \<leftarrow> outside (Now E);
     needed \<leftarrow> ask (\<lambda>s. needsReload (Jwks s) t1 forceReload);
     if \<not> needed then return None
     else do {
       t2 \<leftarrow> outside (Now E);
       needed2 \<leftarrow> ask (\<lambda>s. needsReload (Jwks s) t2 forceReload);
       hadKeys \<leftarrow> ask (\<lambda>s. hasKeys (Jwks s));
       if \<not> needed2 then return None
       else do {
         err \<leftarrow> loadKeysContext E;
         case err of
           None \<Rightarrow> return None
         | Some e \<Rightarrow>
             if hadKeys then do {
               t3 \<leftarrow> outside (Now E);
               change (\<lambda>s. s\<lparr>Jwks := (Jwks s)\<lparr>lastReloadError := t3\<rparr>\<rparr>);
               return None
             }
             else return (Some e)
       }
     }
   }"

section \<open>Choosing a key\<close>

definition allowedAlgorithms :: "string list" where
  "allowedAlgorithms = [''RS256'', ''RS384'', ''RS512'', ''PS256'', ''PS384'', ''PS512'', ''ES256'', ''ES384'', ''ES512'']"

definition isAlgorithmAllowed :: "string \<Rightarrow> bool" where
  "isAlgorithmAllowed alg \<longleftrightarrow> ToUpper alg \<in> set allowedAlgorithms"

text \<open>\<open>AllowedAlgorithms\<close> in \<open>types.go\<close>: the same set, sorted.\<close>

definition AllowedAlgorithms :: "string list" where
  "AllowedAlgorithms = sort allowedAlgorithms"

definition find_key :: "(string \<times> jwk) list \<Rightarrow> string \<Rightarrow> jwk result" where
  "find_key keys kid = (case map_of keys kid of None \<Rightarrow> Err (''unknown kid '' @ kid) | Some k \<Rightarrow> Ok k)"

definition getRsaKey :: "JwksHandler \<Rightarrow> string \<Rightarrow> jwk result" where
  "getRsaKey h kid = find_key (RsaKeys h) kid"

definition getEcdsaKey :: "JwksHandler \<Rightarrow> string \<Rightarrow> jwk result" where
  "getEcdsaKey h kid = find_key (EcdsaKeys h) kid"

definition Keyfunc :: "JwksHandler \<Rightarrow> jwt_token \<Rightarrow> jwk result" where
  "Keyfunc h token =
     (if \<not> isAlgorithmAllowed (TokenAlg token) then Err (''unsupported algorithm '' @ TokenAlg token)
      else
        (let alg = ToUpper (TokenAlg token)
         in if alg \<in> {''RS256'', ''RS384'', ''RS512'', ''PS256'', ''PS384'', ''PS512''}
            then (case claim_string (TokenHeader token) ''kid'' of
                    None \<Rightarrow> Err ''missing or invalid kid in token header''
                  | Some kid \<Rightarrow> if kid = [] then Err ''missing or invalid kid in token header'' else getRsaKey h kid)
            else if alg \<in> {''ES256'', ''ES384'', ''ES512''}
            then (case claim_string (TokenHeader token) ''kid'' of
                    None \<Rightarrow> Err ''missing or invalid kid in token header''
                  | Some kid \<Rightarrow> if kid = [] then Err ''missing or invalid kid in token header'' else getEcdsaKey h kid)
            else Err (''unsupported algorithm '' @ TokenAlg token)))"

section \<open>The cache invariant\<close>

text \<open>
  The RSA list holds RSA keys only, the other one elliptic keys on a supported curve only
  (a missing curve would make the verification panic).
\<close>

fun is_rsa :: "jwk \<Rightarrow> bool" where
  "is_rsa (RsaPublicKey _ _) = True"
| "is_rsa (EcdsaPublicKey _ _ _) = False"

fun is_ec :: "jwk \<Rightarrow> bool" where
  "is_ec (RsaPublicKey _ _) = False"
| "is_ec (EcdsaPublicKey crv _ _) \<longleftrightarrow> crv \<in> {''P-224'', ''P-256'', ''P-384'', ''P-521''}"

definition jwks_wf :: "JwksHandler \<Rightarrow> bool" where
  "jwks_wf h \<longleftrightarrow> (\<forall>k \<in> set (RsaKeys h). is_rsa (snd k)) \<and> (\<forall>k \<in> set (EcdsaKeys h). is_ec (snd k))"

lemma extract_loop_wf:
  "extract_loop ks r e = (r', e') \<Longrightarrow> (\<forall>k \<in> set r. is_rsa (snd k)) \<Longrightarrow> (\<forall>k \<in> set e. is_ec (snd k)) \<Longrightarrow>
     (\<forall>k \<in> set r'. is_rsa (snd k)) \<and> (\<forall>k \<in> set e'. is_ec (snd k))"
proof (induction ks r e rule: extract_loop.induct)
  case (2 k ks r e)
  have rsa: "is_rsa (snd x)" if "extractRsaKey k = Ok x" for x
    using that by (auto simp: extractRsaKey_def split: sum.splits)
  have ec: "is_ec (snd x)" if "extractEcdsaKey k = Ok x" for x
    using that by (auto simp: extractEcdsaKey_def getEllipticCurve_def split: sum.splits option.splits if_splits)
  show ?case using 2 rsa ec by (auto split: if_splits sum.splits)
qed simp

lemma keys_of_response_wf:
  assumes "keys_of_response E u resp = Ok (r, e)"
  shows "(\<forall>k \<in> set r. is_rsa (snd k)) \<and> (\<forall>k \<in> set e. is_ec (snd k))" "r \<noteq> [] \<or> e \<noteq> []"
  using assms extract_loop_wf [of _ "[]" "[]" r e]
  by (auto simp: keys_of_response_def extractKeys_def split: sum.splits option.splits if_splits prod.splits)

lemma run_send:
  "run_state (send E r) s = (x, s') \<Longrightarrow> \<exists>w. s' = s\<lparr>World := w\<rparr>"
  by (auto simp: send_def split: sum.splits prod.splits intro: exI [of _ "World s'"])

lemma loadKeysContext_cases:
  assumes "run_state (loadKeysContext E) s = (err, s')"
  obtains (failed) e w where "err = Some e" "s' = s\<lparr>World := w\<rparr>"
  | (loaded) r c now w where "err = None" "\<forall>k \<in> set r. is_rsa (snd k)" "\<forall>k \<in> set c. is_ec (snd k)" "r \<noteq> [] \<or> c \<noteq> []"
      "s' = s\<lparr>World := w, Jwks := (Jwks s)\<lparr>RsaKeys := r, EcdsaKeys := c, CacheDate := now, lastReloadError := 0\<rparr>\<rparr>"
proof -
  let ?r = "\<lparr>OutMethod = ''GET'', OutUrl = JwksUrl (Jwks s), OutBody = [], OutHeader = [], BasicAuth = None\<rparr> :: out_req"
  obtain x s1 where send: "run_state (send E ?r) s = (x, s1)" by (cases "run_state (send E ?r) s")
  then obtain w where s1: "s1 = s\<lparr>World := w\<rparr>" using run_send by blast
  show thesis
  proof (cases "\<exists>e. x = Inl e \<or> (\<exists>resp. x = Inr resp \<and> keys_of_response E (JwksUrl (Jwks s)) resp = Inl e)")
    case True
    then obtain e where "x = Inl e \<or> (\<exists>resp. x = Inr resp \<and> keys_of_response E (JwksUrl (Jwks s)) resp = Inl e)" by blast
    with assms send s1 show thesis by (intro failed [of e w]) (auto simp: loadKeysContext_def)
  next
    case False
    then obtain resp r c where x: "x = Inr resp" and k: "keys_of_response E (JwksUrl (Jwks s)) resp = Ok (r, c)"
      by (cases x) (auto, metis obj_sumE surj_pair)
    obtain now w' where n: "Now E w = (now, w')" by (cases "Now E w")
    show thesis
      by (rule loaded [of r c now w']) (use assms send s1 x k n keys_of_response_wf [OF k] in \<open>auto simp: loadKeysContext_def\<close>)
  qed
qed

text \<open>The outcomes of \<open>EnsureLoadedContext\<close>.\<close>

lemma EnsureLoadedContext_cases:
  assumes "run_state (EnsureLoadedContext E force) s = (err, s')"
  obtains (fresh) w t where "err = None" "s' = s\<lparr>World := w\<rparr>" "\<not> needsReload (Jwks s) t force"
  | (failed) e w where "err = Some e" "s' = s\<lparr>World := w\<rparr>" "\<not> hasKeys (Jwks s)"
  | (kept) w t where "err = None" "s' = s\<lparr>World := w, Jwks := (Jwks s)\<lparr>lastReloadError := t\<rparr>\<rparr>" "hasKeys (Jwks s)"
  | (loaded) r c now w where "err = None" "\<forall>k \<in> set r. is_rsa (snd k)" "\<forall>k \<in> set c. is_ec (snd k)" "r \<noteq> [] \<or> c \<noteq> []"
      "s' = s\<lparr>World := w, Jwks := (Jwks s)\<lparr>RsaKeys := r, EcdsaKeys := c, CacheDate := now, lastReloadError := 0\<rparr>\<rparr>"
proof -
  obtain t1 w1 where n1: "Now E (World s) = (t1, w1)" by (cases "Now E (World s)")
  obtain t2 w2 where n2: "Now E w1 = (t2, w2)" by (cases "Now E w1")
  show thesis
  proof (cases "needsReload (Jwks s) t1 force \<and> needsReload (Jwks s) t2 force")
    case False
    then show thesis
    proof (cases "needsReload (Jwks s) t1 force")
      case True
      with False assms n1 n2 show thesis by (intro fresh [of w2 t2]) (auto simp: EnsureLoadedContext_def)
    next
      case False
      with assms n1 show thesis by (intro fresh [of w1 t1]) (auto simp: EnsureLoadedContext_def)
    qed
  next
    case True
    obtain e1 s1 where l: "run_state (loadKeysContext E) (s\<lparr>World := w2\<rparr>) = (e1, s1)"
      by (cases "run_state (loadKeysContext E) (s\<lparr>World := w2\<rparr>)")
    from l show thesis
    proof (cases rule: loadKeysContext_cases)
      case (failed e w)
      obtain t3 w3 where n3: "Now E w = (t3, w3)" by (cases "Now E w")
      show thesis
      proof (cases "hasKeys (Jwks s)")
        case True
        show thesis
          by (rule kept [of t3 w3])
            (use assms n1 n2 n3 l failed True \<open>needsReload (Jwks s) t1 force \<and> needsReload (Jwks s) t2 force\<close>
              in \<open>auto simp: EnsureLoadedContext_def\<close>)
      next
        case False
        show thesis
          by (rule \<open>\<And>e w. err = Some e \<Longrightarrow> s' = s\<lparr>World := w\<rparr> \<Longrightarrow> \<not> hasKeys (Jwks s) \<Longrightarrow> thesis\<close> [of e w])
            (use assms n1 n2 l failed False \<open>needsReload (Jwks s) t1 force \<and> needsReload (Jwks s) t2 force\<close>
              in \<open>auto simp: EnsureLoadedContext_def\<close>)
      qed
    next
      case (loaded r c now w)
      show thesis
        by (rule \<open>\<And>r c now w. err = None \<Longrightarrow> \<forall>k \<in> set r. is_rsa (snd k) \<Longrightarrow> \<forall>k \<in> set c. is_ec (snd k) \<Longrightarrow> r \<noteq> [] \<or> c \<noteq> [] \<Longrightarrow>
             s' = s\<lparr>World := w, Jwks := (Jwks s)\<lparr>RsaKeys := r, EcdsaKeys := c, CacheDate := now, lastReloadError := 0\<rparr>\<rparr> \<Longrightarrow> thesis\<close>
             [of r c now w])
          (use assms n1 n2 l loaded True in \<open>auto simp: EnsureLoadedContext_def\<close>)
    qed
  qed
qed

lemma EnsureLoadedContext_frame:
  assumes "run_state (EnsureLoadedContext E force) s = (err, s')"
  shows "\<exists>w h. s' = s\<lparr>World := w, Jwks := h\<rparr> \<and> JwksUrl h = JwksUrl (Jwks s)"
  using assms by (cases rule: EnsureLoadedContext_cases) (fastforce intro: exI [of _ "Jwks s"])+

lemma EnsureLoadedContext_wf:
  "run_state (EnsureLoadedContext E force) s = (err, s') \<Longrightarrow> jwks_wf (Jwks s) \<Longrightarrow> jwks_wf (Jwks s')"
  by (erule EnsureLoadedContext_cases) (auto simp: jwks_wf_def)

section \<open>Properties\<close>

text \<open>
  The key cache fails open on the cache and closed on the request: \<open>EnsureLoadedContext\<close>
  returns nil only with keys in the cache, an error only when there were none and nothing
  changed, and a failed reload never loses or alters a cached key; the cache stays
  well-formed throughout.
\<close>

theorem EnsureLoaded_cache:
  assumes "run_state (EnsureLoadedContext E force) s = (err, s')" "jwks_wf (Jwks s)"
  shows "jwks_wf (Jwks s')
    \<and> (err = None \<longrightarrow> hasKeys (Jwks s'))
    \<and> (err \<noteq> None \<longrightarrow> \<not> hasKeys (Jwks s) \<and> Jwks s' = Jwks s)
    \<and> (CacheDate (Jwks s') = CacheDate (Jwks s) \<and> lastReloadError (Jwks s') \<noteq> 0 \<longrightarrow>
        RsaKeys (Jwks s') = RsaKeys (Jwks s) \<and> EcdsaKeys (Jwks s') = EcdsaKeys (Jwks s))"
  using assms(1)
proof (cases rule: EnsureLoadedContext_cases)
  case (fresh w t)
  then have "hasKeys (Jwks s)" by (auto simp: needsReload_def Let_def split: if_splits)
  with fresh assms(2) show ?thesis by simp
qed (use assms(2) in \<open>auto simp: jwks_wf_def hasKeys_def\<close>)

definition dead_env :: "unit env" where
  "dead_env = \<lparr>Now = (\<lambda>w. (63000000000000000000, w)), RandRead = (\<lambda>n w. (Some (replicate n CHR ''r''), w)), NewUUID = (\<lambda>w. (''id'', w)),
     Do = (\<lambda>r w. (Err ''connection refused'', w)), Aead = ideal_aead, JsonText = unary_json, TimeText = unary_time,
     UrlOps = \<lparr>UrlParse = (\<lambda>s. Ok \<lparr>Scheme = ''https'', UHost = ''idp.example'', Path = s, RawQuery = []\<rparr>),
       UrlString = (\<lambda>u. Scheme u @ ''://'' @ UHost u @ Path u @ (if RawQuery u = [] then [] else ''?'' @ RawQuery u)),
       UrlRequestURI = (\<lambda>u. Path u @ (if RawQuery u = [] then [] else ''?'' @ RawQuery u))\<rparr>,
     MimeOps = plain_mime, ClaimOps = role_ops,
     JwtOps = \<lparr>Verify = (\<lambda>_ _ _ _. Some ''bad''), SignRS256 = (\<lambda>_ _ _. Err ''no key''), NumericDate = (\<lambda>_. None)\<rparr>,
     FloatSeconds = (\<lambda>_. 0), ParseRFC3339 = (\<lambda>_. None), Redact = (\<lambda>s. s), Sha256 = (\<lambda>s. s), ParseIP = (\<lambda>_. None), TplParse = (\<lambda>_. None), TplExecute = (\<lambda>t _. (t, None)),
     Files = (\<lambda>_. None), DefaultTemplate = [], HtmlPage = (\<lambda>t _. Ok t), BypassRule = None\<rparr>"

definition sample_toa :: "unit toa" where
  "sample_toa = \<lparr>World = (), ProviderURL = \<lparr>Scheme = ''https'', UHost = ''idp.example'', Path = [], RawQuery = []\<rparr>,
     ClientJwtPrivateKey = None, CallbackURL = \<lparr>Scheme = [], UHost = [], Path = ''/oidc/callback'', RawQuery = []\<rparr>,
     Config = migrateAuthBehaviors CreateConfig, DiscoveryDocument = None,
     Jwks = new_jwks\<lparr>RsaKeys := [(''k1'', RsaPublicKey 15 3)]\<rparr>,
     RedirectUriWildcardsEnabled = False, validIssuer = [], validAudience = [],
     sessionWrites = \<lparr>last_write = Map.empty, write_count = 0\<rparr>, Req = html_request, Rw = []\<rparr>"

lemma sample_jwks_wf: "jwks_wf (Jwks sample_toa)"
  by (simp add: sample_toa_def jwks_wf_def new_jwks_def)

theorem EnsureLoaded_cache_witness:
  "\<exists>s'. run_state (EnsureLoadedContext dead_env True) sample_toa = (None, s')
     \<and> hasKeys (Jwks s') \<and> RsaKeys (Jwks s') = [(''k1'', RsaPublicKey 15 3)]"
proof -
  have n: "needsReload (Jwks sample_toa) 63000000000000000000 True"
    by (simp add: needsReload_def sample_toa_def new_jwks_def hasKeys_def Minute_def Second_def)
  have h: "hasKeys (Jwks sample_toa)" by (simp add: sample_toa_def new_jwks_def hasKeys_def)
  obtain s' where r: "run_state (EnsureLoadedContext dead_env True) sample_toa = (None, s')"
    and k: "RsaKeys (Jwks s') = RsaKeys (Jwks sample_toa)"
    using n h by (simp add: EnsureLoadedContext_def loadKeysContext_def send_def dead_env_def)
  from EnsureLoaded_cache [OF r sample_jwks_wf] r k show ?thesis
    by (intro exI [of _ s']) (simp add: sample_toa_def new_jwks_def)
qed

text \<open>
  Keys are not refetched needlessly: with keys in the cache, a forced reload within five
  minutes of the last load, any reload within six hours, and any reload within a minute of
  a failed one leave the provider alone.
\<close>

lemma needsReload_suppressed:
  assumes "hasKeys h"
    and "now - CacheDate h \<le> 5 * Minute \<or> \<not> force \<and> now - CacheDate h \<le> 6 * 60 * Minute
      \<or> lastReloadError h \<noteq> 0 \<and> now - lastReloadError h < Minute"
  shows "\<not> needsReload h now force"
  using assms by (auto simp: needsReload_def Let_def reloadFailureBackoff_def Minute_def Second_def)

lemma Keyfunc_key:
  assumes "jwks_wf h" "Keyfunc h token = Ok key"
  shows "isAlgorithmAllowed (TokenAlg token)
    \<and> (\<exists>kid. claim_string (TokenHeader token) ''kid'' = Some kid \<and> kid \<noteq> []
        \<and> (if HasPrefix (ToUpper (TokenAlg token)) ''ES'' then (kid, key) \<in> set (EcdsaKeys h) \<and> is_ec key
           else (kid, key) \<in> set (RsaKeys h) \<and> is_rsa key))"
proof -
  have found: "(kid, k) \<in> set ks" if "find_key ks kid = Ok k" for ks kid k
    using that by (auto simp: find_key_def dest: map_of_SomeD split: option.splits)
  from assms(2) have a: "isAlgorithmAllowed (TokenAlg token)" by (auto simp: Keyfunc_def split: if_splits)
  let ?alg = "ToUpper (TokenAlg token)"
  from assms(2) a obtain kid where kid: "claim_string (TokenHeader token) ''kid'' = Some kid" "kid \<noteq> []"
    and r: "?alg \<in> {''RS256'', ''RS384'', ''RS512'', ''PS256'', ''PS384'', ''PS512''} \<and> getRsaKey h kid = Ok key
      \<or> ?alg \<in> {''ES256'', ''ES384'', ''ES512''} \<and> getEcdsaKey h kid = Ok key"
    by (auto simp: Keyfunc_def Let_def split: option.splits if_splits)
  from r assms(1) have "if HasPrefix ?alg ''ES'' then (kid, key) \<in> set (EcdsaKeys h) \<and> is_ec key
      else (kid, key) \<in> set (RsaKeys h) \<and> is_rsa key"
    by (auto simp: HasPrefix_def getRsaKey_def getEcdsaKey_def jwks_wf_def dest!: found)
  with a kid show ?thesis by blast
qed

text \<open>
  C33. The key function admits no algorithm confusion: a key it returns is cached under the
  token's own non-empty \<open>kid\<close>, and its type is the one that the token's algorithm uses.
\<close>

theorem Keyfunc_sound:
  assumes "jwks_wf h" "Keyfunc h token = Ok key"
  shows "isAlgorithmAllowed (TokenAlg token)
    \<and> (\<exists>kid. claim_string (TokenHeader token) ''kid'' = Some kid \<and> kid \<noteq> []
        \<and> (if HasPrefix (ToUpper (TokenAlg token)) ''ES'' then (kid, key) \<in> set (EcdsaKeys h) \<and> is_ec key
           else (kid, key) \<in> set (RsaKeys h) \<and> is_rsa key))"
  using assms by (rule Keyfunc_key)

theorem Keyfunc_sound_witness:
  "Keyfunc (Jwks sample_toa) \<lparr>TokenAlg = ''RS256'', TokenHeader = [(''kid'', JStr ''k1'')]\<rparr> = Ok (RsaPublicKey 15 3)
   \<and> is_rsa (RsaPublicKey 15 3)"
proof -
  have u: "ToUpper ''RS256'' = ''RS256''" by code_simp
  have k: "Keyfunc (Jwks sample_toa) \<lparr>TokenAlg = ''RS256'', TokenHeader = [(''kid'', JStr ''k1'')]\<rparr> = Ok (RsaPublicKey 15 3)"
    by (simp add: Keyfunc_def isAlgorithmAllowed_def u allowedAlgorithms_def claim_string_def getRsaKey_def
        find_key_def sample_toa_def new_jwks_def)
  from k Keyfunc_sound [OF sample_jwks_wf k] show ?thesis by simp
qed

end
