(* ===== verification/Forwarded.thy ===== *)
theory Forwarded
  imports JwksCache
begin

text \<open>
  The part of \<open>src/main.go\<close> that decides where a request came from and which route it is
  for: trusted proxies, the scheme and host of absolute URLs, the callback URL and the
  matching of configured routes. All of it is a function of the configuration and the
  request; \<open>E\<close> supplies \<open>net.ParseIP\<close>.
\<close>

section \<open>The peer\<close>

text \<open>\<open>net.SplitHostPort\<close>; \<open>None\<close> for each of its errors.\<close>

definition SplitHostPort :: "string \<Rightarrow> (string \<times> string) option" where
  "SplitHostPort hp =
     (case LastIndexChar hp CHR '':'' of
        None \<Rightarrow> None
      | Some i \<Rightarrow>
          if hd hp = CHR ''[''
          then (case Index hp '']'' of
                  None \<Rightarrow> None
                | Some e \<Rightarrow>
                    if e + 1 \<noteq> i then None
                    else if CHR ''['' \<in> set (drop 1 hp) \<or> CHR '']'' \<in> set (drop (e + 1) hp) then None
                    else Some (take (e - 1) (drop 1 hp), drop (i + 1) hp))
          else if CHR '':'' \<in> set (take i hp) \<or> CHR ''['' \<in> set hp \<or> CHR '']'' \<in> set hp then None
          else Some (take i hp, drop (i + 1) hp))"

definition peerIP :: "'w env \<Rightarrow> string \<Rightarrow> ip option" where
  "peerIP E remoteAddr0 =
     (if remoteAddr0 = [] then None
      else
        (let remoteAddr1 = (case SplitHostPort remoteAddr0 of None \<Rightarrow> remoteAddr0 | Some (host, _) \<Rightarrow> host);
             remoteAddr2 = TrimSuffix (TrimPrefix remoteAddr1 ''['') '']'';
             remoteAddr3 = (case LastIndexChar remoteAddr2 CHR ''%'' of
                              None \<Rightarrow> remoteAddr2
                            | Some zone \<Rightarrow> if 0 < zone then take zone remoteAddr2 else remoteAddr2)
         in ParseIP E remoteAddr3))"

definition requestFromTrustedProxy :: "'w env \<Rightarrow> Config \<Rightarrow> request \<Rightarrow> bool" where
  "requestFromTrustedProxy E cfg req =
     (if TrustedProxyNets cfg = [] then False
      else case peerIP E (RemoteAddr req) of
             None \<Rightarrow> False
           | Some ip \<Rightarrow> list_ex (\<lambda>network. IPNet_Contains network ip) (TrustedProxyNets cfg))"

section \<open>Scheme and host\<close>

definition validForwardedProto :: "string \<Rightarrow> bool" where
  "validForwardedProto proto \<longleftrightarrow> proto \<in> {''http'', ''https'', ''ws'', ''wss''}"

definition lastForwardedValue :: "string \<Rightarrow> string" where
  "lastForwardedValue v0 =
     (let v = TrimSpace v0
      in case LastIndexChar v CHR '','' of None \<Rightarrow> v | Some i \<Rightarrow> TrimSpace (drop (i + 1) v))"

definition requestScheme :: "'w env \<Rightarrow> Config \<Rightarrow> request \<Rightarrow> string" where
  "requestScheme E cfg req =
     (let proto = lastForwardedValue (Header_Get (Header req) ''X-Forwarded-Proto'')
      in if requestFromTrustedProxy E cfg req \<and> proto \<noteq> [] \<and> validForwardedProto proto then proto
         else if TLS req then ''https'' else ''http'')"

definition requestHost :: "'w env \<Rightarrow> Config \<Rightarrow> request \<Rightarrow> string" where
  "requestHost E cfg req =
     (let host = lastForwardedValue (Header_Get (Header req) ''X-Forwarded-Host'')
      in if requestFromTrustedProxy E cfg req \<and> host \<noteq> [] then host else Host req)"

definition fullHost :: "'w env \<Rightarrow> Config \<Rightarrow> request \<Rightarrow> string" where
  "fullHost E cfg req = requestScheme E cfg req @ ''://'' @ requestHost E cfg req"

definition ensureAbsoluteUrl :: "'w env \<Rightarrow> Config \<Rightarrow> request \<Rightarrow> string \<Rightarrow> string" where
  "ensureAbsoluteUrl E cfg req rawUrl =
     (if HasPrefix rawUrl ''http://'' \<or> HasPrefix rawUrl ''https://'' then rawUrl
      else fullHost E cfg req @ (if \<not> HasPrefix rawUrl ''/'' then ''/'' @ rawUrl else rawUrl))"

definition GetAbsoluteCallbackURL :: "'w env \<Rightarrow> Config \<Rightarrow> url \<Rightarrow> request \<Rightarrow> url" where
  "GetAbsoluteCallbackURL E cfg callbackURL req =
     (if UrlIsAbsolute callbackURL then callbackURL
      else callbackURL\<lparr>Scheme := requestScheme E cfg req, UHost := requestHost E cfg req\<rparr>)"

section \<open>Routes\<close>

definition pathMatchesRoute :: "string \<Rightarrow> string \<Rightarrow> bool" where
  "pathMatchesRoute requestPath route =
     (if route = [] then False
      else
        (let trimmed0 = TrimSuffix route ''/''; trimmed = (if trimmed0 = [] then ''/'' else trimmed0)
         in if requestPath = route \<or> requestPath = trimmed then True
            else if trimmed = ''/'' then False
            else HasPrefix requestPath (trimmed @ ''/'')))"

definition pathMatchesConfiguredRoute :: "request \<Rightarrow> string \<Rightarrow> bool" where
  "pathMatchesConfiguredRoute req route = pathMatchesRoute (Path (URL req)) route"

definition isCallbackRequest :: "'w env \<Rightarrow> Config \<Rightarrow> url \<Rightarrow> request \<Rightarrow> bool" where
  "isCallbackRequest E cfg callbackURL req =
     (if \<not> pathMatchesRoute (Path (URL req)) (Path callbackURL) then False
      else if UrlIsAbsolute callbackURL
              \<and> (requestScheme E cfg req \<noteq> Scheme callbackURL \<or> requestHost E cfg req \<noteq> UHost callbackURL)
      then False
      else True)"

section \<open>Properties\<close>

text \<open>
  A client that does not connect through a trusted proxy has no influence on the
  absolute URLs: two requests from the same untrusted peer that differ only in their
  headers get the same scheme, host, callback URL and callback decision.
\<close>

theorem untrusted_headers_ignored:
  assumes "\<not> requestFromTrustedProxy E cfg req"
  shows "fullHost E cfg (req\<lparr>Header := h\<rparr>) = fullHost E cfg req
    \<and> ensureAbsoluteUrl E cfg (req\<lparr>Header := h\<rparr>) u = ensureAbsoluteUrl E cfg req u
    \<and> GetAbsoluteCallbackURL E cfg cb (req\<lparr>Header := h\<rparr>) = GetAbsoluteCallbackURL E cfg cb req
    \<and> isCallbackRequest E cfg cb (req\<lparr>Header := h\<rparr>) = isCallbackRequest E cfg cb req
    \<and> fullHost E cfg req = (if TLS req then ''https'' else ''http'') @ ''://'' @ Host req"
proof -
  have "\<not> requestFromTrustedProxy E cfg (req\<lparr>Header := h\<rparr>)"
    using assms by (auto simp: requestFromTrustedProxy_def split: if_splits)
  with assms have "requestScheme E cfg (req\<lparr>Header := h\<rparr>) = requestScheme E cfg req"
    "requestHost E cfg (req\<lparr>Header := h\<rparr>) = requestHost E cfg req"
    "requestScheme E cfg req = (if TLS req then ''https'' else ''http'')" "requestHost E cfg req = Host req"
    by (simp_all add: requestScheme_def requestHost_def)
  then show ?thesis
    by (simp add: fullHost_def ensureAbsoluteUrl_def GetAbsoluteCallbackURL_def isCallbackRequest_def)
qed

theorem untrusted_headers_ignored_witness:
  "fullHost dead_env CreateConfig (html_request\<lparr>Header := (\<lambda>_. [''evil.example''])\<rparr>) = ''http://app.example''"
proof -
  have "\<not> requestFromTrustedProxy dead_env CreateConfig html_request"
    by (simp add: requestFromTrustedProxy_def CreateConfig_def)
  from untrusted_headers_ignored [OF this, of "\<lambda>_. [''evil.example'']"] show ?thesis by (simp add: html_request_def)
qed

lemma LastIndexChar_append:
  "c \<notin> set v \<Longrightarrow> LastIndexChar (u @ c # v) c = Some (length u)"
  by (induction u) (auto simp: LastIndexChar_None [THEN iffD2])

lemma TrimSpace_append:
  assumes "v \<noteq> []" "\<not> is_space (last v)"
  shows "TrimSpace (u @ v) = (if \<forall>c \<in> set u. is_space c then TrimSpace v else dropWhile is_space u @ v)"
proof -
  have r: "rev v \<noteq> []" "\<not> is_space (hd (rev v))" using assms by (simp_all add: hd_rev)
  then have k: "dropWhile is_space (rev v @ x) = rev v @ x" for x by (cases "rev v") auto
  show ?thesis using k [of "[]"] k [of "rev (dropWhile is_space u)"]
    by (auto simp: TrimSpace_def dropWhile_append)
qed

text \<open>
  Behind a trusted proxy that appends to \<open>X-Forwarded-Host\<close>, only the proxy's own entry
  counts: whatever the client put in front of it is ignored.
\<close>

theorem requestHost_rightmost:
  assumes "requestFromTrustedProxy E cfg req" "host \<noteq> []" "CHR '','' \<notin> set host"
    and "\<forall>c \<in> set host. \<not> is_space c"
    and "Header_Get (Header req) ''X-Forwarded-Host'' = client @ '', '' @ host"
  shows "requestHost E cfg req = host"
proof -
  let ?v = "client @ '', '' @ host"
  have nsp: "\<not> is_space CHR '',''" "is_space CHR '' ''" by (simp_all add: is_space_def)
  have last: "\<not> is_space (last host)" using assms(2,4) by simp
  have "dropWhile is_space host = host" "dropWhile is_space (rev host) = rev host"
    using assms(2,4) by (simp_all add: dropWhile_eq_self_iff hd_rev)
  then have "TrimSpace host = host" by (simp add: TrimSpace_def)
  then have tr: "TrimSpace (CHR '' '' # host) = host"
    using TrimSpace_append [OF assms(2) last, of "'' ''"] nsp by simp
  have "TrimSpace ?v = dropWhile is_space (client @ '','') @ (CHR '' '' # host)"
    using TrimSpace_append [of "CHR '' '' # host" "client @ '',''"] assms(2) last nsp by auto
  moreover obtain u where "dropWhile is_space (client @ '','') = u @ '',''"
    using nsp by (cases "\<forall>c \<in> set client. is_space c") (auto simp: dropWhile_append)
  ultimately have "TrimSpace ?v = u @ CHR '','' # CHR '' '' # host" by simp
  then have "lastForwardedValue ?v = host"
    using assms(3) tr LastIndexChar_append [of "CHR '',''" "CHR '' '' # host" u]
    by (simp add: lastForwardedValue_def)
  with assms(1,2,5) show ?thesis by (simp add: requestHost_def)
qed

definition proxy_env :: "unit env" where
  "proxy_env = dead_env\<lparr>ParseIP := (\<lambda>s. if s = ''10.0.0.1'' then Some [10, 0, 0, 1] else None)\<rparr>"

definition proxy_config :: Config where
  "proxy_config = CreateConfig\<lparr>TrustedProxyNets := [\<lparr>NetIP = [10, 0, 0, 0], NetMask = [255, 0, 0, 0]\<rparr>]\<rparr>"

lemma proxy_trusted:
  "RemoteAddr req = ''10.0.0.1:4711'' \<Longrightarrow> requestFromTrustedProxy proxy_env proxy_config req"
  by (simp add: requestFromTrustedProxy_def proxy_config_def proxy_env_def peerIP_def SplitHostPort_def
      TrimPrefix_def TrimSuffix_def HasPrefix_def HasSuffix_def suffix_def IPNet_Contains_def networkNumberAndMask_def To4_def
      upt_conv_Cons)

theorem requestHost_rightmost_witness:
  "requestHost proxy_env proxy_config
     (html_request\<lparr>Header := (\<lambda>_. [])(''X-Forwarded-Host'' := [''evil.example, app.example''])\<rparr>) = ''app.example''"
proof -
  have "CanonicalHeaderKey ''X-Forwarded-Host'' = ''X-Forwarded-Host''" by code_simp
  then show ?thesis
    by (intro requestHost_rightmost [where client = "''evil.example''"] proxy_trusted)
      (simp_all add: html_request_def Header_Get_def is_space_def)
qed

lemma SplitChar_append_segment: "SplitChar sep (a @ sep # b) = SplitChar sep a @ SplitChar sep b"
  by (induction a) (auto split: list.splits)

lemma SplitChar_inj: "SplitChar sep a = SplitChar sep b \<Longrightarrow> a = b"
  by (metis SplitChar_Join)

lemma Join_append_segment: "xs \<noteq> [] \<Longrightarrow> ys \<noteq> [] \<Longrightarrow> Join (xs @ ys) [sep] = Join xs [sep] @ sep # Join ys [sep]"
proof (induction xs)
  case (Cons x xs)
  then show ?case by (cases xs; cases ys) auto
qed simp

lemma prefix_SplitChar:
  "prefix (SplitChar sep r) (SplitChar sep p) \<longleftrightarrow> p = r \<or> prefix (r @ [sep]) p"
proof
  assume "prefix (SplitChar sep r) (SplitChar sep p)"
  then obtain rest where rest: "SplitChar sep p = SplitChar sep r @ rest" by (auto elim: prefixE)
  show "p = r \<or> prefix (r @ [sep]) p"
  proof (cases "rest = []")
    case True
    with rest show ?thesis using SplitChar_inj by force
  next
    case False
    have "p = Join (SplitChar sep r @ rest) [sep]" using rest SplitChar_Join [of sep p] by simp
    with False show ?thesis by (simp add: Join_append_segment SplitChar_Join)
  qed
next
  assume "p = r \<or> prefix (r @ [sep]) p"
  then show "prefix (SplitChar sep r) (SplitChar sep p)"
    by (auto simp: SplitChar_append_segment elim!: prefixE)
qed

text \<open>
  A route matches whole path segments, never a bare prefix: for a route that does not end
  in a slash, a path matches exactly when the route's segments are its first segments.
\<close>

theorem pathMatchesRoute_segments:
  assumes "route \<noteq> []" "last route \<noteq> CHR ''/''"
  shows "pathMatchesRoute p route \<longleftrightarrow> prefix (SplitChar CHR ''/'' route) (SplitChar CHR ''/'' p)"
proof -
  have "\<not> suffix ''/'' route" using assms(2) by (auto simp: suffix_def)
  then have "TrimSuffix route ''/'' = route" by (simp add: TrimSuffix_def HasSuffix_def)
  moreover have "route \<noteq> ''/''" using assms(2) by auto
  ultimately show ?thesis
    using assms(1) by (simp add: pathMatchesRoute_def prefix_SplitChar HasPrefix_def)
qed

theorem pathMatchesRoute_segments_witness:
  "pathMatchesRoute ''/logout/now'' ''/logout'' \<and> \<not> pathMatchesRoute ''/logout-history'' ''/logout''"
  using pathMatchesRoute_segments [of "''/logout''" "''/logout/now''"]
    pathMatchesRoute_segments [of "''/logout''" "''/logout-history''"] by simp

end
