(* ===== verification/Oidc.thy ===== *)
theory Oidc
  imports Forwarded
begin

text \<open>
  \<open>src/oidc.go\<close> and \<open>src/oidc/types.go\<close>: the calls to the identity provider (discovery, code
  exchange, renewal, introspection, revocation, user info), local token validation with one
  forced key reload, and the functions on claims. A call that returns
  \<open>(bool, claims, error)\<close> is a result of a pair; the contexts and their deadlines only
  bound how long a call may take and do not appear.
\<close>

section \<open>Time\<close>

text \<open>\<open>time.Duration(n) * time.Second\<close> wraps; \<open>Time.Sub\<close> saturates.\<close>

definition seconds_dur :: "int \<Rightarrow> int" where
  "seconds_dur n = wrap64 (n * Second)"

definition time_sub :: "int \<Rightarrow> int \<Rightarrow> int" where
  "time_sub a b = max (- (2 ^ 63)) (min (2 ^ 63 - 1) (a - b))"

definition time_Unix :: "int \<Rightarrow> int" where
  "time_Unix sec = (sec + 62135596800) * Second"

definition unix_of :: "int \<Rightarrow> int" where
  "unix_of t = t div Second - 62135596800"

definition defaultOidcTimeout :: int where
  "defaultOidcTimeout = 30 * Second"

definition oidcTimeout :: "Config \<Rightarrow> int" where
  "oidcTimeout cfg =
     (if OidcTimeoutSeconds (Provider cfg) \<le> 0 then defaultOidcTimeout
      else seconds_dur (OidcTimeoutSeconds (Provider cfg)))"

section \<open>Error bodies\<close>

definition maxOidcResponseBody :: nat where
  "maxOidcResponseBody = 1048576"

definition maxIdcErrorBody :: nat where
  "maxIdcErrorBody = 512"

definition scrubSecret :: "string \<Rightarrow> string \<Rightarrow> string" where
  "scrubSecret body secret = (if secret = [] then body else ReplaceAll body secret ''[REDACTED]'')"

definition capIdcErrorBody :: "'w env \<Rightarrow> Config \<Rightarrow> string \<Rightarrow> string" where
  "capIdcErrorBody E cfg body0 =
     (let body1 = scrubSecret body0 (ClientSecret (Provider cfg));
          body2 = scrubSecret body1 (ClientId (Provider cfg));
          body = Redact E body2
      in if maxIdcErrorBody < length body then take maxIdcErrorBody body @ ''...(truncated)'' else body)"

section \<open>Discovery\<close>

text \<open>\<open>path.Clean\<close> on the segments of a path.\<close>

fun clean_step :: "bool \<Rightarrow> string list \<Rightarrow> string \<Rightarrow> string list" where
  "clean_step rooted stack seg =
     (if seg = [] \<or> seg = ''.'' then stack
      else if seg = ''..''
      then (if stack \<noteq> [] \<and> last stack \<noteq> ''..'' then butlast stack
            else if rooted then stack else stack @ [seg])
      else stack @ [seg])"

definition path_Clean :: "string \<Rightarrow> string" where
  "path_Clean p =
     (if p = [] then ''.''
      else
        (let rooted = HasPrefix p ''/''; segs = foldl (clean_step rooted) [] (SplitChar CHR ''/'' p);
             out = (if rooted then ''/'' else []) @ Join segs ''/''
         in if out = [] then ''.'' else out))"

definition path_Join :: "string \<Rightarrow> string \<Rightarrow> string" where
  "path_Join a b =
     (if a = [] \<and> b = [] then []
      else path_Clean (if a = [] then b else if b = [] then a else a @ ''/'' @ b))"

text \<open>
  The fields that nothing reads are only checked for their type, as the decoder does.
\<close>

fun string_or_null :: "json \<Rightarrow> bool" where
  "string_or_null JNull = True"
| "string_or_null (JStr _) = True"
| "string_or_null _ = False"

fun chk_strings :: "json \<Rightarrow> 'r \<Rightarrow> 'r option" where
  "chk_strings JNull r = Some r"
| "chk_strings (JArr vs) r = (if list_all string_or_null vs then Some r else None)"
| "chk_strings _ r = None"

definition zero_discovery :: OidcDiscovery where
  "zero_discovery = \<lparr>AuthorizationEndpoint = [], EndSessionEndpoint = [], IntrospectionEndpoint = [], Issuer = [],
     JWKSURI = [], RevocationEndpoint = [], TokenEndpoint = [], UserinfoEndpoint = []\<rparr>"

definition string_list_fields :: "string list" where
  "string_list_fields =
     [''acr_values_supported'', ''authorization_encryption_alg_values_supported'',
      ''authorization_encryption_enc_values_supported'', ''authorization_signing_alg_values_supported'',
      ''backchannel_authentication_request_signing_alg_values_supported'',
      ''backchannel_token_delivery_modes_supported'', ''claims_supported'', ''claim_types_supported'',
      ''code_challenge_methods_supported'', ''display_values_supported'', ''grant_types_supported'',
      ''id_token_encryption_alg_values_supported'', ''id_token_encryption_enc_values_supported'',
      ''id_token_signing_alg_values_supported'', ''introspection_endpoint_auth_methods_supported'',
      ''introspection_endpoint_auth_signing_alg_values_supported'',
      ''request_object_encryption_alg_values_supported'', ''request_object_encryption_enc_values_supported'',
      ''request_object_signing_alg_values_supported'', ''response_modes_supported'', ''response_types_supported'',
      ''revocation_endpoint_auth_methods_supported'', ''revocation_endpoint_auth_signing_alg_values_supported'',
      ''scopes_supported'', ''subject_types_supported'', ''token_endpoint_auth_methods_supported'',
      ''token_endpoint_auth_signing_alg_values_supported'', ''userinfo_encryption_alg_values_supported'',
      ''userinfo_encryption_enc_values_supported'', ''userinfo_signing_alg_values_supported'']"

definition bool_fields :: "string list" where
  "bool_fields =
     [''backchannel_logout_session_supported'', ''backchannel_logout_supported'', ''claims_parameter_supported'',
      ''frontchannel_logout_session_supported'', ''frontchannel_logout_supported'', ''http_logout_supported'',
      ''request_parameter_supported'', ''request_uri_parameter_supported'', ''require_pushed_authorization_requests'',
      ''require_request_uri_registration'', ''tls_client_certificate_bound_access_tokens'']"

definition string_fields :: "string list" where
  "string_fields = [''backchannel_authentication_endpoint'', ''check_session_iframe'', ''device_authorization_endpoint'',
     ''pushed_authorization_request_endpoint'', ''registration_endpoint'']"

definition discovery_fields :: "OidcDiscovery field list" where
  "discovery_fields =
     [(''authorization_endpoint'', dec_string (\<lambda>v d. d\<lparr>AuthorizationEndpoint := v\<rparr>)),
      (''end_session_endpoint'', dec_string (\<lambda>v d. d\<lparr>EndSessionEndpoint := v\<rparr>)),
      (''introspection_endpoint'', dec_string (\<lambda>v d. d\<lparr>IntrospectionEndpoint := v\<rparr>)),
      (''issuer'', dec_string (\<lambda>v d. d\<lparr>Issuer := v\<rparr>)),
      (''jwks_uri'', dec_string (\<lambda>v d. d\<lparr>JWKSURI := v\<rparr>)),
      (''revocation_endpoint'', dec_string (\<lambda>v d. d\<lparr>RevocationEndpoint := v\<rparr>)),
      (''token_endpoint'', dec_string (\<lambda>v d. d\<lparr>TokenEndpoint := v\<rparr>)),
      (''userinfo_endpoint'', dec_string (\<lambda>v d. d\<lparr>UserinfoEndpoint := v\<rparr>))]
     @ map (\<lambda>k. (k, chk_strings)) string_list_fields
     @ map (\<lambda>k. (k, dec_bool (\<lambda>_ d. d))) bool_fields
     @ map (\<lambda>k. (k, dec_string (\<lambda>_ d. d))) string_fields"

definition GetOidcDiscoveryContext :: "'w env \<Rightarrow> url \<Rightarrow> ('w, OidcDiscovery result) m" where
  "GetOidcDiscoveryContext E providerUrl =
     (let wellKnownUrl = providerUrl\<lparr>Path := path_Join (Path providerUrl) ''.well-known/openid-configuration''\<rparr>
      in do {
        r \<leftarrow> send E \<lparr>OutMethod = ''GET'', OutUrl = UrlString (UrlOps E) wellKnownUrl, OutBody = [], OutHeader = [],
                    BasicAuth = None\<rparr>;
        return
          (case r of
             Inl e \<Rightarrow> Err ''HTTP GET error''
           | Inr resp \<Rightarrow>
               if 300 \<le> StatusCode resp then Err (''HTTP error - Status code: '' @ Itoa (StatusCode resp))
               else (case Option.bind (json_first (JsonText E) (take maxOidcResponseBody (Body resp)))
                            (\<lambda>j. decode_struct discovery_fields j zero_discovery) of
                       None \<Rightarrow> Err ''failed to decode OIDC discovery document''
                     | Some document \<Rightarrow> Ok document))
      })"

section \<open>Client authentication\<close>

definition randomBytesInHex :: "'w env \<Rightarrow> nat \<Rightarrow> ('w, string result) m" where
  "randomBytesInHex E count = do {
     b \<leftarrow> outside (RandRead E count);
     return (case b of None \<Rightarrow> Err ''could not generate random bytes'' | Some bs \<Rightarrow> Ok (hex_encode bs))
   }"

definition getClientAssertionJwtToken :: "'w env \<Rightarrow> string \<Rightarrow> ('w, string result) m" where
  "getClientAssertionJwtToken E key = do {
     p \<leftarrow> prov (\<lambda>p. p);
     iat \<leftarrow> outside (Now E);
     t \<leftarrow> outside (Now E);
     return (SignRS256 (JwtOps E) (ClientJwtPrivateKeyId p)
       [(''iss'', JStr (ClientId p)), (''sub'', JStr (ClientId p)), (''aud'', JStr (Provider_Url p)),
        (''iat'', JInt (unix_of iat)), (''exp'', JInt (unix_of (t + 5 * Minute)))] key)
   }"

text \<open>The two assertion parameters, added when a private key is configured.\<close>

definition add_assertion :: "'w env \<Rightarrow> values \<Rightarrow> ('w, values result) m" where
  "add_assertion E urlValues = do {
     key \<leftarrow> ask ClientJwtPrivateKey;
     case key of
       None \<Rightarrow> return (Ok urlValues)
     | Some k \<Rightarrow> do {
         tok \<leftarrow> getClientAssertionJwtToken E k;
         return (case tok of
                   Inl e \<Rightarrow> Err e
                 | Inr t \<Rightarrow> Ok (Values_Add ''client_assertion'' t
                     (Values_Add ''client_assertion_type'' ''urn:ietf:params:oauth:client-assertion-type:jwt-bearer''
                       urlValues)))
       }
   }"

definition add_secret :: "ProviderConfig \<Rightarrow> values \<Rightarrow> values" where
  "add_secret p urlValues =
     (if ClientSecret p \<noteq> [] then Values_Add ''client_secret'' (ClientSecret p) urlValues else urlValues)"

section \<open>The token endpoint\<close>

record OidcTokenResponse =
  Tok_AccessToken :: string
  Tok_IdToken :: string
  TokenType :: string
  ExpiresIn :: int
  Tok_RefreshToken :: string

definition token_fields :: "OidcTokenResponse field list" where
  "token_fields =
     [(''access_token'', dec_string (\<lambda>v t. t\<lparr>Tok_AccessToken := v\<rparr>)),
      (''id_token'', dec_string (\<lambda>v t. t\<lparr>Tok_IdToken := v\<rparr>)),
      (''token_type'', dec_string (\<lambda>v t. t\<lparr>TokenType := v\<rparr>)),
      (''expires_in'', dec_int (\<lambda>v t. t\<lparr>ExpiresIn := v\<rparr>)),
      (''refresh_token'', dec_string (\<lambda>v t. t\<lparr>Tok_RefreshToken := v\<rparr>))]"

definition zero_token :: OidcTokenResponse where
  "zero_token = \<lparr>Tok_AccessToken = [], Tok_IdToken = [], TokenType = [], ExpiresIn = 0, Tok_RefreshToken = []\<rparr>"

definition form_header :: "(string \<times> string) list" where
  "form_header = [(''Content-Type'', ''application/x-www-form-urlencoded'')]"

text \<open>A body of at most \<open>maxOidcResponseBody\<close> bytes, read as one JSON text.\<close>

definition read_json :: "'w env \<Rightarrow> error \<Rightarrow> http_resp \<Rightarrow> json result" where
  "read_json E too_large resp =
     (case read_limited (maxOidcResponseBody + 1) resp of
        Inl e \<Rightarrow> Err e
      | Inr body \<Rightarrow>
          if maxOidcResponseBody < length body then Err too_large
          else (case json_parse (JsonText E) body of None \<Rightarrow> Err ''invalid JSON'' | Some j \<Rightarrow> Ok j))"

definition postFormToTokenEndpoint :: "'w env \<Rightarrow> values \<Rightarrow> ('w, OidcTokenResponse result) m" where
  "postFormToTokenEndpoint E urlValues = do {
     doc \<leftarrow> ask DiscoveryDocument;
     case doc of
       None \<Rightarrow> return (Err ''token_endpoint is not set'')
     | Some d \<Rightarrow>
         if TokenEndpoint d = [] then return (Err ''token_endpoint is not set'')
         else do {
           r \<leftarrow> send E \<lparr>OutMethod = ''POST'', OutUrl = TokenEndpoint d, OutBody = Values_Encode urlValues,
                       OutHeader = form_header, BasicAuth = None\<rparr>;
           return
             (case r of
                Inl e \<Rightarrow> Err e
              | Inr resp \<Rightarrow>
                  if StatusCode resp \<noteq> 200 then Err ''invalid status code''
                  else (case read_json E ''token response too large'' resp of
                          Inl e \<Rightarrow> Err e
                        | Inr j \<Rightarrow>
                            (case decode_struct token_fields j zero_token of
                               None \<Rightarrow> Err ''json: cannot unmarshal into OidcTokenResponse''
                             | Some t \<Rightarrow> Ok t)))
         }
   }"

text \<open>The form of a code exchange before the secret, an assertion and the verifier are added.\<close>

definition exchange_values :: "'w env \<Rightarrow> Config \<Rightarrow> url \<Rightarrow> request \<Rightarrow> string \<Rightarrow> values" where
  "exchange_values E cfg cb req authCode =
     (let redirectUrl = UrlString (UrlOps E) (GetAbsoluteCallbackURL E cfg cb req)
      in [(''grant_type'', [''authorization_code'']), (''client_id'', [ClientId (Provider cfg)]),
          (''code'', [authCode]), (''redirect_uri'', [redirectUrl]), (''resource'', RequestedResources cfg)])"

definition exchangeAuthCode :: "'w env \<Rightarrow> string \<Rightarrow> string \<Rightarrow> ('w, OidcTokenResponse result) m" where
  "exchangeAuthCode E authCode codeVerifierEnc = do {
     cfg \<leftarrow> ask Config;
     cb \<leftarrow> ask CallbackURL;
     req \<leftarrow> ask Req;
     let urlValues = exchange_values E cfg cb req authCode;
     v1 \<leftarrow> add_assertion E (add_secret (Provider cfg) urlValues);
     case v1 of
       Inl e \<Rightarrow> return (Err e)
     | Inr v \<Rightarrow>
         if UsePkceBool (Provider cfg)
         then if codeVerifierEnc = [] then return (Err ''missing PKCE code verifier in state'')
              else (case Decrypt (Aead E) codeVerifierEnc (Secret cfg) of
                      Inl e \<Rightarrow> return (Err e)
                    | Inr codeVerifier \<Rightarrow> postFormToTokenEndpoint E (Values_Add ''code_verifier'' codeVerifier v))
         else postFormToTokenEndpoint E v
   }"

definition renewToken :: "'w env \<Rightarrow> string \<Rightarrow> ('w, OidcTokenResponse result) m" where
  "renewToken E refreshToken = do {
     cfg \<leftarrow> ask Config;
     let urlValues = [(''grant_type'', [''refresh_token'']), (''client_id'', [ClientId (Provider cfg)]),
       (''scope'', [Join (Scopes cfg) '' '']), (''refresh_token'', [refreshToken]),
       (''resources'', RequestedResources cfg)];
     v1 \<leftarrow> add_assertion E (add_secret (Provider cfg) urlValues);
     case v1 of Inl e \<Rightarrow> return (Err e) | Inr v \<Rightarrow> postFormToTokenEndpoint E v
   }"

section \<open>Local validation\<close>

definition isTokenExpiredError :: "error \<Rightarrow> bool" where
  "isTokenExpiredError err \<longleftrightarrow> Contains err ErrTokenExpired"

definition parse_once :: "'w env \<Rightarrow> jwt_options \<Rightarrow> string \<Rightarrow> ('w, claims result) m" where
  "parse_once E options tokenString = do {
     now \<leftarrow> outside (Now E);
     h \<leftarrow> ask Jwks;
     return (ParseWithClaims (JwtOps E) (JsonText E) options now tokenString (Keyfunc h))
   }"

definition parseJwtWithJwksRetry :: "'w env \<Rightarrow> string \<Rightarrow> jwt_options \<Rightarrow> ('w, claims result) m" where
  "parseJwtWithJwksRetry E tokenString options = do {
     e1 \<leftarrow> EnsureLoadedContext E False;
     case e1 of
       Some e \<Rightarrow> return (Err e)
     | None \<Rightarrow> do {
         r \<leftarrow> parse_once E options tokenString;
         case r of
           Inr claims \<Rightarrow> return (Ok claims)
         | Inl err \<Rightarrow>
             if isTokenExpiredError err then return (Err err)
             else do {
               e2 \<leftarrow> EnsureLoadedContext E True;
               case e2 of
                 Some e \<Rightarrow> return (Err e)
               | None \<Rightarrow> parse_once E options tokenString
             }
       }
   }"

definition oidcNonceMatches :: "string \<Rightarrow> string \<Rightarrow> bool" where
  "oidcNonceMatches claimNonce expected \<longleftrightarrow> claimNonce = expected"

definition token_options :: "ProviderConfig \<Rightarrow> jwt_options" where
  "token_options p = no_options\<lparr>
     requireExp := True,
     leeway := seconds_dur (TokenClockSkewSeconds p),
     validMethods := AllowedAlgorithms,
     expectedIss := (if ValidateIssuerBool p then ValidIssuer p else []),
     expectedAud := (if ValidateAudienceBool p then [ValidAudience p] else [])\<rparr>"

definition validateTokenLocally :: "'w env \<Rightarrow> string \<Rightarrow> string \<Rightarrow> ('w, claims result) m" where
  "validateTokenLocally E tokenString expectedNonce = do {
     p \<leftarrow> prov (\<lambda>p. p);
     r \<leftarrow> parseJwtWithJwksRetry E tokenString (token_options p);
     return
       (case r of
          Inl e \<Rightarrow> Err e
        | Inr parsed \<Rightarrow>
            if expectedNonce \<noteq> [] \<and> ValidateNonceBool p
               \<and> \<not> oidcNonceMatches (case claim_string parsed ''nonce'' of None \<Rightarrow> [] | Some n \<Rightarrow> n) expectedNonce
            then Err ''oidc nonce mismatch''
            else Ok parsed)
   }"

section \<open>Introspection and revocation\<close>

definition introspectToken :: "'w env \<Rightarrow> string \<Rightarrow> ('w, (bool \<times> claims) result) m" where
  "introspectToken E token = do {
     doc \<leftarrow> ask DiscoveryDocument;
     p \<leftarrow> prov (\<lambda>p. p);
     case doc of
       None \<Rightarrow> return (Err ''introspection_endpoint is not set'')
     | Some d \<Rightarrow>
         if IntrospectionEndpoint d = [] then return (Err ''introspection_endpoint is not set'')
         else do {
           v \<leftarrow> add_assertion E [(''token'', [token])];
           case v of
             Inl e \<Rightarrow> return (Err e)
           | Inr data \<Rightarrow> do {
               r \<leftarrow> send E \<lparr>OutMethod = ''POST'', OutUrl = IntrospectionEndpoint d, OutBody = Values_Encode data,
                           OutHeader = form_header, BasicAuth = Some (ClientId p, ClientSecret p)\<rparr>;
               return
                 (case r of
                    Inl e \<Rightarrow> Err e
                  | Inr resp \<Rightarrow>
                      if StatusCode resp \<noteq> 200
                      then Err (''introspection returned status '' @ Itoa (StatusCode resp))
                      else (case read_json E ''introspection response too large'' resp of
                              Inl e \<Rightarrow> Err e
                            | Inr j \<Rightarrow>
                                (case claims_of j of
                                   None \<Rightarrow> Err ''json: cannot unmarshal introspection response''
                                 | Some c \<Rightarrow>
                                     (case map_of c ''active'' of
                                        Some (JBool active) \<Rightarrow> Ok (active, c)
                                      | _ \<Rightarrow> Err ''received invalid introspection response''))))
             }
         }
   }"

definition revokeToken :: "'w env \<Rightarrow> string \<Rightarrow> ('w, error option) m" where
  "revokeToken E refreshToken = do {
     cfg \<leftarrow> ask Config;
     doc \<leftarrow> ask DiscoveryDocument;
     key \<leftarrow> ask ClientJwtPrivateKey;
     if \<not> RevokeTokensOnLogoutBool (Provider cfg) then return None
     else case doc of
       None \<Rightarrow> return None
     | Some d \<Rightarrow>
         if RevocationEndpoint d = [] \<or> refreshToken = [] then return None
         else do {
           v \<leftarrow> (case key of
                  Some _ \<Rightarrow> add_assertion E [(''token'', [refreshToken]), (''token_type_hint'', [''refresh_token''])]
                | None \<Rightarrow> return
                    (if ClientSecret (Provider cfg) = []
                     then Err ''cannot revoke token: neither client assertion key nor client secret is configured''
                     else Ok [(''token'', [refreshToken]), (''token_type_hint'', [''refresh_token''])]));
           case v of
             Inl e \<Rightarrow> return (Some e)
           | Inr data1 \<Rightarrow> do {
               let data2 = Values_Add ''client_id'' (ClientId (Provider cfg)) data1;
               let data = (if key = None then Values_Add ''client_secret'' (ClientSecret (Provider cfg)) data2 else data2);
               r \<leftarrow> send E \<lparr>OutMethod = ''POST'', OutUrl = RevocationEndpoint d, OutBody = Values_Encode data,
                           OutHeader = form_header, BasicAuth = None\<rparr>;
               return
                 (case r of
                    Inl e \<Rightarrow> Some e
                  | Inr resp \<Rightarrow>
                      if StatusCode resp \<noteq> 200 \<and> StatusCode resp \<noteq> 204
                      then Some (''revocation returned status '' @ Itoa (StatusCode resp) @ '': ''
                             @ capIdcErrorBody E cfg (take maxOidcResponseBody (Body resp)))
                      else None)
             }
         }
   }"

section \<open>User info\<close>

definition userinfo_options :: "ProviderConfig \<Rightarrow> jwt_options" where
  "userinfo_options p = no_options\<lparr>
     leeway := seconds_dur (TokenClockSkewSeconds p),
     validMethods := AllowedAlgorithms,
     expectedIss := (if ValidateIssuerBool p then ValidIssuer p else [])\<rparr>"

text \<open>A response about another subject is discarded: the result has no claims.\<close>

definition check_subject :: "string \<Rightarrow> claims \<Rightarrow> claims" where
  "check_subject idTokenSubject c =
     (case claim_string c ''sub'' of None \<Rightarrow> [] | Some sub \<Rightarrow> if sub \<noteq> idTokenSubject then [] else c)"

definition getUserInfo :: "'w env \<Rightarrow> string \<Rightarrow> string \<Rightarrow> ('w, claims result) m" where
  "getUserInfo E accessToken idTokenSubject = do {
     doc \<leftarrow> ask DiscoveryDocument;
     p \<leftarrow> prov (\<lambda>p. p);
     case doc of
       None \<Rightarrow> return (Err ''userinfo_endpoint is not set'')
     | Some d \<Rightarrow>
         if UserinfoEndpoint d = [] then return (Err ''userinfo_endpoint is not set'')
         else do {
           r \<leftarrow> send E \<lparr>OutMethod = ''GET'', OutUrl = UserinfoEndpoint d, OutBody = [],
                       OutHeader = [(''Authorization'', ''Bearer '' @ accessToken)], BasicAuth = None\<rparr>;
           case r of
             Inl e \<Rightarrow> return (Err e)
           | Inr resp \<Rightarrow>
               if StatusCode resp \<noteq> 200
               then return (Err (if StatusCode resp = 401 then ''token is not valid''
                                 else ''invalid status code: '' @ Itoa (StatusCode resp)))
               else do {
                 let contentType = Header_Get (RespHeader resp) ''Content-Type'';
                 c \<leftarrow> (if HasPrefix contentType ''application/jwt''
                      then (case read_limited (maxOidcResponseBody + 1) resp of
                              Inl e \<Rightarrow> return (Err e)
                            | Inr body \<Rightarrow>
                                if maxOidcResponseBody < length body then return (Err ''userinfo response too large'')
                                else parseJwtWithJwksRetry E body (userinfo_options p))
                      else if HasPrefix contentType ''application/json''
                      then return
                        (case Option.bind (json_first (JsonText E) (take maxOidcResponseBody (Body resp))) claims_of of
                           None \<Rightarrow> Err ''couldn't decode userinfo response'' | Some c \<Rightarrow> Ok c)
                      else return (Err (''unsupported content type: '' @ contentType)));
                 return (case c of Inl e \<Rightarrow> Err e | Inr cl \<Rightarrow> Ok (check_subject idTokenSubject cl))
               }
         }
   }"

section \<open>Claims\<close>

definition authParamsForChallenge :: "Config \<Rightarrow> bool \<Rightarrow> (string \<times> string) list" where
  "authParamsForChallenge cfg isChallenge =
     (if \<not> isChallenge \<or> MaxAuthAgeSeconds (Provider cfg) \<le> 0 then []
      else [(''max_age'', Itoa (MaxAuthAgeSeconds (Provider cfg)))])"

definition authTimeFromClaims :: "'w env \<Rightarrow> claims \<Rightarrow> int option" where
  "authTimeFromClaims E c =
     (case map_of c ''auth_time'' of
        Some (JInt i) \<Rightarrow> Some (time_Unix (FloatSeconds E (JInt i)))
      | Some (JFloat f) \<Rightarrow> Some (time_Unix (FloatSeconds E (JFloat f)))
      | Some (JStr s) \<Rightarrow>
          (case ParseRFC3339 E s of
             Some t \<Rightarrow> Some t
           | None \<Rightarrow> (case Atoi s of Inr seconds \<Rightarrow> Some (time_Unix seconds) | Inl _ \<Rightarrow> None))
      | _ \<Rightarrow> None)"

definition authTimeIsFresh :: "'w env \<Rightarrow> Config \<Rightarrow> claims \<Rightarrow> int \<Rightarrow> bool" where
  "authTimeIsFresh E cfg c now =
     (if MaxAuthAgeSeconds (Provider cfg) \<le> 0 then True
      else case authTimeFromClaims E c of
             None \<Rightarrow> False
           | Some authTime \<Rightarrow> \<not> authTime + seconds_dur (MaxAuthAgeSeconds (Provider cfg)) < now)"

definition protectedClaims :: "string list" where
  "protectedClaims = [''iss'', ''aud'', ''exp'', ''iat'', ''nbf'', ''jti'', ''azp'']"

definition mergeClaims :: "claims \<Rightarrow> claims \<Rightarrow> claims" where
  "mergeClaims tokenClaims userInfoClaims =
     fold (\<lambda>(k, v) m. if k \<in> set protectedClaims then m else AList.update k v m) userInfoClaims tokenClaims"

section \<open>What a call to the provider may change\<close>

text \<open>
  \<open>inner m\<close>: the computation changes the outside and the key cache only, and keeps the cache
  well-formed and at its URL. All calls to the provider are of this kind.
\<close>

definition inner :: "('w, 'a) m \<Rightarrow> bool" where
  "inner m \<longleftrightarrow>
     (\<forall>s. \<exists>w h. snd (run_state m s) = s\<lparr>World := w, Jwks := h\<rparr> \<and> JwksUrl h = JwksUrl (Jwks s)
        \<and> (jwks_wf (Jwks s) \<longrightarrow> jwks_wf h))"

named_theorems inners \<open>introduction rules for inner\<close>

lemma toa_same: "(s :: 'w toa) = s\<lparr>World := World s, Jwks := Jwks s\<rparr>"
  by simp

lemma inner_same: "(\<And>s. snd (run_state m s) = s) \<Longrightarrow> inner m"
  unfolding inner_def using toa_same by metis

lemma inner_return [inners]: "inner (return x)"
  by (rule inner_same) simp

lemma inner_ask [inners]: "inner (ask f)" "inner (conf g)" "inner (prov h)"
  by (rule inner_same, simp)+

lemma inner_outside [inners]: "inner (outside (f :: 'w \<Rightarrow> 'a \<times> 'w))"
  unfolding inner_def
proof
  fix s :: "'w toa"
  obtain x w where "f (World s) = (x, w)" by (cases "f (World s)")
  then show "\<exists>w h. snd (run_state (outside f) s) = s\<lparr>World := w, Jwks := h\<rparr> \<and> JwksUrl h = JwksUrl (Jwks s)
      \<and> (jwks_wf (Jwks s) \<longrightarrow> jwks_wf h)"
    by (intro exI [of _ w] exI [of _ "Jwks s"]) simp
qed

lemma inner_bind [inners]: "inner m \<Longrightarrow> (\<And>x. inner (k x)) \<Longrightarrow> inner (m \<bind> k)"
  unfolding inner_def
proof
  fix s
  assume m: "\<forall>s. \<exists>w h. snd (run_state m s) = s\<lparr>World := w, Jwks := h\<rparr> \<and> JwksUrl h = JwksUrl (Jwks s)
      \<and> (jwks_wf (Jwks s) \<longrightarrow> jwks_wf h)"
    and k: "\<And>x. \<forall>s. \<exists>w h. snd (run_state (k x) s) = s\<lparr>World := w, Jwks := h\<rparr> \<and> JwksUrl h = JwksUrl (Jwks s)
      \<and> (jwks_wf (Jwks s) \<longrightarrow> jwks_wf h)"
  obtain x s1 where r: "run_state m s = (x, s1)" by (cases "run_state m s")
  from m r obtain w1 h1 where 1: "s1 = s\<lparr>World := w1, Jwks := h1\<rparr>" "JwksUrl h1 = JwksUrl (Jwks s)"
    "jwks_wf (Jwks s) \<longrightarrow> jwks_wf h1" by (metis snd_conv)
  from k obtain w2 h2 where "snd (run_state (k x) s1) = s1\<lparr>World := w2, Jwks := h2\<rparr>" "JwksUrl h2 = JwksUrl (Jwks s1)"
    "jwks_wf (Jwks s1) \<longrightarrow> jwks_wf h2" by blast
  with r 1 show "\<exists>w h. snd (run_state (m \<bind> k) s) = s\<lparr>World := w, Jwks := h\<rparr> \<and> JwksUrl h = JwksUrl (Jwks s)
      \<and> (jwks_wf (Jwks s) \<longrightarrow> jwks_wf h)"
    by (intro exI [of _ w2] exI [of _ h2]) simp
qed

lemma inner_if [inners]: "(b \<Longrightarrow> inner m) \<Longrightarrow> (\<not> b \<Longrightarrow> inner m') \<Longrightarrow> inner (if b then m else m')"
  by simp

lemma inner_case_sum [inners]:
  "(\<And>e. x = Inl e \<Longrightarrow> inner (g e)) \<Longrightarrow> (\<And>y. x = Inr y \<Longrightarrow> inner (h y)) \<Longrightarrow> inner (case x of Inl e \<Rightarrow> g e | Inr y \<Rightarrow> h y)"
  by (cases x) simp_all

lemma inner_case_option [inners]:
  "(x = None \<Longrightarrow> inner g) \<Longrightarrow> (\<And>y. x = Some y \<Longrightarrow> inner (h y)) \<Longrightarrow> inner (case x of None \<Rightarrow> g | Some y \<Rightarrow> h y)"
  by (cases x) simp_all

lemma inner_case_prod [inners]: "(\<And>a b. x = (a, b) \<Longrightarrow> inner (g a b)) \<Longrightarrow> inner (case x of (a, b) \<Rightarrow> g a b)"
  by (cases x) simp

lemma inner_let [inners]: "(\<And>y. y = x \<Longrightarrow> inner (g y)) \<Longrightarrow> inner (let y = x in g y)"
  by simp

section \<open>What a call to the provider may reach\<close>

text \<open>
  \<open>reaches E s t\<close>: code that starts in \<open>s\<close> gets to \<open>t\<close> by readings of the clock and the random
  source, requests to the provider and loads of the key cache, and by nothing else; so the
  configuration, the discovery document and the request are those of \<open>s\<close>, and the keys and the
  outside are what became of those of \<open>s\<close>.
\<close>

inductive reaches :: "'w env \<Rightarrow> 'w toa \<Rightarrow> 'w toa \<Rightarrow> bool" for E s where
  here: "reaches E s s"
| clock: "reaches E s t \<Longrightarrow> reaches E s (t\<lparr>World := snd (Now E (World t))\<rparr>)"
| random: "reaches E s t \<Longrightarrow> reaches E s (t\<lparr>World := snd (RandRead E n (World t))\<rparr>)"
| uuid: "reaches E s t \<Longrightarrow> reaches E s (t\<lparr>World := snd (NewUUID E (World t))\<rparr>)"
| http: "reaches E s t \<Longrightarrow> reaches E s (t\<lparr>World := snd (Do E r (World t))\<rparr>)"
| keys: "reaches E s t \<Longrightarrow> reaches E s (snd (run_state (EnsureLoadedContext E force) t))"

lemma reaches_trans: "reaches E t u \<Longrightarrow> reaches E s t \<Longrightarrow> reaches E s u"
  by (induction rule: reaches.induct) (auto intro: reaches.intros)

lemma reaches_frame:
  assumes "reaches E s t"
  obtains w h where "t = s\<lparr>World := w, Jwks := h\<rparr>" "JwksUrl h = JwksUrl (Jwks s)" "jwks_wf (Jwks s) \<Longrightarrow> jwks_wf h"
proof -
  have move: "\<exists>w h. u\<lparr>World := x\<rparr> = s\<lparr>World := w, Jwks := h\<rparr> \<and> JwksUrl h = JwksUrl (Jwks s) \<and> (jwks_wf (Jwks s) \<longrightarrow> jwks_wf h)"
    if "\<exists>w h. u = s\<lparr>World := w, Jwks := h\<rparr> \<and> JwksUrl h = JwksUrl (Jwks s) \<and> (jwks_wf (Jwks s) \<longrightarrow> jwks_wf h)" for u x
  proof -
    from that obtain w h where "u = s\<lparr>World := w, Jwks := h\<rparr>" "JwksUrl h = JwksUrl (Jwks s)" "jwks_wf (Jwks s) \<longrightarrow> jwks_wf h"
      by blast
    then show ?thesis by (intro exI [of _ x] exI [of _ h]) simp
  qed
  from assms have "\<exists>w h. t = s\<lparr>World := w, Jwks := h\<rparr> \<and> JwksUrl h = JwksUrl (Jwks s) \<and> (jwks_wf (Jwks s) \<longrightarrow> jwks_wf h)"
  proof (induction rule: reaches.induct)
    case here
    show ?case by (intro exI [of _ "World s"] exI [of _ "Jwks s"]) simp
  next
    case (keys t force)
    then obtain w h where t: "t = s\<lparr>World := w, Jwks := h\<rparr>" "JwksUrl h = JwksUrl (Jwks s)" "jwks_wf (Jwks s) \<longrightarrow> jwks_wf h"
      by blast
    obtain e t' where r: "run_state (EnsureLoadedContext E force) t = (e, t')"
      by (cases "run_state (EnsureLoadedContext E force) t")
    from EnsureLoadedContext_frame [OF r] obtain w' h' where "t' = t\<lparr>World := w', Jwks := h'\<rparr>"
      "JwksUrl h' = JwksUrl (Jwks t)" by blast
    with r t EnsureLoadedContext_wf [OF r] show ?case by (intro exI [of _ w'] exI [of _ h']) auto
  qed (use move in blast)+
  with that show thesis by blast
qed

lemma reaches_same:
  assumes "reaches E s t"
  shows "Config t = Config s" "Req t = Req s" "Rw t = Rw s" "DiscoveryDocument t = DiscoveryDocument s"
    "ProviderURL t = ProviderURL s" "CallbackURL t = CallbackURL s" "sessionWrites t = sessionWrites s"
  by (rule reaches_frame [OF assms]; simp)+

text \<open>\<open>reading E s s' now\<close>: \<open>now\<close> was read from the clock somewhere between \<open>s\<close> and \<open>s'\<close>.\<close>

definition reading :: "'w env \<Rightarrow> 'w toa \<Rightarrow> 'w toa \<Rightarrow> int \<Rightarrow> bool" where
  "reading E s s' now \<longleftrightarrow>
     (\<exists>t. reaches E s t \<and> now = fst (Now E (World t)) \<and> reaches E (t\<lparr>World := snd (Now E (World t))\<rparr>) s')"

lemma readingI:
  "run_state (outside (Now E)) t = (now, t') \<Longrightarrow> reaches E s t \<Longrightarrow> reaches E t' s' \<Longrightarrow> reading E s s' now"
  unfolding reading_def by (auto split: prod.splits)

lemma reading_mono: "reading E t u now \<Longrightarrow> reaches E s t \<Longrightarrow> reaches E u v \<Longrightarrow> reading E s v now"
  unfolding reading_def using reaches_trans by blast

lemma reading_reaches: "reading E s s' now \<Longrightarrow> reaches E s s'"
  unfolding reading_def using reaches_trans reaches.clock by blast

text \<open>\<open>moves E m\<close>: wherever \<open>m\<close> starts, it ends in a state that is reached so.\<close>

definition moves :: "'w env \<Rightarrow> ('w, 'a) m \<Rightarrow> bool" where
  "moves E m \<longleftrightarrow> (\<forall>s. reaches E s (snd (run_state m s)))"

named_theorems moving \<open>introduction rules for moves\<close>

lemma moves_run: "moves E m \<Longrightarrow> run_state m s = (x, s') \<Longrightarrow> reaches E s s'"
  unfolding moves_def by (metis snd_conv)

lemma moves_inner:
  assumes "moves E m"
  shows "inner m"
  unfolding inner_def
proof
  fix s
  from assms have "reaches E s (snd (run_state m s))" by (simp add: moves_def)
  then show "\<exists>w h. snd (run_state m s) = s\<lparr>World := w, Jwks := h\<rparr> \<and> JwksUrl h = JwksUrl (Jwks s)
      \<and> (jwks_wf (Jwks s) \<longrightarrow> jwks_wf h)" by (rule reaches_frame) blast
qed

lemma moves_same: "(\<And>s. snd (run_state m s) = s) \<Longrightarrow> moves E m"
  by (simp add: moves_def reaches.here)

lemma moves_plain [moving]: "moves E (return x)" "moves E (ask f)" "moves E (conf g)" "moves E (prov h)"
  by (rule moves_same, simp)+

lemma moves_outsideI: "(\<And>s. reaches E s (s\<lparr>World := snd (f (World s))\<rparr>)) \<Longrightarrow> moves E (outside f)"
  by (simp add: moves_def case_prod_beta)

lemma moves_outside [moving]:
  "moves E (outside (Now E))" "moves E (outside (RandRead E n))" "moves E (outside (NewUUID E))" "moves E (outside (Do E r))"
  by (rule moves_outsideI, rule reaches.intros, rule reaches.here)+

lemma moves_bind [moving]:
  assumes "moves E m" "\<And>x. moves E (k x)"
  shows "moves E (m \<bind> k)"
  unfolding moves_def
proof
  fix s
  obtain x t where r: "run_state m s = (x, t)" by (cases "run_state m s")
  from assms(2) have "reaches E t (snd (run_state (k x) t))" by (simp add: moves_def)
  from reaches_trans [OF this moves_run [OF assms(1) r]] show "reaches E s (snd (run_state (m \<bind> k) s))" using r by simp
qed

lemma moves_if [moving]: "(b \<Longrightarrow> moves E m) \<Longrightarrow> (\<not> b \<Longrightarrow> moves E m') \<Longrightarrow> moves E (if b then m else m')"
  by simp

lemma moves_case_sum [moving]:
  "(\<And>e. x = Inl e \<Longrightarrow> moves E (g e)) \<Longrightarrow> (\<And>y. x = Inr y \<Longrightarrow> moves E (h y)) \<Longrightarrow> moves E (case x of Inl e \<Rightarrow> g e | Inr y \<Rightarrow> h y)"
  by (cases x) simp_all

lemma moves_case_option [moving]:
  "(x = None \<Longrightarrow> moves E g) \<Longrightarrow> (\<And>y. x = Some y \<Longrightarrow> moves E (h y)) \<Longrightarrow> moves E (case x of None \<Rightarrow> g | Some y \<Rightarrow> h y)"
  by (cases x) simp_all

lemma moves_case_prod [moving]: "(\<And>a b. x = (a, b) \<Longrightarrow> moves E (g a b)) \<Longrightarrow> moves E (case x of (a, b) \<Rightarrow> g a b)"
  by (cases x) simp

lemma moves_let [moving]: "(\<And>y. y = x \<Longrightarrow> moves E (g y)) \<Longrightarrow> moves E (let y = x in g y)"
  by simp

lemma moves_EnsureLoaded [moving]: "moves E (EnsureLoadedContext E force)"
  by (simp add: moves_def reaches.keys reaches.here)

lemma moves_send [moving]: "moves E (send E r)"
  unfolding send_def by (intro moving)

lemma moves_discovery [moving]: "moves E (GetOidcDiscoveryContext E u)"
  unfolding GetOidcDiscoveryContext_def by (intro moving)

lemma moves_random [moving]: "moves E (randomBytesInHex E n)"
  unfolding randomBytesInHex_def by (intro moving)

lemma moves_assertion [moving]: "moves E (add_assertion E v)"
  unfolding add_assertion_def getClientAssertionJwtToken_def by (intro moving)

lemma moves_token_endpoint [moving]: "moves E (postFormToTokenEndpoint E v)"
  unfolding postFormToTokenEndpoint_def by (intro moving)

lemma moves_exchange [moving]: "moves E (exchangeAuthCode E code cve)"
  unfolding exchangeAuthCode_def by (intro moving)

lemma moves_renew [moving]: "moves E (renewToken E rt)"
  unfolding renewToken_def by (intro moving)

lemma moves_parse_once [moving]: "moves E (parse_once E opts tok)"
  unfolding parse_once_def by (intro moving)

lemma moves_retry [moving]: "moves E (parseJwtWithJwksRetry E tok opts)"
  unfolding parseJwtWithJwksRetry_def by (intro moving)

lemma moves_local [moving]: "moves E (validateTokenLocally E tok nonce)"
  unfolding validateTokenLocally_def by (intro moving)

lemma moves_introspect [moving]: "moves E (introspectToken E tok)"
  unfolding introspectToken_def by (intro moving)

lemma moves_revoke [moving]: "moves E (revokeToken E rt)"
  unfolding revokeToken_def by (intro moving)

lemma moves_userinfo [moving]: "moves E (getUserInfo E token sub)"
  unfolding getUserInfo_def by (intro moving)

text \<open>All of these are inner.\<close>

lemmas inner_EnsureLoaded [inners] = moves_EnsureLoaded [THEN moves_inner]
lemmas inner_send [inners] = moves_send [THEN moves_inner]
lemmas inner_discovery [inners] = moves_discovery [THEN moves_inner]
lemmas inner_random [inners] = moves_random [THEN moves_inner]
lemmas inner_assertion [inners] = moves_assertion [THEN moves_inner]
lemmas inner_token_endpoint [inners] = moves_token_endpoint [THEN moves_inner]
lemmas inner_exchange [inners] = moves_exchange [THEN moves_inner]
lemmas inner_renew [inners] = moves_renew [THEN moves_inner]
lemmas inner_parse_once [inners] = moves_parse_once [THEN moves_inner]
lemmas inner_retry [inners] = moves_retry [THEN moves_inner]
lemmas inner_local [inners] = moves_local [THEN moves_inner]
lemmas inner_introspect [inners] = moves_introspect [THEN moves_inner]
lemmas inner_revoke [inners] = moves_revoke [THEN moves_inner]
lemmas inner_userinfo [inners] = moves_userinfo [THEN moves_inner]

lemma inner_run:
  assumes "inner m" "run_state m s = (x, s')"
  obtains w h where "s' = s\<lparr>World := w, Jwks := h\<rparr>" "JwksUrl h = JwksUrl (Jwks s)" "jwks_wf (Jwks s) \<Longrightarrow> jwks_wf h"
  using assms unfolding inner_def by (metis snd_conv)

lemma inner_keeps: "inner m \<Longrightarrow> (\<And>s w h. f (s\<lparr>World := w, Jwks := h\<rparr>) = f s) \<Longrightarrow> keeps f m"
  unfolding inner_def keeps_def by metis

lemma inner_appends: "inner m \<Longrightarrow> appends A m"
  by (rule appends_keeps) (simp add: inner_keeps)

section \<open>Properties\<close>

lemma run_bind_elim:
  assumes "run_state (m \<bind> k) s = (y, s')"
  obtains x s1 where "run_state m s = (x, s1)" "run_state (k x) s1 = (y, s')"
  using assms by (cases "run_state m s") simp

lemma parse_once_Ok:
  assumes "run_state (parse_once E opts tok) s = (Ok c, s')"
  obtains now where "ParseWithClaims (JwtOps E) (JsonText E) opts now tok (Keyfunc (Jwks s')) = Ok c" "reading E s s' now"
proof -
  obtain now t where n: "run_state (outside (Now E)) s = (now, t)" by (cases "run_state (outside (Now E)) s")
  with assms have "t = s'" and "ParseWithClaims (JwtOps E) (JsonText E) opts now tok (Keyfunc (Jwks s')) = Ok c"
    by (auto simp: parse_once_def simp del: run_outside)
  with that n readingI [OF _ reaches.here reaches.here] show thesis by blast
qed

text \<open>Whatever the retry accepts was accepted by one parse with the keys cached at the end.\<close>

lemma parseJwtWithJwksRetry_Ok:
  assumes "run_state (parseJwtWithJwksRetry E tok opts) s = (Ok c, s')"
  obtains now where "ParseWithClaims (JwtOps E) (JsonText E) opts now tok (Keyfunc (Jwks s')) = Ok c" "reading E s s' now"
proof -
  obtain e1 s1 where 1: "run_state (EnsureLoadedContext E False) s = (e1, s1)"
    by (cases "run_state (EnsureLoadedContext E False) s")
  obtain x s2 where 2: "run_state (parse_once E opts tok) s1 = (x, s2)" by (cases "run_state (parse_once E opts tok) s1")
  obtain e3 s3 where 3: "run_state (EnsureLoadedContext E True) s2 = (e3, s3)"
    by (cases "run_state (EnsureLoadedContext E True) s2")
  have r1: "reaches E s s1" by (rule moves_run [OF moves_EnsureLoaded 1])
  have r3: "reaches E s s3"
    by (rule reaches_trans [OF moves_run [OF moves_EnsureLoaded 3] reaches_trans [OF moves_run [OF moves_parse_once 2] r1]])
  from assms 1 2 3 consider "x = Ok c" "s2 = s'" | "run_state (parse_once E opts tok) s3 = (Ok c, s')"
    by (auto simp: parseJwtWithJwksRetry_def split: option.splits sum.splits if_splits)
  then show thesis
  proof cases
    case 1
    with 2 parse_once_Ok obtain now where
      "ParseWithClaims (JwtOps E) (JsonText E) opts now tok (Keyfunc (Jwks s')) = Ok c" "reading E s1 s' now" by blast
    then show thesis using that reading_mono r1 reaches.here by blast
  next
    case 2
    with parse_once_Ok obtain now where
      "ParseWithClaims (JwtOps E) (JsonText E) opts now tok (Keyfunc (Jwks s')) = Ok c" "reading E s3 s' now" by blast
    then show thesis using that reading_mono r3 reaches.here by blast
  qed
qed

text \<open>
  C14. A token that \<open>validateTokenLocally\<close> accepts is genuine: it is signed under an allowed
  algorithm by a key of the cache that its own key id names, it has an expiry time that is
  not past (up to the leeway) at a reading of the clock made during this validation, it names the configured audience and, when one is set, the
  configured issuer, and it carries the expected nonce.
\<close>

theorem validateTokenLocally_sound:
  assumes "run_state (validateTokenLocally E tok nonce) s = (Ok c, s')" "jwks_wf (Jwks s)"
  defines "p \<equiv> Provider (Config s)"
  shows "\<exists>t key kid now.
      TokenAlg t \<in> set allowedAlgorithms \<and> signed_by (JwtOps E) (JsonText E) tok t key c
    \<and> claim_string (TokenHeader t) ''kid'' = Some kid
    \<and> (kid, key) \<in> set (RsaKeys (Jwks s')) \<union> set (EcdsaKeys (Jwks s'))
    \<and> reading E s s' now
    \<and> (\<exists>v e. map_of c ''exp'' = Some v \<and> NumericDate (JwtOps E) v = Some e \<and> now < e + seconds_dur (TokenClockSkewSeconds p))
    \<and> (ValidateIssuerBool p \<and> ValidIssuer p \<noteq> [] \<longrightarrow> claim_string c ''iss'' = Some (ValidIssuer p))
    \<and> (ValidateAudienceBool p \<longrightarrow> (\<exists>aud. parseClaimsString c ''aud'' = Ok aud \<and> ValidAudience p \<in> set aud))
    \<and> (nonce \<noteq> [] \<and> ValidateNonceBool p \<longrightarrow> claim_string c ''nonce'' = Some nonce)"
proof -
  from assms(1) obtain x s1 where p1: "run_state (parseJwtWithJwksRetry E tok (token_options p)) s = (x, s1)"
    and r: "s' = s1" "x = Ok c"
    and n: "nonce \<noteq> [] \<and> ValidateNonceBool p \<longrightarrow> claim_string c ''nonce'' = Some nonce"
    unfolding validateTokenLocally_def p_def
    by (auto simp: oidcNonceMatches_def split: prod.splits sum.splits if_splits option.splits)
  from p1 r obtain now where pc: "ParseWithClaims (JwtOps E) (JsonText E) (token_options p) now tok (Keyfunc (Jwks s')) = Ok c"
    and now: "reading E s s' now"
    using parseJwtWithJwksRetry_Ok by blast
  from pc obtain t key where t: "TokenAlg t \<in> set AllowedAlgorithms" "Keyfunc (Jwks s') t = Ok key"
    "signed_by (JwtOps E) (JsonText E) tok t key c" "claims_valid (JwtOps E) (token_options p) now c"
    by (rule ParseWithClaims_Ok) (auto simp: token_options_def no_options_def)
  have "jwks_wf (Jwks s')"
    using inner_run [OF inner_local assms(1)] assms(2) by (metis toa.select_convs(7) toa.surjective toa.update_convs(1,7))
  from Keyfunc_key [OF this t(2)] obtain kid where kid: "claim_string (TokenHeader t) ''kid'' = Some kid"
    "(kid, key) \<in> set (RsaKeys (Jwks s')) \<union> set (EcdsaKeys (Jwks s'))" by (auto split: if_splits)
  show ?thesis
    using t(1,3,4) kid n now
    by (intro exI [of _ t] exI [of _ key] exI [of _ kid] exI [of _ now])
      (auto simp: AllowedAlgorithms_def claims_valid_def token_options_def no_options_def)
qed

text \<open>A token of three segments, and an environment that reads them as its header and claims.\<close>

definition token_claims :: claims where
  "token_claims = [(''iss'', JStr ''https://idp''), (''aud'', JStr ''app''), (''exp'', JInt 1), (''nonce'', JStr ''n'')]"

definition token_env :: "unit env" where
  "token_env = dead_env\<lparr>
     JsonText := \<lparr>json_print = (\<lambda>_. []),
       json_parse = (\<lambda>s. if s = ''H'' then Some (JObj [(''alg'', JStr ''RS256''), (''kid'', JStr ''k1'')])
                          else if s = ''C'' then Some (JObj token_claims) else None),
       json_first = (\<lambda>_. None)\<rparr>,
     JwtOps := \<lparr>Verify = (\<lambda>alg txt sig k. if alg = ''RS256'' \<and> txt = ''SA.Qw'' \<and> k = RsaPublicKey 15 3 then None else Some ''bad''),
       SignRS256 = (\<lambda>_ _ _. Err ''no key''), NumericDate = (\<lambda>_. Some 64000000000000000000)\<rparr>\<rparr>"

definition token_toa :: "unit toa" where
  "token_toa = sample_toa\<lparr>Jwks := (Jwks sample_toa)\<lparr>CacheDate := 63000000000000000000\<rparr>,
     Config := (Config sample_toa)\<lparr>Provider := (Provider (Config sample_toa))\<lparr>ValidIssuer := ''https://idp'', ValidAudience := ''app''\<rparr>\<rparr>\<rparr>"

lemma token_parse:
  "ParseWithClaims (JwtOps token_env) (JsonText token_env) (token_options (Provider (Config token_toa))) 63000000000000000000
     ''SA.Qw.'' (Keyfunc (Jwks token_toa)) = Ok token_claims"
proof -
  have d: "RawURLEncoding_Decode ''SA'' = Some ''H''" "RawURLEncoding_Decode ''Qw'' = Some ''C''"
    "RawURLEncoding_Decode [] = Some []" "splitToken ''SA.Qw.'' = Some (''SA'', ''Qw'', [])" "ToUpper ''RS256'' = ''RS256''"
    by code_simp+
  have k: "Keyfunc (Jwks token_toa) \<lparr>TokenAlg = ''RS256'', TokenHeader = [(''alg'', JStr ''RS256''), (''kid'', JStr ''k1'')]\<rparr>
      = Ok (RsaPublicKey 15 3)"
    by (simp add: Keyfunc_def isAlgorithmAllowed_def d allowedAlgorithms_def claim_string_def getRsaKey_def
        find_key_def token_toa_def sample_toa_def new_jwks_def)
  have v: "Validate (JwtOps token_env) (token_options (Provider (Config token_toa))) token_claims 63000000000000000000 = None"
    by (simp add: Validate_def verifyExpiresAt_def verifyNotBefore_def verifyAudience_def verifyIssuer_def parseNumericDate_def
        parseClaimsString_def parseString_def token_claims_def token_env_def token_options_def no_options_def token_toa_def
        sample_toa_def migrateAuthBehaviors_def CreateConfig_def seconds_dur_def Second_def wrap64_def)
  have "ParseUnverified (JsonText token_env) ''SA.Qw.'' =
      Ok \<lparr>Token = \<lparr>TokenAlg = ''RS256'', TokenHeader = [(''alg'', JStr ''RS256''), (''kid'', JStr ''k1'')]\<rparr>,
          SignedText = ''SA.Qw'', Claims = token_claims, Signature = []\<rparr>"
    by (simp add: ParseUnverified_def d decode_segment_def token_env_def claim_string_def signing_methods_def token_claims_def)
  with k v show ?thesis
    by (simp add: ParseWithClaims_def token_options_def no_options_def AllowedAlgorithms_def allowedAlgorithms_def token_env_def)
qed

theorem validateTokenLocally_sound_witness:
  "run_state (validateTokenLocally token_env ''SA.Qw.'' ''n'') token_toa = (Ok token_claims, token_toa)
   \<and> (\<exists>t key. signed_by (JwtOps token_env) (JsonText token_env) ''SA.Qw.'' t key token_claims)"
proof -
  have n: "\<not> needsReload (Jwks token_toa) 63000000000000000000 False"
    by (simp add: needsReload_def token_toa_def sample_toa_def new_jwks_def hasKeys_def Minute_def Second_def)
  have now: "Now token_env w = (63000000000000000000, w)" for w by (simp add: token_env_def dead_env_def)
  have "run_state (EnsureLoadedContext token_env False) token_toa = (None, token_toa)"
    using n by (simp add: EnsureLoadedContext_def now)
  then have "run_state (parseJwtWithJwksRetry token_env ''SA.Qw.'' (token_options (Provider (Config token_toa)))) token_toa
      = (Ok token_claims, token_toa)"
    by (simp add: parseJwtWithJwksRetry_def parse_once_def now token_parse)
  then have r: "run_state (validateTokenLocally token_env ''SA.Qw.'' ''n'') token_toa = (Ok token_claims, token_toa)"
    by (simp add: validateTokenLocally_def oidcNonceMatches_def token_claims_def claim_string_def)
  have "jwks_wf (Jwks token_toa)" using sample_jwks_wf by (simp add: token_toa_def jwks_wf_def)
  with validateTokenLocally_sound [OF r] r show ?thesis by blast
qed

lemma mergeClaims_protected: "k \<in> set protectedClaims \<Longrightarrow> map_of (mergeClaims t u) k = map_of t k"
  unfolding mergeClaims_def
  by (induction u arbitrary: t) (auto simp: update_conv' split: prod.splits)

lemma mergeClaims_other:
  "k \<notin> set protectedClaims \<Longrightarrow>
     map_of (mergeClaims t u) k = (case map_of (rev u) k of Some v \<Rightarrow> Some v | None \<Rightarrow> map_of t k)"
  unfolding mergeClaims_def
  by (induction u arbitrary: t) (auto simp: update_conv' map_add_def split: prod.splits option.splits)

lemma map_of_rev_keys: "distinct (map fst u) \<Longrightarrow> map_of (rev u) k = map_of u k"
proof (induction u)
  case (Cons p u)
  then have "map_of u (fst p) = None" by (simp add: map_of_eq_None_iff)
  with Cons show ?case by (cases p) (auto simp: map_add_def split: option.splits)
qed simp

text \<open>
  User info cannot change who the token is about: merging it keeps the seven protected
  claims and, because a response about another subject is discarded, the subject.
\<close>

theorem mergeClaims_identity:
  assumes "claim_string t ''sub'' = Some sub" "distinct (map fst u)"
  shows "claim_string (mergeClaims t (check_subject sub u)) ''sub'' = Some sub
    \<and> (\<forall>k \<in> {''iss'', ''aud'', ''exp'', ''iat'', ''nbf'', ''jti'', ''azp''}.
        map_of (mergeClaims t (check_subject sub u)) k = map_of t k)"
proof -
  have d: "map_of (rev u) k = map_of u k" for k using assms(2) by (simp add: map_of_rev_keys)
  have "claim_string (mergeClaims t (check_subject sub u)) ''sub'' = Some sub"
    using assms(1) d
    by (auto simp: claim_string_def check_subject_def mergeClaims_other protectedClaims_def
        split: option.splits json.splits)
  then show ?thesis by (simp add: mergeClaims_protected protectedClaims_def)
qed

theorem mergeClaims_identity_witness:
  "claim_string (mergeClaims [(''sub'', JStr ''u1''), (''iss'', JStr ''i'')]
     (check_subject ''u1'' [(''sub'', JStr ''u2''), (''iss'', JStr ''j'')])) ''sub'' = Some ''u1''"
  using mergeClaims_identity [of "[(''sub'', JStr ''u1''), (''iss'', JStr ''i'')]" "''u1''"
      "[(''sub'', JStr ''u2''), (''iss'', JStr ''j'')]"] by (simp add: claim_string_def)

lemma wrap64_id: "int64 i \<Longrightarrow> wrap64 i = i"
  by (simp add: wrap64_def int64_def)

text \<open>
  Step-up freshness is exact: with a positive bound the claims are fresh precisely when
  they carry a usable \<open>auth_time\<close> at most that many seconds in the past; without the
  claim they are not fresh.
\<close>

theorem authTimeIsFresh_iff:
  assumes "0 < MaxAuthAgeSeconds (Provider cfg)" "MaxAuthAgeSeconds (Provider cfg) \<le> 9000000000"
  shows "authTimeIsFresh E cfg c now \<longleftrightarrow>
    (\<exists>t. authTimeFromClaims E c = Some t \<and> now - t \<le> MaxAuthAgeSeconds (Provider cfg) * 1000000000)"
proof -
  have "seconds_dur (MaxAuthAgeSeconds (Provider cfg)) = MaxAuthAgeSeconds (Provider cfg) * 1000000000"
    using assms by (simp add: seconds_dur_def Second_def wrap64_id int64_def)
  with assms(1) show ?thesis by (auto simp: authTimeIsFresh_def split: option.splits)
qed

theorem authTimeIsFresh_iff_witness:
  "\<not> authTimeIsFresh dead_env (CreateConfig\<lparr>Provider := (Provider CreateConfig)\<lparr>MaxAuthAgeSeconds := 300\<rparr>\<rparr>) [] 0"
  by (subst authTimeIsFresh_iff) (simp_all add: authTimeFromClaims_def)

end
