(* ===== verification/SessionFlow.thy ===== *)
theory SessionFlow
  imports Oidc
begin

text \<open>
  \<open>src/session.go\<close>: finding and validating the session of a request. A request may bring a
  token in a configured header or cookie, or a sealed session; a sealed session is checked
  against the lifetime bounds, validated and, when its token has expired or soon will, renewed.

  \<open>getSessionForRequest\<close> and \<open>validateSessionTicket\<close> return four values; a nil session or
  error is \<open>None\<close>, and the third value of the ticket validation, a session or nil, only
  matters as to whether it is nil. Nil claims are the empty list.
\<close>

section \<open>Validating a token\<close>

definition is_pseudo :: "string \<Rightarrow> bool" where
  "is_pseudo sid \<longleftrightarrow> sid = ''AuthorizationHeader'' \<or> sid = ''AuthorizationCookie''"

definition token_of :: "ProviderConfig \<Rightarrow> SessionState \<Rightarrow> string result" where
  "token_of p session =
     (if is_pseudo (Id session) then Ok (AccessToken session)
      else if TokenValidation p = ''AccessToken'' \<or> TokenValidation p = ''Introspection'' then Ok (AccessToken session)
      else if TokenValidation p = ''IdToken'' then Ok (IdToken session)
      else Err (''invalid value '' @ TokenValidation p @ '' for TokenValidation''))"

definition validateToken :: "'w env \<Rightarrow> SessionState \<Rightarrow> ('w, (bool \<times> claims) result) m" where
  "validateToken E session = do {
     p \<leftarrow> prov (\<lambda>p. p);
     case token_of p session of
       Inl e \<Rightarrow> return (Err e)
     | Inr token \<Rightarrow>
         if TokenValidation p = ''Introspection'' then introspectToken E token
         else do {
           r \<leftarrow> validateTokenLocally E token [];
           case r of
             Inl e \<Rightarrow> return (Err e)
           | Inr claims \<Rightarrow>
               if UseClaimsFromUserInfoBool p
               then (case claim_string claims ''sub'' of
                       None \<Rightarrow> return (Err (''failed to fetch UserInfo: 'sub' claim is not a string or missing''))
                     | Some subClaim \<Rightarrow> do {
                         u \<leftarrow> getUserInfo E (AccessToken session) subClaim;
                         return (case u of
                                   Inl e \<Rightarrow> Err (''failed to fetch UserInfo: '' @ e)
                                 | Inr userInfoClaims \<Rightarrow> Ok (True, mergeClaims claims userInfoClaims))
                       })
               else return (Ok (True, claims))
         }
   }"

section \<open>Bounds\<close>

definition errSessionExpired :: error where
  "errSessionExpired = ''session expired''"

text \<open>One bound: exceeded when it is on, the stamp is set and the clock is past it.\<close>

definition bound_exceeded :: "'w env \<Rightarrow> int \<Rightarrow> int \<Rightarrow> ('w, bool) m" where
  "bound_exceeded E limit stamp =
     (if 0 < limit \<and> stamp \<noteq> 0 then do {
        now \<leftarrow> outside (Now E);
        return (time_sub now stamp > seconds_dur limit)
      }
      else return False)"

definition checkSessionBounds :: "'w env \<Rightarrow> SessionState \<Rightarrow> ('w, error option) m" where
  "checkSessionBounds E state = do {
     cfg \<leftarrow> ask Config;
     tooOld \<leftarrow> bound_exceeded E (MaxSessionLifetimeSeconds cfg) (CreatedAt state);
     if tooOld then return (Some errSessionExpired)
     else do {
       idle \<leftarrow> bound_exceeded E (SessionIdleTimeoutSeconds cfg) (LastUsedAt state);
       return (if idle then Some errSessionExpired else None)
     }
   }"

definition checkIdpTokenExpiresSoon :: "'w env \<Rightarrow> SessionState \<Rightarrow> ('w, bool) m" where
  "checkIdpTokenExpiresSoon E session =
     (if 0 < TokenExpiresIn session then do {
        now \<leftarrow> outside (Now E);
        p \<leftarrow> prov (\<lambda>p. p);
        let pastDuration = time_sub now (RefreshedAt session);
        let halfMaxAge = float_scale (of_int (TokenExpiresIn session)) (TokenRenewalThreshold p);
        return (float_less halfMaxAge (Fin (of_int pastDuration / of_int Second)))
      }
      else return False)"

section \<open>A session ticket\<close>

definition adopt_tokens :: "OidcTokenResponse \<Rightarrow> SessionState \<Rightarrow> SessionState" where
  "adopt_tokens t session =
     session\<lparr>AccessToken := Tok_AccessToken t,
       RefreshToken := (if Tok_RefreshToken t \<noteq> [] then Tok_RefreshToken t else RefreshToken session),
       IdToken := (if Tok_IdToken t \<noteq> [] then Tok_IdToken t else IdToken session)\<rparr>"

type_synonym ticket_result = "SessionState option \<times> claims \<times> bool \<times> error option"

definition renew_session :: "'w env \<Rightarrow> SessionState \<Rightarrow> ('w, ticket_result) m" where
  "renew_session E session = do {
     r \<leftarrow> renewToken E (RefreshToken session);
     case r of
       Inl e \<Rightarrow> return (None, [], False, Some e)
     | Inr newTokens \<Rightarrow> do {
         let session1 = adopt_tokens newTokens session;
         v \<leftarrow> validateToken E session1;
         case v of
           Inl e \<Rightarrow> return (None, [], True, Some e)
         | Inr (success, claims) \<Rightarrow>
             if \<not> success then return (None, [], True, None)
             else do {
               now \<leftarrow> outside (Now E);
               return (Some (session1\<lparr>RefreshedAt := now, TokenExpiresIn := ExpiresIn newTokens\<rparr>), claims, True, None)
             }
       }
   }"

definition validateSessionTicket :: "'w env \<Rightarrow> string \<Rightarrow> ('w, ticket_result) m" where
  "validateSessionTicket E sessionTicket = do {
     cfg \<leftarrow> ask Config;
     now0 \<leftarrow> outside (Now E);
     case TryGetSession (Aead E) (JsonText E) (TimeText E) now0 cfg sessionTicket of
       Inl e \<Rightarrow> return (None, [], False, Some e)
     | Inr session \<Rightarrow> do {
         b \<leftarrow> checkSessionBounds E session;
         case b of
           Some e \<Rightarrow> return (None, [], False, Some e)
         | None \<Rightarrow> do {
             v \<leftarrow> validateToken E session;
             soon \<leftarrow> (case v of Inr (True, _) \<Rightarrow> checkIdpTokenExpiresSoon E session | _ \<Rightarrow> return False);
             case v of
               Inl e \<Rightarrow>
                 if RefreshToken session \<noteq> [] then renew_session E session
                 else return (None, [], False, Some e)
             | Inr (success, claims) \<Rightarrow>
                 if \<not> success \<or> soon
                 then (if RefreshToken session \<noteq> [] then renew_session E session
                       else return (None, [], False, Some ''no refresh_token available''))
                 else do {
                   now \<leftarrow> outside (Now E);
                   return (Some (session\<lparr>LastUsedAt := now\<rparr>), claims, False, None)
                 }
           }
       }
   }"

section \<open>The session of a request\<close>

text \<open>A token from the configured header or cookie makes a session of its own.\<close>

definition external_session :: "'w env \<Rightarrow> string \<Rightarrow> string \<Rightarrow> ('w, ticket_result) m" where
  "external_session E sid token = do {
     let session = zero_session\<lparr>Id := sid, AccessToken := token\<rparr>;
     v \<leftarrow> validateToken E session;
     return
       (case v of
          Inl e \<Rightarrow> (None, [], False, Some (''failed to validate token from '' @ sid @ '': '' @ e))
        | Inr (ok, claims) \<Rightarrow>
            if ok then (Some session, claims, False, None)
            else (None, [], False, Some (''failed to validate token from '' @ sid @ '': token is not valid'')))
   }"

definition cookie_session :: "'w env \<Rightarrow> ('w, ticket_result) m" where
  "cookie_session E = do {
     cfg \<leftarrow> ask Config;
     req \<leftarrow> ask Req;
     case readChunkedCookie req (getSessionCookieName cfg) of
       Inl e \<Rightarrow> return (None, [], False, Some (''unable to read session cookie: '' @ TrimPrefix e ''http: ''))
     | Inr sessionTicket \<Rightarrow>
         if sessionTicket = [] then return (None, [], False, Some ''no session cookie is present'')
         else do {
           r \<leftarrow> validateSessionTicket E sessionTicket;
           return
             (case r of (session, claims, updated, err) \<Rightarrow>
                case err of
                  Some e \<Rightarrow> (None, claims, False, Some (''failed to validate session ticket: '' @ e))
                | None \<Rightarrow> (session, claims, updated, None))
         }
   }"

definition external_header :: "Config \<Rightarrow> request \<Rightarrow> string option" where
  "external_header cfg req =
     (case AuthorizationHeader cfg of
        None \<Rightarrow> None
      | Some name \<Rightarrow>
          if name = [] \<or> Header_Get (Header req) name = [] then None
          else Some (if name = ''Authorization'' then TrimPrefix (Header_Get (Header req) name) ''Bearer ''
                     else Header_Get (Header req) name))"

definition external_cookie :: "Config \<Rightarrow> request \<Rightarrow> string option" where
  "external_cookie cfg req =
     (case AuthorizationCookie cfg of
        None \<Rightarrow> None
      | Some name \<Rightarrow>
          if name = [] then None
          else case Cookie req name of None \<Rightarrow> None | Some v \<Rightarrow> if v = [] then None else Some v)"

definition getSessionForRequest :: "'w env \<Rightarrow> ('w, ticket_result) m" where
  "getSessionForRequest E = do {
     cfg \<leftarrow> ask Config;
     req \<leftarrow> ask Req;
     case external_header cfg req of
       Some authHeader \<Rightarrow> external_session E ''AuthorizationHeader'' authHeader
     | None \<Rightarrow>
         (case external_cookie cfg req of
            Some authCookie \<Rightarrow> external_session E ''AuthorizationCookie'' authCookie
          | None \<Rightarrow> cookie_session E)
   }"

section \<open>Storing a session\<close>

definition storeSessionAndAttachCookie :: "'w env \<Rightarrow> SessionState \<Rightarrow> ('w, error option) m" where
  "storeSessionAndAttachCookie E session = do {
     cfg \<leftarrow> ask Config;
     now \<leftarrow> outside (Now E);
     nonce \<leftarrow> outside (RandRead E NonceSize);
     case snd (StoreSession (Aead E) (JsonText E) (TimeText E) now nonce cfg session) of
       Inl e \<Rightarrow> do { http_Error ''Failed to store session'' 500; return (Some e) }
     | Inr sessionTicket \<Rightarrow> do {
         emit (\<lambda>rw. setChunkedCookies cfg rw (getSessionCookieName cfg) sessionTicket);
         return None
       }
   }"

section \<open>Frames\<close>

text \<open>The session lookup only moves as \<open>reaches\<close> allows.\<close>

lemma moves_validateToken [moving]: "moves E (validateToken E session)"
  unfolding validateToken_def by (intro moving)

lemma moves_bound [moving]: "moves E (bound_exceeded E limit stamp)"
  unfolding bound_exceeded_def by (intro moving)

lemma moves_checkSessionBounds [moving]: "moves E (checkSessionBounds E session)"
  unfolding checkSessionBounds_def by (intro moving)

lemma moves_expiresSoon [moving]: "moves E (checkIdpTokenExpiresSoon E session)"
  unfolding checkIdpTokenExpiresSoon_def by (intro moving)

lemma moves_renew_session [moving]: "moves E (renew_session E session)"
  unfolding renew_session_def by (intro moving)

lemma moves_validateSessionTicket [moving]: "moves E (validateSessionTicket E ticket)"
  unfolding validateSessionTicket_def
  by (intro moving) (auto split: bool.splits intro!: moving)

lemma moves_external_session [moving]: "moves E (external_session E sid token)"
  unfolding external_session_def by (intro moving)

lemma moves_cookie_session [moving]: "moves E (cookie_session E)"
  unfolding cookie_session_def by (intro moving)

lemma moves_getSessionForRequest [moving]: "moves E (getSessionForRequest E)"
  unfolding getSessionForRequest_def by (intro moving)

lemmas inner_validateToken [inners] = moves_validateToken [THEN moves_inner]
lemmas inner_bound [inners] = moves_bound [THEN moves_inner]
lemmas inner_checkSessionBounds [inners] = moves_checkSessionBounds [THEN moves_inner]
lemmas inner_expiresSoon [inners] = moves_expiresSoon [THEN moves_inner]
lemmas inner_renew_session [inners] = moves_renew_session [THEN moves_inner]
lemmas inner_validateSessionTicket [inners] = moves_validateSessionTicket [THEN moves_inner]
lemmas inner_external_session [inners] = moves_external_session [THEN moves_inner]
lemmas inner_cookie_session [inners] = moves_cookie_session [THEN moves_inner]
lemmas inner_getSessionForRequest [inners] = moves_getSessionForRequest [THEN moves_inner]

section \<open>Where a session comes from\<close>

text \<open>
  \<open>validated E s s' sess c\<close>: on the way from \<open>s\<close> to \<open>s'\<close>, so with the configuration of \<open>s\<close> and
  with the keys and the outside as they had become, the token validation ran on the
  tokens of the session, accepted them and gave these claims.
\<close>

definition validated :: "'w env \<Rightarrow> 'w toa \<Rightarrow> 'w toa \<Rightarrow> SessionState \<Rightarrow> claims \<Rightarrow> bool" where
  "validated E s s' sess c \<longleftrightarrow>
     (\<exists>v t t'. reaches E s t \<and> run_state (validateToken E v) t = (Ok (True, c), t') \<and> reaches E t' s'
        \<and> Id v = Id sess \<and> AccessToken v = AccessToken sess \<and> IdToken v = IdToken sess)"

lemma validatedI:
  "run_state (validateToken E v) t = (Ok (True, c), t') \<Longrightarrow> reaches E s t \<Longrightarrow> reaches E t' s' \<Longrightarrow> validated E s s' v c"
  unfolding validated_def by blast

lemma validated_mono: "validated E t u sess c \<Longrightarrow> reaches E s t \<Longrightarrow> reaches E u v \<Longrightarrow> validated E s v sess c"
  unfolding validated_def using reaches_trans by blast

lemma validated_times [simp]:
  "validated E s s' (v\<lparr>RefreshedAt := a, TokenExpiresIn := b\<rparr>) c \<longleftrightarrow> validated E s s' v c"
  "validated E s s' (v\<lparr>LastUsedAt := d\<rparr>) c \<longleftrightarrow> validated E s s' v c"
  by (simp_all add: validated_def)

lemma adopt_tokens_keeps [simp]:
  "Id (adopt_tokens t s) = Id s" "CreatedAt (adopt_tokens t s) = CreatedAt s" "IsAuthorized (adopt_tokens t s) = IsAuthorized s"
  "LastUsedAt (adopt_tokens t s) = LastUsedAt s" "ChallengeAttempted (adopt_tokens t s) = ChallengeAttempted s"
  by (simp_all add: adopt_tokens_def)

definition same_origin :: "SessionState \<Rightarrow> SessionState \<Rightarrow> bool" where
  "same_origin s0 s1 \<longleftrightarrow> Id s1 = Id s0 \<and> CreatedAt s1 = CreatedAt s0 \<and> IsAuthorized s1 = IsAuthorized s0
     \<and> ChallengeAttempted s1 = ChallengeAttempted s0"

text \<open>
  What becomes of a sealed session \<open>s0\<close> on the way: it is the session itself, used now, or it
  is that session with the tokens that the provider gave for its refresh token, refreshed now.
\<close>

definition renewed :: "'w env \<Rightarrow> 'w toa \<Rightarrow> 'w toa \<Rightarrow> SessionState \<Rightarrow> SessionState \<Rightarrow> bool" where
  "renewed E s s' s0 sess \<longleftrightarrow>
     (\<exists>token t t' now. reaches E s t \<and> run_state (renewToken E (RefreshToken s0)) t = (Ok token, t') \<and> reading E t' s' now
        \<and> sess = (adopt_tokens token s0)\<lparr>RefreshedAt := now, TokenExpiresIn := ExpiresIn token\<rparr>)"

definition resumed :: "'w env \<Rightarrow> 'w toa \<Rightarrow> 'w toa \<Rightarrow> SessionState \<Rightarrow> SessionState \<Rightarrow> bool" where
  "resumed E s s' s0 sess \<longleftrightarrow>
     (\<exists>now. reading E s s' now \<and> sess = s0\<lparr>LastUsedAt := now\<rparr>) \<or> RefreshToken s0 \<noteq> [] \<and> renewed E s s' s0 sess"

lemma renewed_mono: "renewed E t u s0 sess \<Longrightarrow> reaches E s t \<Longrightarrow> renewed E s u s0 sess"
  unfolding renewed_def using reaches_trans by blast

lemma resumed_same: "resumed E s s' s0 sess \<Longrightarrow> same_origin s0 sess"
  by (auto simp: resumed_def renewed_def same_origin_def)

text \<open>The two sources of the session of a request, in the order they are tried.\<close>

definition session_origin :: "'w env \<Rightarrow> 'w toa \<Rightarrow> 'w toa \<Rightarrow> SessionState \<Rightarrow> bool" where
  "session_origin E s s' sess \<longleftrightarrow>
     (case external_header (Config s) (Req s) of
        Some h \<Rightarrow> sess = zero_session\<lparr>Id := ''AuthorizationHeader'', AccessToken := h\<rparr>
      | None \<Rightarrow>
          (case external_cookie (Config s) (Req s) of
             Some k \<Rightarrow> sess = zero_session\<lparr>Id := ''AuthorizationCookie'', AccessToken := k\<rparr>
           | None \<Rightarrow>
               (\<exists>ticket s0. readChunkedCookie (Req s) (getSessionCookieName (Config s)) = Ok ticket
                  \<and> TryGetSession (Aead E) (JsonText E) (TimeText E) (fst (Now E (World s))) (Config s) ticket = Ok s0
                  \<and> resumed E s s' s0 sess)))"

lemma renew_session_Some:
  assumes "run_state (renew_session E s0) s = ((Some sess, c, u, err), s')"
  shows "err = None" "u" "validated E s s' sess c" "renewed E s s' s0 sess"
proof -
  obtain r s1 where 1: "run_state (renewToken E (RefreshToken s0)) s = (r, s1)"
    by (cases "run_state (renewToken E (RefreshToken s0)) s")
  from assms 1 obtain t where t: "r = Ok t" by (cases r) (auto simp: renew_session_def)
  obtain v s2 where 2: "run_state (validateToken E (adopt_tokens t s0)) s1 = (v, s2)"
    by (cases "run_state (validateToken E (adopt_tokens t s0)) s1")
  obtain now s3 where 3: "run_state (outside (Now E)) s2 = (now, s3)" by (cases "run_state (outside (Now E)) s2")
  have e: "err = None \<and> u \<and> v = Ok (True, c) \<and> s' = s3
      \<and> sess = (adopt_tokens t s0)\<lparr>RefreshedAt := now, TokenExpiresIn := ExpiresIn t\<rparr>"
    using assms 1 2 3 t by (auto simp: renew_session_def Let_def simp del: run_outside split: sum.splits prod.splits if_splits)
  have m: "reaches E s s1" "reaches E s1 s2" "reaches E s2 s3"
    using moves_run [OF moves_renew 1] moves_run [OF moves_validateToken 2] moves_run [OF moves_outside(1) 3] by simp_all
  show "err = None" "u" using e by simp_all
  show "validated E s s' sess c" using validatedI [of E "adopt_tokens t s0" s1 c s2] 2 e m by simp
  have "reading E s1 s3 now" by (rule readingI [OF 3 m(2) reaches.here])
  then show "renewed E s s' s0 sess" using 1 t e reaches.here unfolding renewed_def by blast
qed

lemma external_session_Some:
  assumes "run_state (external_session E sid token) s = ((Some sess, c, u, err), s')"
  shows "err = None" "\<not> u" "validated E s s' sess c" "sess = zero_session\<lparr>Id := sid, AccessToken := token\<rparr>"
  using assms
  by (auto simp: external_session_def Let_def intro: validatedI reaches.here split: sum.splits prod.splits if_splits)

text \<open>A bound holds when it is off, the stamp is not set, or the clock was not past it on the way.\<close>

definition in_bound :: "'w env \<Rightarrow> 'w toa \<Rightarrow> 'w toa \<Rightarrow> int \<Rightarrow> int \<Rightarrow> bool" where
  "in_bound E s s' limit stamp \<longleftrightarrow>
     (0 < limit \<and> stamp \<noteq> 0 \<longrightarrow> (\<exists>now. reading E s s' now \<and> time_sub now stamp \<le> seconds_dur limit))"

lemma in_bound_mono: "in_bound E t u limit stamp \<Longrightarrow> reaches E s t \<Longrightarrow> reaches E u v \<Longrightarrow> in_bound E s v limit stamp"
  unfolding in_bound_def using reading_mono by blast

lemma bound_exceeded_False:
  assumes "run_state (bound_exceeded E limit stamp) s = (False, s')"
  shows "in_bound E s s' limit stamp"
proof -
  obtain now t where n: "run_state (outside (Now E)) s = (now, t)" by (cases "run_state (outside (Now E)) s")
  have "0 < limit \<and> stamp \<noteq> 0 \<longrightarrow> t = s' \<and> time_sub now stamp \<le> seconds_dur limit"
    using assms n by (auto simp: bound_exceeded_def simp del: run_outside split: if_splits)
  with readingI [OF n reaches.here reaches.here] show ?thesis unfolding in_bound_def by blast
qed

lemma checkSessionBounds_None:
  assumes "run_state (checkSessionBounds E session) s = (None, s')"
  shows "in_bound E s s' (MaxSessionLifetimeSeconds (Config s)) (CreatedAt session)"
    "in_bound E s s' (SessionIdleTimeoutSeconds (Config s)) (LastUsedAt session)"
proof -
  let ?life = "bound_exceeded E (MaxSessionLifetimeSeconds (Config s)) (CreatedAt session)"
  let ?idle = "bound_exceeded E (SessionIdleTimeoutSeconds (Config s)) (LastUsedAt session)"
  obtain b s1 where 1: "run_state ?life s = (b, s1)" by (cases "run_state ?life s")
  obtain d s2 where 2: "run_state ?idle s1 = (d, s2)" by (cases "run_state ?idle s1")
  from assms 1 2 have e: "b = False" "d = False" "s2 = s'" by (auto simp: checkSessionBounds_def split: if_splits)
  show "in_bound E s s' (MaxSessionLifetimeSeconds (Config s)) (CreatedAt session)"
    by (rule in_bound_mono [OF bound_exceeded_False [OF 1 [unfolded e]] reaches.here moves_run [OF moves_bound 2 [unfolded e]]])
  show "in_bound E s s' (SessionIdleTimeoutSeconds (Config s)) (LastUsedAt session)"
    by (rule in_bound_mono [OF bound_exceeded_False [OF 2 [unfolded e]] moves_run [OF moves_bound 1] reaches.here])
qed

lemma validateSessionTicket_Some:
  assumes "run_state (validateSessionTicket E ticket) s = ((Some sess, c, u, err), s')"
  obtains s0 where "err = None" "validated E s s' sess c"
    "TryGetSession (Aead E) (JsonText E) (TimeText E) (fst (Now E (World s))) (Config s) ticket = Ok s0"
    "resumed E s s' s0 sess"
    "in_bound E s s' (MaxSessionLifetimeSeconds (Config s)) (CreatedAt s0)"
    "in_bound E s s' (SessionIdleTimeoutSeconds (Config s)) (LastUsedAt s0)"
proof -
  obtain t0 sn where n: "run_state (outside (Now E)) s = (t0, sn)" by (cases "run_state (outside (Now E)) s")
  have t0: "t0 = fst (Now E (World s))" and cfg: "Config sn = Config s" using n by (auto split: prod.splits)
  from assms n obtain ss where ss: "TryGetSession (Aead E) (JsonText E) (TimeText E) t0 (Config s) ticket = Ok ss"
    by (auto simp: validateSessionTicket_def simp del: run_outside split: sum.splits)
  obtain b s1 where b: "run_state (checkSessionBounds E ss) sn = (b, s1)" by (cases "run_state (checkSessionBounds E ss) sn")
  from assms n ss b have bN: "b = None" by (cases b) (auto simp: validateSessionTicket_def simp del: run_outside)
  obtain v s2 where v: "run_state (validateToken E ss) s1 = (v, s2)" by (cases "run_state (validateToken E ss) s1")
  let ?soon = "case v of Inr (True, _) \<Rightarrow> checkIdpTokenExpiresSoon E ss | _ \<Rightarrow> return False"
  obtain soon s3 where q: "run_state ?soon s2 = (soon, s3)" by (cases "run_state ?soon s2")
  obtain now s4 where l: "run_state (outside (Now E)) s3 = (now, s4)" by (cases "run_state (outside (Now E)) s3")
  have mq: "moves E ?soon" by (auto split: sum.splits bool.splits prod.splits intro: moving)
  have m0: "reaches E s sn" by (rule moves_run [OF moves_outside(1) n])
  have m1: "reaches E s s1" by (rule reaches_trans [OF moves_run [OF moves_checkSessionBounds b] m0])
  have m2: "reaches E s2 s3" by (rule moves_run [OF mq q])
  have m3: "reaches E s s3"
    by (rule reaches_trans [OF m2 reaches_trans [OF moves_run [OF moves_validateToken v] m1]])
  have m4: "reaches E s2 s4" by (rule reaches_trans [OF moves_run [OF moves_outside(1) l] m2])
  consider (used) "v = Ok (True, c)" "sess = ss\<lparr>LastUsedAt := now\<rparr>" "err = None" "s' = s4"
    | (renew) "RefreshToken ss \<noteq> []" "run_state (renew_session E ss) s3 = ((Some sess, c, u, err), s')"
    using assms n ss b bN v q l
    by (auto simp: validateSessionTicket_def simp del: run_outside split: sum.splits prod.splits if_splits)
  then have "err = None \<and> validated E s s' sess c \<and> resumed E s s' ss sess \<and> reaches E s1 s'"
  proof cases
    case used
    have "validated E s s' ss c" using v used m1 m4 by (intro validatedI [of E ss s1 c s2]) simp_all
    moreover have "reading E s s' now" using readingI [OF l m3 reaches.here] used by simp
    moreover have "reaches E s1 s'" using reaches_trans [OF m4 moves_run [OF moves_validateToken v]] used by simp
    ultimately show ?thesis using used unfolding resumed_def by auto
  next
    case renew
    note x = renew_session_Some [OF renew(2)]
    have "reaches E s1 s'"
      by (rule reaches_trans [OF reaches_trans [OF moves_run [OF moves_renew_session renew(2)] m2] moves_run [OF moves_validateToken v]])
    with x validated_mono [OF x(3) m3 reaches.here] renewed_mono [OF x(4) m3] renew(1) show ?thesis
      unfolding resumed_def by blast
  qed
  with checkSessionBounds_None [of E ss sn s1] b bN cfg m0 ss t0 that in_bound_mono show thesis by metis
qed

lemma cookie_session_Some:
  assumes "run_state (cookie_session E) s = ((Some sess, c, u, err), s')"
  obtains ticket where "readChunkedCookie (Req s) (getSessionCookieName (Config s)) = Ok ticket" "ticket \<noteq> []" "err = None"
    "run_state (validateSessionTicket E ticket) s = ((Some sess, c, u, None), s')"
  using assms by (auto simp: cookie_session_def split: sum.splits prod.splits if_splits option.splits)

text \<open>With a threshold that is not a number no token is renewed before it has expired.\<close>

lemma nan_never_renews:
  "TokenRenewalThreshold (Provider (Config s)) = NaN \<Longrightarrow> \<not> fst (run_state (checkIdpTokenExpiresSoon E session) s)"
  by (simp add: checkIdpTokenExpiresSoon_def Let_def split: prod.split)

section \<open>Properties\<close>

lemma getSession_origin:
  assumes "run_state (getSessionForRequest E) s = ((Some sess, c, updated, err), s')"
  shows "err = None" "validated E s s' sess c" "session_origin E s s' sess"
proof -
  consider (header) h where "external_header (Config s) (Req s) = Some h"
      "run_state (external_session E ''AuthorizationHeader'' h) s = ((Some sess, c, updated, err), s')"
    | (cookie) k where "external_header (Config s) (Req s) = None" "external_cookie (Config s) (Req s) = Some k"
      "run_state (external_session E ''AuthorizationCookie'' k) s = ((Some sess, c, updated, err), s')"
    | (sealed) "external_header (Config s) (Req s) = None" "external_cookie (Config s) (Req s) = None"
      "run_state (cookie_session E) s = ((Some sess, c, updated, err), s')"
    using assms by (auto simp: getSessionForRequest_def split: option.splits)
  then have "err = None \<and> validated E s s' sess c \<and> session_origin E s s' sess"
  proof cases
    case header
    with external_session_Some [OF header(2)] show ?thesis by (simp add: session_origin_def)
  next
    case cookie
    with external_session_Some [OF cookie(3)] show ?thesis by (simp add: session_origin_def)
  next
    case sealed
    from cookie_session_Some [OF sealed(3)] obtain ticket where
      t: "readChunkedCookie (Req s) (getSessionCookieName (Config s)) = Ok ticket" "err = None"
      and v: "run_state (validateSessionTicket E ticket) s = ((Some sess, c, updated, None), s')" .
    from validateSessionTicket_Some [OF v] t sealed show ?thesis unfolding session_origin_def by auto
  qed
  then show "err = None" "validated E s s' sess c" "session_origin E s s' sess" by blast+
qed

text \<open>
  C3. No session without a positive validation: a session that \<open>getSessionForRequest\<close>
  returns comes with a nil error and with claims that a token validation gave, which ran
  during this lookup, under its configuration, on the session's own tokens, and accepted. If
  the configured header carries a token the session is made of that token and nothing
  else; else if the configured cookie does, of that one; else the session cookie opens at the
  clock reading of the lookup, and the session is its content, used now, or that
  content with the tokens that the provider just gave for its refresh token.
\<close>

theorem getSessionForRequest_validated:
  assumes "run_state (getSessionForRequest E) s = ((Some sess, c, updated, err), s')"
  shows "err = None \<and> validated E s s' sess c \<and> session_origin E s s' sess"
  using getSession_origin [OF assms] by simp

text \<open>An environment whose introspection endpoint calls every token active.\<close>

definition active_env :: "unit env" where
  "active_env = dead_env\<lparr>
     Do := (\<lambda>r w. (Ok \<lparr>StatusCode = 200, RespHeader = (\<lambda>_. []), Body = ''A'', BodyErr = None\<rparr>, w)),
     JsonText := \<lparr>json_print = (\<lambda>_. []), json_parse = (\<lambda>s. if s = ''A'' then Some (JObj [(''active'', JBool True)]) else None),
       json_first = (\<lambda>_. None)\<rparr>\<rparr>"

definition sample_discovery :: OidcDiscovery where
  "sample_discovery = zero_discovery\<lparr>AuthorizationEndpoint := ''https://idp/auth'', EndSessionEndpoint := ''https://idp/end'',
     IntrospectionEndpoint := ''https://idp/introspect'', TokenEndpoint := ''https://idp/token''\<rparr>"

definition bearer_toa :: "unit toa" where
  "bearer_toa = sample_toa\<lparr>DiscoveryDocument := Some sample_discovery,
     Config := (Config sample_toa)\<lparr>AuthorizationHeader := Some ''Authorization'',
       Provider := (Provider (Config sample_toa))\<lparr>TokenValidation := ''Introspection''\<rparr>\<rparr>,
     Req := html_request\<lparr>Header := (\<lambda>_. [])(''Authorization'' := [''Bearer tok''])\<rparr>\<rparr>"

lemma bearer_header: "external_header (Config bearer_toa) (Req bearer_toa) = Some ''tok''"
proof -
  have "CanonicalHeaderKey ''Authorization'' = ''Authorization''" by code_simp
  then show ?thesis
    by (simp add: external_header_def bearer_toa_def Header_Get_def TrimPrefix_def HasPrefix_def)
qed

lemma bearer_session:
  "run_state (getSessionForRequest active_env) bearer_toa
     = ((Some (zero_session\<lparr>Id := ''AuthorizationHeader'', AccessToken := ''tok''\<rparr>), [(''active'', JBool True)], False, None), bearer_toa)"
proof -
  have "run_state (introspectToken active_env ''tok'') bearer_toa = (Ok (True, [(''active'', JBool True)]), bearer_toa)"
    by (simp add: introspectToken_def bearer_toa_def sample_toa_def sample_discovery_def add_assertion_def send_def
        active_env_def dead_env_def read_json_def read_limited_def maxOidcResponseBody_def)
  then have "run_state (external_session active_env ''AuthorizationHeader'' ''tok'') bearer_toa
      = ((Some (zero_session\<lparr>Id := ''AuthorizationHeader'', AccessToken := ''tok''\<rparr>), [(''active'', JBool True)], False, None), bearer_toa)"
    by (simp add: external_session_def Let_def validateToken_def token_of_def is_pseudo_def)
      (simp add: bearer_toa_def)
  then show ?thesis by (simp add: getSessionForRequest_def bearer_header)
qed

theorem getSessionForRequest_validated_witness:
  "\<exists>sess. run_state (getSessionForRequest active_env) bearer_toa = ((Some sess, [(''active'', JBool True)], False, None), bearer_toa)
     \<and> validated active_env bearer_toa bearer_toa sess [(''active'', JBool True)]"
  using bearer_session getSessionForRequest_validated [OF bearer_session] by blast

lemma bound_enforced:
  assumes "in_bound E s s' limit stamp" "0 < limit" "limit \<le> 9000000000" "stamp \<noteq> 0"
  shows "\<exists>now. reading E s s' now \<and> now - stamp \<le> limit * 1000000000"
proof -
  have dur: "seconds_dur limit = limit * 1000000000"
    using assms(2,3) by (simp add: seconds_dur_def Second_def wrap64_id int64_def)
  from assms obtain now where now: "reading E s s' now" "time_sub now stamp \<le> limit * 1000000000"
    by (auto simp: in_bound_def dur)
  moreover have "limit * 1000000000 < 2 ^ 63 - 1" using assms(3) by simp
  ultimately have "now - stamp \<le> limit * 1000000000" by (auto simp: time_sub_def)
  with now show ?thesis by blast
qed

text \<open>
  C34. The bounds of a session hold, and renewal does not extend its life: a session from
  the cookie keeps the \<open>CreatedAt\<close> and the authorization of the ticket it was sealed in; when a
  lifetime is set it was at most that old, and when an idle time is set the sealed session
  had been used at most that long ago, each at a clock reading of this validation.
\<close>

theorem session_bounds_enforced:
  assumes "run_state (validateSessionTicket E ticket) s = ((Some sess, c, updated, err), s')"
    and "\<forall>w. 0 < fst (Now E w)"
    and "MaxSessionLifetimeSeconds (Config s) \<le> 9000000000" "SessionIdleTimeoutSeconds (Config s) \<le> 9000000000"
  shows "\<exists>s0. TryGetSession (Aead E) (JsonText E) (TimeText E) (fst (Now E (World s))) (Config s) ticket = Ok s0
    \<and> same_origin s0 sess \<and> CreatedAt s0 \<noteq> 0 \<and> LastUsedAt s0 \<noteq> 0
    \<and> (0 < MaxSessionLifetimeSeconds (Config s) \<longrightarrow>
         (\<exists>now. reading E s s' now \<and> now - CreatedAt s0 \<le> MaxSessionLifetimeSeconds (Config s) * 1000000000))
    \<and> (0 < SessionIdleTimeoutSeconds (Config s) \<longrightarrow>
         (\<exists>now. reading E s s' now \<and> now - LastUsedAt s0 \<le> SessionIdleTimeoutSeconds (Config s) * 1000000000))"
proof -
  obtain s0 where t: "TryGetSession (Aead E) (JsonText E) (TimeText E) (fst (Now E (World s))) (Config s) ticket = Ok s0"
    and o: "resumed E s s' s0 sess"
    and b: "in_bound E s s' (MaxSessionLifetimeSeconds (Config s)) (CreatedAt s0)"
      "in_bound E s s' (SessionIdleTimeoutSeconds (Config s)) (LastUsedAt s0)"
    by (rule validateSessionTicket_Some [OF assms(1)])
  have "fst (Now E (World s)) \<noteq> 0" using assms(2) by (metis less_irrefl)
  with t have nz: "CreatedAt s0 \<noteq> 0" "LastUsedAt s0 \<noteq> 0" using TryGetSession_nonzero by blast+
  with t resumed_same [OF o] bound_enforced [OF b(1)] bound_enforced [OF b(2)] assms(3,4) show ?thesis by blast
qed

text \<open>The same environment early in time, with a text \<open>S\<close> that reads as a session.\<close>

definition session_env :: "unit env" where
  "session_env = active_env\<lparr>Now := (\<lambda>w. (5, w)),
     JsonText := \<lparr>json_print = (\<lambda>_. []), json_parse = (\<lambda>s. if s = ''A'' then Some (JObj [(''active'', JBool True)])
       else if s = ''S'' then Some (JObj (session_pairs ''t'' ''t'' ''t'' (zero_session\<lparr>Id := ''s1'', AccessToken := ''tok'', IsAuthorized := True\<rparr>)))
       else None), json_first = (\<lambda>_. None)\<rparr>\<rparr>"

definition cookie_toa :: "unit toa" where
  "cookie_toa = bearer_toa\<lparr>Config := (Config bearer_toa)\<lparr>AuthorizationHeader := None, MaxSessionLifetimeSeconds := 3600,
     SessionIdleTimeoutSeconds := 600\<rparr>\<rparr>"

definition s1_session :: SessionState where
  "s1_session = zero_session\<lparr>Id := ''s1'', AccessToken := ''tok'', IsAuthorized := True, RefreshedAt := 1, CreatedAt := 1, LastUsedAt := 1\<rparr>"

lemma s1_ticket:
  "\<exists>ticket. ticket \<noteq> [] \<and> (\<forall>now. TryGetSession (Aead session_env) (JsonText session_env) (TimeText session_env) now
    (Config cookie_toa) ticket = Ok s1_session)"
proof -
  have sec: "Secret (Config cookie_toa) = DefaultSecret"
    by (simp add: cookie_toa_def bearer_toa_def sample_toa_def migrateAuthBehaviors_def CreateConfig_def Let_def)
  have k: "aes_key_ok DefaultSecret" by (simp add: aes_key_ok_def DefaultSecret_def)
  obtain c where c: "EncryptWithPurpose ideal_aead (Some (replicate 12 CHR ''n'')) ''S'' DefaultSecret PurposeSession = Ok c"
    using EncryptWithPurpose_Ok [OF k] by blast
  have d: "DecryptWithPurpose ideal_aead c DefaultSecret PurposeSession = Ok ''S''"
    by (rule DecryptWithPurpose_Encrypt [OF ideal_aead_correct k _ c]) (simp add: NonceSize_def)
  then have ne: "c \<noteq> []" by (auto simp: DecryptWithPurpose_def)
  have p: "session_pairs ''t'' ''t'' ''t'' (zero_session\<lparr>Id := ''s1'', AccessToken := ''tok'', IsAuthorized := True\<rparr>)
      = session_pairs ''t'' ''t'' ''t'' s1_session" by (simp add: session_pairs_def s1_session_def)
  have f: "decode_fields (session_fields unary_time) (session_pairs ''t'' ''t'' ''t'' s1_session) zero_session = Some s1_session"
    by (rule decode_session_pairs) (simp_all add: unary_time_def s1_session_def zero_session_def int64_def)
  have b: "backfill_session now s1_session = s1_session" for now by (simp add: backfill_stamped s1_session_def)
  have "TryGetSession (Aead session_env) (JsonText session_env) (TimeText session_env) now (Config cookie_toa) c = Ok s1_session" for now
    by (simp add: TryGetSession_def open_ticket_def sec session_env_def active_env_def dead_env_def d p decode_struct_def f b)
  with ne show ?thesis by blast
qed

lemma s1_validated:
  "run_state (validateToken session_env s1_session) cookie_toa = (Ok (True, [(''active'', JBool True)]), cookie_toa)"
  by (simp add: validateToken_def token_of_def is_pseudo_def s1_session_def zero_session_def introspectToken_def cookie_toa_def
      bearer_toa_def sample_toa_def sample_discovery_def add_assertion_def send_def session_env_def active_env_def dead_env_def
      read_json_def read_limited_def maxOidcResponseBody_def)

lemma s1_accepted:
  assumes "\<And>now. TryGetSession (Aead session_env) (JsonText session_env) (TimeText session_env) now (Config cookie_toa) ticket = Ok s1_session"
  shows "run_state (validateSessionTicket session_env ticket) cookie_toa
    = ((Some (s1_session\<lparr>LastUsedAt := 5\<rparr>), [(''active'', JBool True)], False, None), cookie_toa)"
proof -
  have now: "run_state (outside (Now session_env)) cookie_toa = (5, cookie_toa)"
    by (simp add: session_env_def)
  have cfg: "MaxSessionLifetimeSeconds (Config cookie_toa) = 3600" "SessionIdleTimeoutSeconds (Config cookie_toa) = 600"
    by (simp_all add: cookie_toa_def bearer_toa_def sample_toa_def migrateAuthBehaviors_def CreateConfig_def Let_def)
  have b: "run_state (checkSessionBounds session_env s1_session) cookie_toa = (None, cookie_toa)"
    using now by (simp add: checkSessionBounds_def bound_exceeded_def cfg del: run_outside)
      (simp add: s1_session_def time_sub_def seconds_dur_def wrap64_def Second_def)
  have e: "run_state (checkIdpTokenExpiresSoon session_env s1_session) cookie_toa = (False, cookie_toa)"
    by (simp add: checkIdpTokenExpiresSoon_def s1_session_def zero_session_def)
  show ?thesis
    using now by (simp add: validateSessionTicket_def assms b e s1_validated del: run_outside)
qed

theorem session_bounds_enforced_witness:
  "\<exists>ticket s0. run_state (validateSessionTicket session_env ticket) cookie_toa
       = ((Some (s1_session\<lparr>LastUsedAt := 5\<rparr>), [(''active'', JBool True)], False, None), cookie_toa)
     \<and> same_origin s0 (s1_session\<lparr>LastUsedAt := 5\<rparr>)
     \<and> (\<exists>now. reading session_env cookie_toa cookie_toa now \<and> now - CreatedAt s0 \<le> 3600000000000)
     \<and> (\<exists>now. reading session_env cookie_toa cookie_toa now \<and> now - LastUsedAt s0 \<le> 600000000000)"
proof -
  obtain ticket where t: "\<And>now. TryGetSession (Aead session_env) (JsonText session_env) (TimeText session_env) now
    (Config cookie_toa) ticket = Ok s1_session" using s1_ticket by blast
  have cfg: "MaxSessionLifetimeSeconds (Config cookie_toa) = 3600" "SessionIdleTimeoutSeconds (Config cookie_toa) = 600"
    by (simp_all add: cookie_toa_def)
  have now: "\<forall>w. 0 < fst (Now session_env w)" by (simp add: session_env_def)
  note r = s1_accepted [of ticket, OF t]
  from session_bounds_enforced [OF r now] r show ?thesis by (auto simp: cfg)
qed

end
