(* ===== verification/Upstream.thy ===== *)
theory Upstream
  imports SessionFlow
begin

text \<open>
  What \<open>src/main.go\<close> does around forwarding a request: the discovery that has to precede
  it, the cleaning of the request, the configured headers, and the decision to re-seal the
  session ticket. The consequence of a discovery document without an issuer is stated here.
\<close>

section \<open>Discovery\<close>

text \<open>
  The document is published last. The struct holds the fresh key cache already when the
  fetch fails.
\<close>

definition publish_discovery :: "OidcDiscovery \<Rightarrow> 'w toa \<Rightarrow> 'w toa" where
  "publish_discovery doc s =
     (let p = Provider (Config s);
          issuer = (if ValidIssuer p = [] then Issuer doc else ValidIssuer p);
          audience = (if ValidAudience p = [] then ClientId p else ValidAudience p)
      in s\<lparr>Jwks := (Jwks s)\<lparr>JwksUrl := JWKSURI doc\<rparr>, validIssuer := issuer, validAudience := audience,
           Config := (Config s)\<lparr>Provider := p\<lparr>ValidIssuer := issuer, ValidAudience := audience\<rparr>\<rparr>,
           DiscoveryDocument := Some doc\<rparr>)"

definition EnsureOidcDiscovery :: "'w env \<Rightarrow> ('w, error option) m" where
  "EnsureOidcDiscovery E = do {
     doc \<leftarrow> ask DiscoveryDocument;
     if doc \<noteq> None then return None
     else do {
       parsedURL \<leftarrow> ask ProviderURL;
       change (\<lambda>s. s\<lparr>Jwks := new_jwks\<rparr>);
       r \<leftarrow> GetOidcDiscoveryContext E parsedURL;
       case r of
         Inl e \<Rightarrow> return (Some e)
       | Inr d \<Rightarrow> do { change (publish_discovery d); return None }
     }
   }"

definition effectiveValidIssuer :: "'w toa \<Rightarrow> string" where
  "effectiveValidIssuer s = (if validIssuer s \<noteq> [] then validIssuer s else ValidIssuer (Provider (Config s)))"

section \<open>Cleaning the request\<close>

definition clientIdentityHeaders :: "string list" where
  "clientIdentityHeaders =
     [''X-Forwarded-User'', ''X-Forwarded-Groups'', ''X-Forwarded-Email'', ''X-Auth-Request-User'',
      ''X-Auth-Request-Email'', ''X-Auth-Request-Groups'', ''X-Auth-Request-Preferred-Username'',
      ''Remote-User'', ''Remote-Groups'', ''X-Auth-Request-Access-Token'', ''X-Auth-Request-Token'',
      ''X-Forwarded-Access-Token'']"

definition sanitizeForUpstream :: "Config \<Rightarrow> request \<Rightarrow> request" where
  "sanitizeForUpstream cfg req =
     (let keepCookies = filter (\<lambda>c. \<not> HasPrefix (fst c) (CookieNamePrefix cfg)) (Cookies req);
          h1 = Header_Del ''Cookie'' (Header req);
          h2 = fold AddCookie keepCookies h1;
          h3 = fold Header_Del clientIdentityHeaders h2
      in req\<lparr>Header := h3\<rparr>)"

definition next_ServeHTTP :: "('w, unit) m" where
  "next_ServeHTTP = do { req \<leftarrow> ask Req; emit (\<lambda>rw. rw @ [EvForward req]) }"

definition sanitize :: "('w, unit) m" where
  "sanitize = change (\<lambda>s. s\<lparr>Req := sanitizeForUpstream (Config s) (Req s)\<rparr>)"

definition forwardToUpstream :: "('w, unit) m" where
  "forwardToUpstream = do { sanitize; next_ServeHTTP }"

definition hasSessionMaterial :: "Config \<Rightarrow> request \<Rightarrow> bool" where
  "hasSessionMaterial cfg req \<longleftrightarrow>
     (case readChunkedCookie req (getSessionCookieName cfg) of Inr ticket \<Rightarrow> ticket \<noteq> [] | Inl _ \<Rightarrow> False)
     \<or> (case AuthorizationHeader cfg of
          Some name \<Rightarrow> name \<noteq> [] \<and> Header_Get (Header req) name \<noteq> [] | None \<Rightarrow> False)
     \<or> (case AuthorizationCookie cfg of
          Some name \<Rightarrow> name \<noteq> [] \<and> (case Cookie req name of Some v \<Rightarrow> v \<noteq> [] | None \<Rightarrow> False) | None \<Rightarrow> False)"

section \<open>When to write the ticket again\<close>

definition maxTrackedSessions :: nat where
  "maxTrackedSessions = 20000"

definition lastWrite :: "sessionWriteTracker \<Rightarrow> string \<Rightarrow> int option" where
  "lastWrite t sessionId = last_write t sessionId"

definition mark_write :: "int \<Rightarrow> string \<Rightarrow> sessionWriteTracker \<Rightarrow> sessionWriteTracker" where
  "mark_write now sessionId t =
     (let t1 = (if maxTrackedSessions \<le> write_count t then \<lparr>last_write = Map.empty, write_count = 0\<rparr> else t)
      in \<lparr>last_write = (last_write t1)(sessionId \<mapsto> now), write_count = Suc (write_count t1)\<rparr>)"

definition mark :: "'w env \<Rightarrow> string \<Rightarrow> ('w, unit) m" where
  "mark E sessionId = do {
     now \<leftarrow> outside (Now E);
     change (\<lambda>s. s\<lparr>sessionWrites := mark_write now sessionId (sessionWrites s)\<rparr>)
   }"

definition refresh_interval :: "int \<Rightarrow> int" where
  "refresh_interval idle = (let i = idle div 4; j = (if 60 < i then 60 else i) in if j \<le> 0 then 1 else j)"

definition sessionIdleRefreshDue :: "'w env \<Rightarrow> string \<Rightarrow> ('w, bool) m" where
  "sessionIdleRefreshDue E sessionId = do {
     idle \<leftarrow> conf SessionIdleTimeoutSeconds;
     if sessionId = [] \<or> is_pseudo sessionId \<or> idle \<le> 0 then return False
     else do {
       w \<leftarrow> ask (\<lambda>s. lastWrite (sessionWrites s) sessionId);
       case w of
         None \<Rightarrow> return True
       | Some t \<Rightarrow> do {
           now \<leftarrow> outside (Now E);
           return (seconds_dur (refresh_interval idle) \<le> time_sub now t)
         }
     }
   }"

definition sessionLifetimeStampDue :: "string \<Rightarrow> ('w, bool) m" where
  "sessionLifetimeStampDue sessionId = do {
     m \<leftarrow> conf MaxSessionLifetimeSeconds;
     w \<leftarrow> ask (\<lambda>s. lastWrite (sessionWrites s) sessionId);
     return (if m \<le> 0 \<or> sessionId = [] \<or> is_pseudo sessionId then False else w = None)
   }"

definition sessionStoreDue :: "'w env \<Rightarrow> string \<Rightarrow> bool \<Rightarrow> ('w, bool) m" where
  "sessionStoreDue E sessionId updatedSession =
     (if updatedSession then return True
      else do {
        idle \<leftarrow> sessionIdleRefreshDue E sessionId;
        if idle then return True else sessionLifetimeStampDue sessionId
      })"

section \<open>The configured headers\<close>

text \<open>
  Decoding into \<open>[]string\<close>: an element of another type is an error but leaves its slot
  empty, and what was decoded stays.
\<close>

fun decode_strings :: "json option \<Rightarrow> string list" where
  "decode_strings (Some (JArr vs)) = map (\<lambda>v. case v of JStr s \<Rightarrow> s | _ \<Rightarrow> []) vs"
| "decode_strings _ = []"

definition decode_strings_error :: "json option \<Rightarrow> bool" where
  "decode_strings_error j =
     (case j of
        Some (JArr vs) \<Rightarrow> \<not> list_all string_or_null vs
      | Some JNull \<Rightarrow> False
      | _ \<Rightarrow> True)"

fun set_values :: "string \<Rightarrow> nat \<Rightarrow> string list \<Rightarrow> header \<Rightarrow> header" where
  "set_values name i [] h = h"
| "set_values name i (v # vs) h =
     set_values name (Suc i) vs (if i = 0 then Header_Set name v h else Header_Add name v h)"

definition attach_one :: "'w env \<Rightarrow> tpl_context \<Rightarrow> HeaderConfig \<Rightarrow> header \<Rightarrow> header result" where
  "attach_one E ctx hc h =
     (let name = Header_Name hc
      in if Header_Value hc \<noteq> []
         then (case TplParse E (Header_Value hc) of
                 Some e \<Rightarrow> Err e
               | None \<Rightarrow>
                   (case TplExecute E (Header_Value hc) ctx of (out, err) \<Rightarrow>
                      (case err of None \<Rightarrow> Ok (Header_Set name out h) | Some e \<Rightarrow> Ok (Header_Set name e h))))
         else if Header_Values hc \<noteq> []
         then (case TplParse E (Header_Values hc) of
                 Some e \<Rightarrow> Err e
               | None \<Rightarrow>
                   (case TplExecute E (Header_Values hc) ctx of (out, err) \<Rightarrow>
                      (let h1 = (case err of None \<Rightarrow> h | Some e \<Rightarrow> Header_Set name e h);
                           j = json_parse (JsonText E) out;
                           h2 = (if decode_strings_error j then Header_Set name ''json: cannot unmarshal into []string'' h1 else h1);
                           vs = decode_strings j
                       in if vs \<noteq> [] then Ok (set_values name 0 vs h2) else Ok (Header_Del name h2))))
         else Ok (Header_Set name [] h))"

fun attach_loop :: "'w env \<Rightarrow> tpl_context \<Rightarrow> bool \<Rightarrow> bool \<Rightarrow> HeaderConfig list \<Rightarrow> header \<Rightarrow> header \<times> error option" where
  "attach_loop E ctx isPublicRoute authorized [] h = (h, None)"
| "attach_loop E ctx isPublicRoute authorized (hc # hcs) h =
     (if isPublicRoute \<and> IncludeWhen hc \<noteq> ''Always'' \<and> IncludeWhen hc \<noteq> ''Public''
      then attach_loop E ctx isPublicRoute authorized hcs h
      else if \<not> authorized \<and> IncludeWhen hc \<noteq> ''Always'' \<and> IncludeWhen hc \<noteq> ''Forward''
      then attach_loop E ctx isPublicRoute authorized hcs h
      else case attach_one E ctx hc h of
             Inl e \<Rightarrow> (h, Some e)
           | Inr h' \<Rightarrow> attach_loop E ctx isPublicRoute authorized hcs h')"

definition attachHeaders :: "'w env \<Rightarrow> SessionState \<Rightarrow> claims \<Rightarrow> bool \<Rightarrow> bool \<Rightarrow> ('w, error option) m" where
  "attachHeaders E session claims isPublicRoute authorized = do {
     cfg \<leftarrow> ask Config;
     req \<leftarrow> ask Req;
     let ctx = \<lparr>ctx_claims = claims, ctx_accessToken = AccessToken session, ctx_idToken = IdToken session,
       ctx_refreshToken = RefreshToken session\<rparr>;
     case attach_loop E ctx isPublicRoute authorized (Headers cfg) (Header req) of (h, err) \<Rightarrow> do {
       change (\<lambda>s. s\<lparr>Req := (Req s)\<lparr>Header := h\<rparr>\<rparr>);
       return err
     }
   }"

section \<open>Lemmas\<close>

lemma inner_sessionIdleRefreshDue [inners]: "inner (sessionIdleRefreshDue E sid)"
  unfolding sessionIdleRefreshDue_def by (intro inners)

lemma inner_sessionLifetimeStampDue [inners]: "inner (sessionLifetimeStampDue sid)"
  unfolding sessionLifetimeStampDue_def by (intro inners)

lemma inner_sessionStoreDue [inners]: "inner (sessionStoreDue E sid updated)"
  unfolding sessionStoreDue_def by (intro inners)

lemma canonical_identity: "list_all (\<lambda>k. CanonicalHeaderKey k = k) clientIdentityHeaders"
  by code_simp

lemma fold_Header_Del:
  "fold Header_Del ks h k = (if k \<in> CanonicalHeaderKey ` set ks then [] else h k)"
  by (induction ks arbitrary: h) (auto simp: Header_Del_def)

lemma identity_keys: "CanonicalHeaderKey ` set clientIdentityHeaders = set clientIdentityHeaders"
  using canonical_identity by (force simp: list_all_iff)

lemma AddCookie_other: "k \<noteq> ''Cookie'' \<Longrightarrow> AddCookie ck h k = h k"
  by (cases ck) (simp add: AddCookie_def Header_Set_def canonical_Cookie Let_def)

lemma fold_AddCookie_other: "k \<noteq> ''Cookie'' \<Longrightarrow> fold AddCookie cks h k = h k"
  by (induction cks arbitrary: h) (simp_all add: AddCookie_other)

lemma not_identity_Cookie: "''Cookie'' \<notin> set clientIdentityHeaders"
  by (simp add: clientIdentityHeaders_def)

lemma set_values_other: "k \<noteq> CanonicalHeaderKey name \<Longrightarrow> set_values name i vs h k = h k"
  by (induction name i vs h rule: set_values.induct) (auto simp: Header_Set_def Header_Add_def)

lemma attach_one_other:
  "attach_one E ctx hc h = Ok h' \<Longrightarrow> k \<noteq> CanonicalHeaderKey (Header_Name hc) \<Longrightarrow> h' k = h k"
  by (auto simp: attach_one_def Let_def Header_Set_def Header_Del_def set_values_other
      split: option.splits prod.splits if_splits)

text \<open>The headers that may be set: configured, and included on this kind of request.\<close>

definition attachable :: "bool \<Rightarrow> bool \<Rightarrow> HeaderConfig \<Rightarrow> bool" where
  "attachable isPublicRoute authorized hc \<longleftrightarrow>
     (isPublicRoute \<longrightarrow> IncludeWhen hc \<in> {''Always'', ''Public''})
     \<and> (\<not> authorized \<longrightarrow> IncludeWhen hc \<in> {''Always'', ''Forward''})"

lemma attach_loop_other:
  "\<forall>hc \<in> set hcs. attachable pub auth hc \<longrightarrow> k \<noteq> CanonicalHeaderKey (Header_Name hc) \<Longrightarrow>
     fst (attach_loop E ctx pub auth hcs h) k = h k"
  by (induction hcs arbitrary: h) (auto simp: attachable_def attach_one_other split: sum.splits)

section \<open>Properties\<close>

lemma upstream_identity: "k \<in> set clientIdentityHeaders \<Longrightarrow> Header (sanitizeForUpstream cfg req) k = []"
  by (simp add: sanitizeForUpstream_def Let_def fold_Header_Del identity_keys)

text \<open>
  C32. The cleaned request carries no cookie of the middleware and no identity header; every
  other cookie keeps its name, value and place, and every other header is untouched.
\<close>

theorem sanitizeForUpstream_clean:
  "map name_value (Cookies (sanitizeForUpstream cfg req))
     = filter (\<lambda>nv. \<not> HasPrefix (fst nv) (CookieNamePrefix cfg)) (map name_value (Cookies req))
   \<and> (\<forall>k \<in> set clientIdentityHeaders. Header (sanitizeForUpstream cfg req) k = [])
   \<and> (\<forall>k. k \<noteq> ''Cookie'' \<and> k \<notin> set clientIdentityHeaders \<longrightarrow> Header (sanitizeForUpstream cfg req) k = Header req k)"
proof (intro conjI ballI allI impI)
  let ?keep = "filter (\<lambda>c. \<not> HasPrefix (fst c) (CookieNamePrefix cfg)) (Cookies req)"
  let ?h = "Header (sanitizeForUpstream cfg req)"
  have h: "?h k = (if k \<in> set clientIdentityHeaders then []
      else fold AddCookie ?keep (Header_Del ''Cookie'' (Header req)) k)" for k
    by (simp add: sanitizeForUpstream_def Let_def fold_Header_Del identity_keys)
  show "?h k = []" if "k \<in> set clientIdentityHeaders" for k using h that by simp
  show "?h k = Header req k" if "k \<noteq> ''Cookie'' \<and> k \<notin> set clientIdentityHeaders" for k
    using that by (simp add: h fold_AddCookie_other Header_Del_def canonical_Cookie)
  have a: "Cookies (sanitizeForUpstream cfg req) = readCookies (fold AddCookie ?keep (Header_Del ''Cookie'' (Header req)))"
    by (simp add: Cookies_def readCookies_def h not_identity_Cookie)
  have b: "map name_value (readCookies (fold AddCookie ?keep (Header_Del ''Cookie'' (Header req)))) = map name_value ?keep"
    by (rule readCookies_AddCookie) (auto simp: Cookies_def dest: readCookies_valid)
  show "map name_value (Cookies (sanitizeForUpstream cfg req))
     = filter (\<lambda>nv. \<not> HasPrefix (fst nv) (CookieNamePrefix cfg)) (map name_value (Cookies req))"
    unfolding a b by (simp add: filter_map comp_def name_value_def)
qed

theorem sanitizeForUpstream_clean_witness:
  "Header (sanitizeForUpstream CreateConfig (html_request\<lparr>Header := (\<lambda>_. [])(''X-Forwarded-User'' := [''root''])\<rparr>))
     ''X-Forwarded-User'' = []"
  using sanitizeForUpstream_clean [of CreateConfig "html_request\<lparr>Header := (\<lambda>_. [])(''X-Forwarded-User'' := [''root''])\<rparr>"]
  by (simp add: clientIdentityHeaders_def)

definition tracker_ok :: "sessionWriteTracker \<Rightarrow> bool" where
  "tracker_ok t \<longleftrightarrow> finite (dom (last_write t)) \<and> card (dom (last_write t)) \<le> write_count t
     \<and> write_count t \<le> maxTrackedSessions"

lemma mark_write_ok:
  assumes "tracker_ok t"
  shows "tracker_ok (mark_write now sid t)"
proof -
  have one: "card (insert x A) \<le> Suc (card A)" for x and A :: "string set"
    by (cases "finite A") (simp_all add: card_insert_le_m1 card_insert_if)
  show ?thesis
    using assms le_trans [OF one] by (auto simp: tracker_ok_def mark_write_def Let_def maxTrackedSessions_def)
qed

text \<open>
  The write tracker is bounded: it never holds more than 20000 sessions, whatever
  sequence of writes it records.
\<close>

theorem tracker_bounded:
  "card (dom (last_write (fold (\<lambda>(now, sid). mark_write now sid) writes \<lparr>last_write = Map.empty, write_count = 0\<rparr>)))
     \<le> maxTrackedSessions"
proof -
  have "tracker_ok (fold (\<lambda>(now, sid). mark_write now sid) writes t)" if "tracker_ok t" for t
    using that by (induction writes arbitrary: t) (auto simp: mark_write_ok)
  from this [of "\<lparr>last_write = Map.empty, write_count = 0\<rparr>"] show ?thesis
    by (auto simp: tracker_ok_def)
qed

text \<open>
  The durable idle stamp is never far behind: when an idle bound is set and the ticket of
  a cookie session is not rewritten, this process wrote one less than a quarter of the
  bound ago (a minute at most, a second at least).
\<close>

theorem idle_stamp_lag:
  assumes "run_state (sessionStoreDue E sid updated) s = (False, s')"
    and "0 < SessionIdleTimeoutSeconds (Config s)" "sid \<noteq> []" "\<not> is_pseudo sid"
  shows "\<exists>t w. lastWrite (sessionWrites s) sid = Some t
    \<and> time_sub (fst (Now E w)) t < refresh_interval (SessionIdleTimeoutSeconds (Config s)) * 1000000000
    \<and> refresh_interval (SessionIdleTimeoutSeconds (Config s)) \<le> max 1 (min 60 (SessionIdleTimeoutSeconds (Config s) div 4))"
proof -
  let ?i = "SessionIdleTimeoutSeconds (Config s)"
  have r: "1 \<le> refresh_interval ?i" "refresh_interval ?i \<le> 60" "refresh_interval ?i \<le> max 1 (min 60 (?i div 4))"
    by (auto simp: refresh_interval_def Let_def)
  have dur: "seconds_dur (refresh_interval ?i) = refresh_interval ?i * 1000000000"
    using r(1,2) by (simp add: seconds_dur_def Second_def wrap64_id int64_def)
  obtain b s1 where b: "run_state (sessionIdleRefreshDue E sid) s = (b, s1)"
    by (cases "run_state (sessionIdleRefreshDue E sid) s")
  with assms(1) have "b = False" by (auto simp: sessionStoreDue_def split: if_splits)
  with b assms(2-4) obtain t where t: "lastWrite (sessionWrites s) sid = Some t"
    and n: "\<not> seconds_dur (refresh_interval ?i) \<le> time_sub (fst (Now E (World s))) t"
    by (auto simp: sessionIdleRefreshDue_def split: option.splits prod.splits if_splits)
  with r(3) dur show ?thesis by (intro exI [of _ t] exI [of _ "World s"]) simp
qed

theorem idle_stamp_lag_witness:
  "\<exists>t w. lastWrite (sessionWrites (sample_toa\<lparr>Config := (Config sample_toa)\<lparr>SessionIdleTimeoutSeconds := 300\<rparr>,
      sessionWrites := mark_write 63000000000000000000 ''s1'' (sessionWrites sample_toa)\<rparr>)) ''s1'' = Some t
    \<and> time_sub (fst (Now dead_env w)) t < 60 * 1000000000"
proof -
  let ?s = "sample_toa\<lparr>Config := (Config sample_toa)\<lparr>SessionIdleTimeoutSeconds := 300\<rparr>,
      sessionWrites := mark_write 63000000000000000000 ''s1'' (sessionWrites sample_toa)\<rparr>"
  have m: "lastWrite (sessionWrites ?s) ''s1'' = Some 63000000000000000000" by (simp add: lastWrite_def mark_write_def Let_def)
  have "MaxSessionLifetimeSeconds (Config ?s) = 0"
    by (simp add: sample_toa_def migrateAuthBehaviors_def CreateConfig_def Let_def)
  then have "run_state (sessionStoreDue dead_env ''s1'' False) ?s = (False, ?s)"
    using m by (simp add: sessionStoreDue_def sessionIdleRefreshDue_def sessionLifetimeStampDue_def is_pseudo_def dead_env_def
        time_sub_def refresh_interval_def seconds_dur_def wrap64_def Second_def sample_toa_def)
  from idle_stamp_lag [OF this] show ?thesis by (simp add: refresh_interval_def is_pseudo_def)
qed

section \<open>A discovery document without an issuer\<close>

text \<open>\<open>blind m\<close>: the computation neither reads nor changes the configuration.\<close>

definition blind :: "('w, 'a) m \<Rightarrow> bool" where
  "blind m \<longleftrightarrow> (\<forall>s c. run_state m (s\<lparr>Config := c\<rparr>) = apsnd (\<lambda>t. t\<lparr>Config := c\<rparr>) (run_state m s))"

lemma blind_bind: "blind m \<Longrightarrow> (\<And>x. blind (k x)) \<Longrightarrow> blind (m \<bind> k)"
  by (auto simp: blind_def split: prod.split)

lemma blind_plain: "blind (return x)" "blind (outside g)" "blind (ask Jwks)"
  by (simp_all add: blind_def split: prod.split)

lemma blind_ask: "(\<And>s c. f (s\<lparr>Config := c\<rparr>) = f s) \<Longrightarrow> blind (ask f)"
  by (simp add: blind_def)

lemma blind_change: "(\<And>s c. f (s\<lparr>Config := c\<rparr>) = (f s)\<lparr>Config := c\<rparr>) \<Longrightarrow> blind (change f)"
  by (simp add: blind_def)

lemma blind_branch:
  "blind m \<Longrightarrow> blind m' \<Longrightarrow> blind (if b then m else m')"
  "(\<And>e. blind (g e)) \<Longrightarrow> (\<And>y. blind (h y)) \<Longrightarrow> blind (case x of Inl e \<Rightarrow> g e | Inr y \<Rightarrow> h y)"
  "blind n \<Longrightarrow> (\<And>y. blind (k y)) \<Longrightarrow> blind (case z of None \<Rightarrow> n | Some y \<Rightarrow> k y)"
  "(\<And>a b. blind (l a b)) \<Longrightarrow> blind (case w of (a, b) \<Rightarrow> l a b)"
  by (cases x; cases z; cases w; simp)+

lemmas blinds = blind_bind blind_plain blind_ask blind_change blind_branch

lemma blind_EnsureLoaded: "blind (EnsureLoadedContext E force)"
  unfolding EnsureLoadedContext_def loadKeysContext_def send_def by (intro blinds) simp_all

lemma blind_retry: "blind (parseJwtWithJwksRetry E tok opts)"
  unfolding parseJwtWithJwksRetry_def parse_once_def by (intro blinds blind_EnsureLoaded)

text \<open>The configuration with \<open>ValidateIssuer\<close> off.\<close>

definition issuer_off :: "'w toa \<Rightarrow> 'w toa" where
  "issuer_off s = s\<lparr>Config := (Config s)\<lparr>Provider := (Provider (Config s))\<lparr>ValidateIssuerBool := False\<rparr>\<rparr>\<rparr>"

lemma unset_issuer_unchecked:
  assumes "ValidIssuer (Provider (Config s)) = []"
  shows "fst (run_state (validateTokenLocally E tok nonce) s) = fst (run_state (validateTokenLocally E tok nonce) (issuer_off s))"
proof -
  have o: "token_options ((Provider (Config s))\<lparr>ValidateIssuerBool := False\<rparr>) = token_options (Provider (Config s))"
    using assms by (simp add: token_options_def)
  obtain x t where r: "run_state (parseJwtWithJwksRetry E tok (token_options (Provider (Config s)))) s = (x, t)"
    by (cases "run_state (parseJwtWithJwksRetry E tok (token_options (Provider (Config s)))) s")
  then have "run_state (parseJwtWithJwksRetry E tok (token_options (Provider (Config s)))) (issuer_off s)
      = (x, t\<lparr>Config := Config (issuer_off s)\<rparr>)"
    using blind_retry [of E tok "token_options (Provider (Config s))"] by (simp add: issuer_off_def blind_def)
  with r o show ?thesis by (cases x) (simp_all add: validateTokenLocally_def issuer_off_def)
qed

text \<open>
  C39. A discovery document without an \<open>issuer\<close>, when none is configured, is accepted, and
  leaves the expected issuer empty. From then on a token is judged as with \<open>ValidateIssuer\<close>
  switched off, whether or not it is on: any issuer will do.
\<close>

theorem empty_issuer_unchecked:
  assumes "DiscoveryDocument s = None" "ValidIssuer (Provider (Config s)) = []"
    and "run_state (GetOidcDiscoveryContext E (ProviderURL s)) (s\<lparr>Jwks := new_jwks\<rparr>) = (Ok d, t)" "Issuer d = []"
  shows "\<exists>s1. run_state (EnsureOidcDiscovery E) s = (None, s1) \<and> DiscoveryDocument s1 = Some d
    \<and> ValidateIssuerBool (Provider (Config s1)) = ValidateIssuerBool (Provider (Config s)) \<and> effectiveValidIssuer s1 = []
    \<and> (\<forall>tok nonce. fst (run_state (validateTokenLocally E tok nonce) s1)
          = fst (run_state (validateTokenLocally E tok nonce) (issuer_off s1)))"
proof -
  have "inner (GetOidcDiscoveryContext E (ProviderURL s))" by (intro inners)
  from inner_run [OF this assms(3)] obtain w h where t: "t = s\<lparr>World := w, Jwks := h\<rparr>" by fastforce
  let ?s1 = "publish_discovery d t"
  have c: "ValidIssuer (Provider (Config ?s1)) = []" using assms(2,4) by (simp add: publish_discovery_def Let_def t)
  have "run_state (EnsureOidcDiscovery E) s = (None, ?s1)" using assms(1,3) by (simp add: EnsureOidcDiscovery_def)
  moreover have "DiscoveryDocument ?s1 = Some d" "effectiveValidIssuer ?s1 = []"
    "ValidateIssuerBool (Provider (Config ?s1)) = ValidateIssuerBool (Provider (Config s))"
    using assms(2,4) by (simp_all add: publish_discovery_def effectiveValidIssuer_def Let_def t)
  ultimately show ?thesis using unset_issuer_unchecked [OF c] by blast
qed

text \<open>A provider whose discovery document is the empty object.\<close>

definition nameless_env :: "unit env" where
  "nameless_env = dead_env\<lparr>
     Do := (\<lambda>r w. (Ok \<lparr>StatusCode = 200, RespHeader = (\<lambda>_. []), Body = ''D'', BodyErr = None\<rparr>, w)),
     JsonText := \<lparr>json_print = (\<lambda>_. []), json_parse = (\<lambda>_. None), json_first = (\<lambda>s. if s = ''D'' then Some (JObj []) else None)\<rparr>\<rparr>"

theorem empty_issuer_unchecked_witness:
  "\<exists>s1. run_state (EnsureOidcDiscovery nameless_env) sample_toa = (None, s1)
     \<and> ValidateIssuerBool (Provider (Config s1)) \<and> effectiveValidIssuer s1 = []"
proof -
  have c: "DiscoveryDocument sample_toa = None" "ValidIssuer (Provider (Config sample_toa)) = []"
    "ValidateIssuerBool (Provider (Config sample_toa))"
    by (simp_all add: sample_toa_def migrateAuthBehaviors_def CreateConfig_def Let_def)
  have g: "run_state (GetOidcDiscoveryContext nameless_env (ProviderURL sample_toa)) (sample_toa\<lparr>Jwks := new_jwks\<rparr>)
      = (Ok zero_discovery, sample_toa\<lparr>Jwks := new_jwks\<rparr>)"
    by (simp add: GetOidcDiscoveryContext_def Let_def send_def nameless_env_def dead_env_def maxOidcResponseBody_def decode_struct_def)
  have "Issuer zero_discovery = []" by (simp add: zero_discovery_def)
  from empty_issuer_unchecked [OF c(1,2) g this] c(3) show ?thesis by metis
qed

end
