(* ===== verification/RedirectUri.thy ===== *)
theory RedirectUri
  imports Http
begin

text \<open>
  The redirect validation of \<open>src/utils/utils.go\<close>: \<open>ValidateRedirectUri\<close> and the
  functions it calls. The regular expression that \<open>matchAuthorityTemplate\<close> builds
  (the quoted template with every star replaced by one or more label characters,
  anchored, case-insensitive) is the backtracking matcher \<open>star_match\<close> on folded texts.
  Folding is exact as long as the template is ASCII; of other letters in a template the
  case counts here.
\<close>

section \<open>Definitions\<close>

definition splitSchemeAuthorityPath :: "string \<Rightarrow> string \<times> string \<times> string \<times> bool" where
  "splitSchemeAuthorityPath s =
     (case Index s ''://'' of
        None \<Rightarrow> ([], [], s, False)
      | Some i \<Rightarrow>
          (let scheme = take i s; rest = drop (i + 3) s
           in case IndexAny rest ''/?#'' of
                Some j \<Rightarrow> (scheme, take j rest, drop j rest, True)
              | None \<Rightarrow> (scheme, rest, [], True)))"

definition stripQueryAndFragment :: "string \<Rightarrow> string" where
  "stripQueryAndFragment s = (case IndexAny s ''?#'' of Some i \<Rightarrow> take i s | None \<Rightarrow> s)"

definition matchPathTemplate :: "string \<Rightarrow> string \<Rightarrow> bool" where
  "matchPathTemplate v0 template =
     (if v0 = template then True
      else if \<not> HasSuffix template ''*'' \<or> ContainsAny template ''?#'' then False
      else let v = stripQueryAndFragment v0; pre = TrimSuffix template ''*''
           in HasPrefix v pre \<or> v = TrimSuffix pre ''/'')"

text \<open>The class \<open>[-A-Za-z0-9_]\<close>; without regard to case, the folded letters of other writings belong to it.\<close>

definition is_label_char :: "char \<Rightarrow> bool" where
  "is_label_char c \<longleftrightarrow>
     (let n = (of_char c :: nat)
      in (65 \<le> n \<and> n \<le> 90) \<or> (97 \<le> n \<and> n \<le> 122) \<or> (48 \<le> n \<and> n \<le> 57) \<or> n = 45 \<or> n = 95)"

fun star_match :: "string \<Rightarrow> string \<Rightarrow> bool" where
  "star_match [] v = (v = [])"
| "star_match (t # ts) [] = False"
| "star_match (t # ts) (c # cs) =
     (if t = CHR ''*'' then is_label_char c \<and> (star_match ts cs \<or> star_match (t # ts) cs)
      else t = c \<and> star_match ts cs)"

definition matchAuthorityTemplate :: "string \<Rightarrow> string \<Rightarrow> bool" where
  "matchAuthorityTemplate v template =
     (if EqualFold v template then True else star_match (fold_case template) (fold_case v))"

definition boundary :: "char \<Rightarrow> bool" where
  "boundary c \<longleftrightarrow> c = CHR ''.'' \<or> c = CHR '':''"

definition validAuthorityTemplate :: "string \<Rightarrow> bool" where
  "validAuthorityTemplate t \<longleftrightarrow>
     list_all (\<lambda>i. t ! i = CHR ''*'' \<longrightarrow>
         (i = 0 \<or> boundary (t ! (i - 1))) \<and> (i = length t - 1 \<or> boundary (t ! (i + 1))))
       [0..<length t]"

definition matchUriTemplate :: "string \<Rightarrow> string \<Rightarrow> bool" where
  "matchUriTemplate v template =
     (if template = ''*'' then True
      else case splitSchemeAuthorityPath v of (vScheme, vAuthority, vPath, vHas) \<Rightarrow>
        case splitSchemeAuthorityPath template of (tScheme, tAuthority, tPath, tHas) \<Rightarrow>
          if tHas \<noteq> vHas then False
          else if tHas \<and> \<not> EqualFold tScheme vScheme then False
          else if tHas \<and> (\<not> validAuthorityTemplate tAuthority
                          \<or> \<not> matchAuthorityTemplate vAuthority tAuthority) then False
          else matchPathTemplate vPath tPath)"

definition bad_segment :: "string \<Rightarrow> bool" where
  "bad_segment seg \<longleftrightarrow>
     seg = ''..''
     \<or> (HasPrefix seg ''..'' \<and> 2 < length seg
        \<and> (seg ! 2 = CHR '';'' \<or> (of_char (seg ! 2) :: nat) < 32))"

text \<open>At most eight rounds of percent decoding; still changing after that is refused.\<close>

fun traversal_loop :: "nat \<Rightarrow> string \<Rightarrow> bool" where
  "traversal_loop 0 cand = True"
| "traversal_loop (Suc i) cand0 =
     (let cand = ReplaceChar (CHR 0x5C) (CHR ''/'') cand0
      in if list_ex bad_segment (SplitChar (CHR ''/'') cand) then True
         else case PathUnescape cand of
                None \<Rightarrow> True
              | Some decoded \<Rightarrow> if decoded = cand then False else traversal_loop i decoded)"

definition hasPathTraversal :: "string \<Rightarrow> bool" where
  "hasPathTraversal rawPath = traversal_loop 8 rawPath"

definition unsafeWildcardRedirect :: "string \<Rightarrow> bool" where
  "unsafeWildcardRedirect v =
     (if HasPrefix v ''//'' then True
      else case splitSchemeAuthorityPath v of (scheme, authority, pathAndBeyond, hasAuthority) \<Rightarrow>
        if hasAuthority \<and> (scheme = [] \<or> authority = [] \<or> Contains authority ''@'') then True
        else hasPathTraversal (stripQueryAndFragment pathAndBeyond))"

definition ValidateRedirectUri :: "string \<Rightarrow> string list \<Rightarrow> bool \<Rightarrow> string result" where
  "ValidateRedirectUri redirectUri validUris wildcardsEnabled =
     (if redirectUri = [] then Ok []
      else if redirectUri \<in> set validUris then Ok redirectUri
      else if \<not> wildcardsEnabled \<or> unsafeWildcardRedirect redirectUri then Err ''invalid redirect uri''
      else if list_ex (\<lambda>u. Contains u ''*'' \<and> matchUriTemplate redirectUri u) validUris
           then Ok redirectUri
           else Err ''invalid redirect uri'')"

section \<open>Decoding depth\<close>

text \<open>What a server behind the redirect may do: turn backslashes, decode, and repeat.\<close>

fun decoded :: "nat \<Rightarrow> string \<Rightarrow> string option" where
  "decoded 0 s = Some s"
| "decoded (Suc n) s =
     (case PathUnescape (ReplaceChar (CHR 0x5C) (CHR ''/'') s) of None \<Rightarrow> None | Some t \<Rightarrow> decoded n t)"

definition slash_segments :: "string \<Rightarrow> string list" where
  "slash_segments s = SplitChar (CHR ''/'') (ReplaceChar (CHR 0x5C) (CHR ''/'') s)"

lemma ReplaceChar_idem:
  "a \<noteq> b \<Longrightarrow> ReplaceChar a b (ReplaceChar a b s) = ReplaceChar a b s"
  by (simp add: ReplaceChar_def)

lemma decoded_fixpoint:
  assumes "PathUnescape (ReplaceChar (CHR 0x5C) (CHR ''/'') s) = Some (ReplaceChar (CHR 0x5C) (CHR ''/'') s)"
  shows "decoded n s = Some (if n = 0 then s else ReplaceChar (CHR 0x5C) (CHR ''/'') s)"
proof (cases n)
  case (Suc m)
  have "decoded k (ReplaceChar (CHR 0x5C) (CHR ''/'') s) = Some (ReplaceChar (CHR 0x5C) (CHR ''/'') s)" for k
    using assms by (induction k) (simp_all add: ReplaceChar_idem)
  with assms Suc show ?thesis by simp
qed simp

lemma traversal_loop_sound:
  "\<not> traversal_loop i s \<Longrightarrow>
     \<exists>t. decoded n s = Some t \<and> \<not> list_ex bad_segment (slash_segments t)"
proof (induction i arbitrary: s n)
  case (Suc i)
  let ?c = "ReplaceChar (CHR 0x5C) (CHR ''/'') s"
  from Suc.prems obtain d where d: "PathUnescape ?c = Some d"
    and safe: "\<not> list_ex bad_segment (SplitChar (CHR ''/'') ?c)"
    and rest: "d = ?c \<or> \<not> traversal_loop i d"
    by (auto simp: Let_def split: option.splits if_splits)
  show ?case
  proof (cases "d = ?c")
    case True
    with d safe show ?thesis
      by (simp add: decoded_fixpoint slash_segments_def ReplaceChar_idem)
  next
    case False
    with rest have "\<not> traversal_loop i d" by simp
    then show ?thesis
      using Suc.IH [of d "n - 1"] d safe by (cases n) (simp_all add: slash_segments_def)
  qed
qed simp

section \<open>Wildcards and label boundaries\<close>

lemma is_label_char_not_boundary: "is_label_char c \<Longrightarrow> \<not> boundary c"
  by (auto simp: is_label_char_def boundary_def)

lemma lower_char_eq:
  assumes "(of_char x :: nat) < 65"
  shows "lower_char c = x \<longleftrightarrow> c = x"
proof -
  have "(of_char (lower_char c) :: nat) = of_char x \<longleftrightarrow> (of_char c :: nat) = of_char x"
    using assms by (auto simp: lower_char_def)
  then show ?thesis by (simp only: of_char_eq_iff)
qed

lemma fold_case_set: "set (fold_case s) \<subseteq> lower_char ` set s \<union> {CHR ''s'', CHR ''k''}"
  by (induction s rule: fold_case.induct) (auto split: if_splits dest!: subsetD in_set_dropD)

lemma fold_case_mem:
  assumes "(of_char x :: nat) < 65" "x \<in> set (fold_case s)"
  shows "x \<in> set s"
proof -
  have "x \<noteq> CHR ''s''" "x \<noteq> CHR ''k''" using assms(1) by auto
  with assms(2) fold_case_set obtain c where "c \<in> set s" "lower_char c = x" by fast
  with lower_char_eq [OF assms(1)] show ?thesis by simp
qed

text \<open>No folded sequence crosses a dot, so folding respects the labels.\<close>

lemma fold_case_dot: "fold_case (p @ CHR ''.'' # s) = fold_case p @ CHR ''.'' # fold_case s"
proof (induction p rule: fold_case.induct)
  case 1
  show ?case by (simp add: lower_char_eq)
next
  case (2 c p)
  consider (long_s) p' where "c = CHR 0xC5" "p = CHR 0xBF # p'" | (kelvin) p' where "c = CHR 0xE2" "p = CHR 0x84 # CHR 0xAA # p'"
    | (plain) "\<not> (c = CHR 0xC5 \<and> take 1 p = [CHR 0xBF])" "\<not> (c = CHR 0xE2 \<and> take 2 p = [CHR 0x84, CHR 0xAA])"
    by (cases p; cases "tl p") (auto simp: numeral_2_eq_2)
  then show ?case
  proof cases
    case long_s
    then show ?thesis using 2(1) by simp
  next
    case kelvin
    then show ?thesis using 2(2) by simp
  next
    case plain
    have "take 1 (p @ CHR ''.'' # s) = [CHR 0xBF] \<longleftrightarrow> take 1 p = [CHR 0xBF]" by (cases p) auto
    moreover have "take 2 (p @ CHR ''.'' # s) = [CHR 0x84, CHR 0xAA] \<longleftrightarrow> take 2 p = [CHR 0x84, CHR 0xAA]"
      by (cases p; cases "tl p") (auto simp: numeral_2_eq_2)
    ultimately have "fold_case (c # p @ CHR ''.'' # s) = lower_char c # fold_case (p @ CHR ''.'' # s)"
      "fold_case (c # p) = lower_char c # fold_case p" using plain by (simp_all only: fold_case.simps if_False simp_thms)
    then show ?thesis using 2(3) plain by simp
  qed
qed

lemma fold_case_labels: "SplitChar CHR ''.'' (fold_case s) = map fold_case (SplitChar CHR ''.'' s)"
proof (induction "length s" arbitrary: s rule: less_induct)
  case less
  show ?case
  proof (cases "CHR ''.'' \<in> set s")
    case False
    then have "CHR ''.'' \<notin> set (fold_case s)" using fold_case_mem [of "CHR ''.''"] by auto
    with False show ?thesis by (simp add: SplitChar_no_sep)
  next
    case True
    then obtain p q where s: "s = p @ CHR ''.'' # q" "CHR ''.'' \<notin> set p" by (meson split_list_first)
    then have "CHR ''.'' \<notin> set (fold_case p)" using fold_case_mem [of "CHR ''.''"] by auto
    with s less [of q] show ?thesis by (simp add: fold_case_dot SplitChar_append_sep)
  qed
qed

lemma star_match_split:
  "star_match t v \<Longrightarrow> list_all2 star_match (SplitChar CHR ''.'' t) (SplitChar CHR ''.'' v)"
proof (induction t v rule: star_match.induct)
  case (3 t ts c cs)
  obtain p ps where p: "SplitChar CHR ''.'' cs = p # ps" by (meson SplitChar_nonempty neq_Nil_conv)
  obtain q qs where q: "SplitChar CHR ''.'' ts = q # qs" by (meson SplitChar_nonempty neq_Nil_conv)
  show ?case
  proof (cases "t = CHR ''*''")
    case True
    with "3.prems" have l: "is_label_char c" and m: "star_match ts cs \<or> star_match (t # ts) cs" by auto
    from l have "c \<noteq> CHR ''.''" using is_label_char_not_boundary by (auto simp: boundary_def)
    with m 3 True p q l show ?thesis by auto
  next
    case False
    with "3.prems" have eq: "t = c" and m: "star_match ts cs" by auto
    with m 3 False p q show ?thesis by auto
  qed
qed auto

lemma star_match_no_star: "CHR ''*'' \<notin> set t \<Longrightarrow> star_match t v \<longleftrightarrow> t = v"
  by (induction t v rule: star_match.induct) auto

definition label_match :: "string \<Rightarrow> string \<Rightarrow> bool" where
  "label_match t v \<longleftrightarrow> EqualFold v t \<or> star_match (fold_case t) (fold_case v)"

lemma matchAuthority_labels:
  assumes "matchAuthorityTemplate v t"
  shows "list_all2 label_match (SplitChar CHR ''.'' t) (SplitChar CHR ''.'' v)"
proof (cases "EqualFold v t")
  case True
  then have "map fold_case (SplitChar CHR ''.'' v) = map fold_case (SplitChar CHR ''.'' t)"
    by (simp add: EqualFold_def flip: fold_case_labels)
  then have "list_all2 (=) (map fold_case (SplitChar CHR ''.'' t)) (map fold_case (SplitChar CHR ''.'' v))"
    by (simp add: list.rel_eq)
  then show ?thesis
    unfolding list_all2_map1 list_all2_map2 by (rule list_all2_mono) (simp add: label_match_def EqualFold_def)
next
  case False
  with assms have "star_match (fold_case t) (fold_case v)" by (simp add: matchAuthorityTemplate_def)
  from star_match_split [OF this] show ?thesis
    unfolding fold_case_labels list_all2_map1 list_all2_map2 by (rule list_all2_mono) (simp add: label_match_def)
qed

lemma label_match_plain:
  assumes "label_match t v" "CHR ''*'' \<notin> set t"
  shows "EqualFold v t"
proof -
  have "CHR ''*'' \<notin> set (fold_case t)" using assms(2) fold_case_mem [of "CHR ''*''"] by auto
  with assms(1) star_match_no_star show ?thesis by (auto simp: label_match_def EqualFold_def)
qed

section \<open>Splitting a URL\<close>

lemma splitSchemeAuthorityPath_True:
  assumes "splitSchemeAuthorityPath u = (s, a, p, True)"
  shows "u = s @ ''://'' @ a @ p" "set a \<inter> {CHR ''/'', CHR ''?'', CHR ''#''} = {}"
proof -
  from assms obtain i where i: "Index u ''://'' = Some i" "s = take i u"
    and ap: "(\<exists>j. IndexAny (drop (i + 3) u) ''/?#'' = Some j \<and> a = take j (drop (i + 3) u) \<and> p = drop j (drop (i + 3) u))
      \<or> IndexAny (drop (i + 3) u) ''/?#'' = None \<and> a = drop (i + 3) u \<and> p = []"
    by (auto simp: splitSchemeAuthorityPath_def Let_def split: option.splits)
  from ap have "a @ p = drop (i + 3) u" by (auto simp del: drop_drop)
  with Index_Some_split [OF i(1)] i(2) show "u = s @ ''://'' @ a @ p" by (simp add: numeral_3_eq_3)
  from ap show "set a \<inter> {CHR ''/'', CHR ''?'', CHR ''#''} = {}"
    by (auto dest!: IndexAny_Some simp: IndexAny_None)
qed

lemma ValidateRedirectUri_wild:
  assumes "ValidateRedirectUri u V w = Ok r" "u \<noteq> []" "u \<notin> set V"
  shows "w" "r = u" "\<not> unsafeWildcardRedirect u" "\<exists>t \<in> set V. Contains t ''*'' \<and> matchUriTemplate u t"
  using assms by (auto simp: ValidateRedirectUri_def list_ex_iff split: if_splits)

section \<open>Properties\<close>

text \<open>
  C23. a redirect accepted by a wildcard entry stays inside the host that entry names. The
  target splits into scheme, authority and path of the same shape as the template; the
  scheme agrees, the authority has exactly as many labels, every label the operator wrote
  out agrees with the target's (case-insensitively), and the authority carries no
  userinfo and is not empty. A wildcard therefore never spans a dot, and
  \<open>https://*.example.com\<close> never admits \<open>https://evil.com/.example.com\<close>.
\<close>

theorem ValidateRedirectUri_authority:
  assumes "ValidateRedirectUri u V w = Ok r" "u \<noteq> []" "u \<notin> set V" "''*'' \<notin> set V"
  shows "w \<and> r = u \<and> (\<exists>t \<in> set V. \<exists>s a p ts ta tp h.
    splitSchemeAuthorityPath u = (s, a, p, h) \<and> splitSchemeAuthorityPath t = (ts, ta, tp, h)
    \<and> matchPathTemplate p tp
    \<and> (h \<longrightarrow> u = s @ ''://'' @ a @ p \<and> EqualFold ts s \<and> s \<noteq> [] \<and> a \<noteq> [] \<and> CHR ''@'' \<notin> set a
         \<and> length (SplitChar CHR ''.'' a) = length (SplitChar CHR ''.'' ta)
         \<and> (\<forall>i < length (SplitChar CHR ''.'' ta). CHR ''*'' \<notin> set (SplitChar CHR ''.'' ta ! i) \<longrightarrow>
              EqualFold (SplitChar CHR ''.'' a ! i) (SplitChar CHR ''.'' ta ! i))))"
proof -
  note w = ValidateRedirectUri_wild [OF assms(1-3)]
  from w(4) assms(4) obtain t where t: "t \<in> set V" "matchUriTemplate u t" "t \<noteq> ''*''" by blast
  obtain s a p h where u: "splitSchemeAuthorityPath u = (s, a, p, h)" by (metis prod_cases4)
  obtain ts ta tp h' where t': "splitSchemeAuthorityPath t = (ts, ta, tp, h')" by (metis prod_cases4)
  from t(2,3) u t' have m: "h' = h" "matchPathTemplate p tp"
    "h \<Longrightarrow> EqualFold ts s \<and> matchAuthorityTemplate a ta"
    by (auto simp: matchUriTemplate_def split: if_splits)
  have "u = s @ ''://'' @ a @ p \<and> EqualFold ts s \<and> s \<noteq> [] \<and> a \<noteq> [] \<and> CHR ''@'' \<notin> set a
      \<and> length (SplitChar CHR ''.'' a) = length (SplitChar CHR ''.'' ta)
      \<and> (\<forall>i < length (SplitChar CHR ''.'' ta). CHR ''*'' \<notin> set (SplitChar CHR ''.'' ta ! i) \<longrightarrow>
           EqualFold (SplitChar CHR ''.'' a ! i) (SplitChar CHR ''.'' ta ! i))" if h
  proof -
    from w(3) u that have "s \<noteq> []" "a \<noteq> []" "CHR ''@'' \<notin> set a"
      by (auto simp: unsafeWildcardRedirect_def Contains_char split: if_splits)
    moreover from m(3) that have "list_all2 label_match (SplitChar CHR ''.'' ta) (SplitChar CHR ''.'' a)"
      by (simp add: matchAuthority_labels)
    ultimately show ?thesis
      using that m(3) splitSchemeAuthorityPath_True(1) [of u s a p] u
      by (auto simp: list_all2_conv_all_nth label_match_plain)
  qed
  with w t(1) u t' m show ?thesis by blast
qed

theorem ValidateRedirectUri_authority_witness:
  "ValidateRedirectUri ''https://app.example.com/x'' [''https://*.example.com/*''] True
     = Ok ''https://app.example.com/x''
   \<and> (\<exists>t \<in> set [''https://*.example.com/*'']. \<exists>s a p ts ta tp h.
       splitSchemeAuthorityPath ''https://app.example.com/x'' = (s, a, p, h)
       \<and> splitSchemeAuthorityPath t = (ts, ta, tp, h) \<and> matchPathTemplate p tp)"
proof -
  have v: "ValidateRedirectUri ''https://app.example.com/x'' [''https://*.example.com/*''] True
     = Ok ''https://app.example.com/x''" by code_simp
  with ValidateRedirectUri_authority [OF v] show ?thesis by auto
qed

text \<open>
  C35. a redirect accepted by a wildcard entry never climbs out of its path. However often
  the receiving side decodes percent escapes and turns backslashes into slashes, no
  segment of the path is a parent reference (also not one with a path parameter or a
  control byte attached), and every one of those decodings succeeds.
\<close>

theorem ValidateRedirectUri_no_traversal:
  assumes "ValidateRedirectUri u V w = Ok r" "u \<noteq> []" "u \<notin> set V"
    "splitSchemeAuthorityPath u = (s, a, p, h)"
  shows "\<exists>t. decoded n (stripQueryAndFragment p) = Some t \<and> ''..'' \<notin> set (slash_segments t)
    \<and> \<not> list_ex bad_segment (slash_segments t)"
proof -
  from ValidateRedirectUri_wild(3) [OF assms(1-3)] assms(4)
  have "\<not> traversal_loop 8 (stripQueryAndFragment p)"
    by (auto simp: unsafeWildcardRedirect_def hasPathTraversal_def split: if_splits)
  then obtain t where "decoded n (stripQueryAndFragment p) = Some t" "\<not> list_ex bad_segment (slash_segments t)"
    using traversal_loop_sound by blast
  then show ?thesis by (auto simp: list_ex_iff bad_segment_def)
qed

theorem ValidateRedirectUri_no_traversal_witness:
  "\<exists>t. decoded 3 (stripQueryAndFragment ''/a%252fb'') = Some t \<and> ''..'' \<notin> set (slash_segments t)
    \<and> \<not> list_ex bad_segment (slash_segments t)"
proof (rule ValidateRedirectUri_no_traversal)
  show "ValidateRedirectUri ''https://a.b/a%252fb'' [''https://a.b/*''] True = Ok ''https://a.b/a%252fb''"
    by code_simp
  show "splitSchemeAuthorityPath ''https://a.b/a%252fb'' = (''https'', ''a.b'', ''/a%252fb'', True)"
    by code_simp
qed simp_all

text \<open>Without the opt-in, only an entry of the list, byte for byte, is accepted.\<close>

lemma ValidateRedirectUri_exact:
  "ValidateRedirectUri u V False = (if u = [] \<or> u \<in> set V then Ok u else Err ''invalid redirect uri'')"
  by (simp add: ValidateRedirectUri_def)

end
