(* ===== verification/Login.thy ===== *)
theory Login
  imports Upstream RedirectUri
begin

text \<open>
  The login side of \<open>src/main.go\<close> and \<open>src/errorPages/errorPage.go\<close>: error pages, the start
  of a login (\<open>handleLogin\<close>), the redirect to the provider with its sealed state, the
  detour over the callback host (\<open>doubleRedirectToProvider\<close>), and what happens to
  unauthenticated and unauthorized requests.
\<close>

section \<open>Error pages\<close>

text \<open>The entries that the callers put into the data map; the buttons are optional.\<close>

record page_data =
  statusType :: string
  statusCode :: nat
  statusName :: string
  description :: string
  buttons :: "(string \<times> string) list"

definition page_context :: "page_data \<Rightarrow> (string \<times> string) list" where
  "page_context d = [(''statusType'', statusType d), (''statusCode'', Itoa (int (statusCode d))),
     (''statusName'', statusName d), (''description'', description d)] @ buttons d"

definition renderPage :: "'w env \<Rightarrow> ErrorPageConfig \<Rightarrow> page_data \<Rightarrow> string result" where
  "renderPage E page data =
     (let htmlTemplate =
            (if FilePath page \<noteq> []
             then (case Files E (FilePath page) of None \<Rightarrow> DefaultTemplate E | Some t \<Rightarrow> t)
             else DefaultTemplate E)
      in HtmlPage E htmlTemplate (page_context data))"

definition WriteError :: "'w env \<Rightarrow> ErrorPageConfig \<Rightarrow> page_data \<Rightarrow> ('w, unit) m" where
  "WriteError E page data = do {
     req \<leftarrow> ask Req;
     if RedirectTo page \<noteq> [] then http_Redirect (RedirectTo page) 302
     else if IsHtmlRequest (MimeOps E) req
     then (case renderPage E page data of
             Inl _ \<Rightarrow> http_Error ''Internal Server Error'' 500
           | Inr html \<Rightarrow>
               emit (\<lambda>rw. rw @ [EvSetHeader ''Content-Type'' ''text/html; charset=utf-8'', EvPage (statusCode data) html]))
     else emit (\<lambda>rw. rw @ [EvSetHeader ''Content-Type'' ''application/json+problem'',
                EvProblem (statusCode data) (statusType data) (statusName data) (description data)])
   }"

definition login_button :: "'w env \<Rightarrow> Config \<Rightarrow> request \<Rightarrow> string \<Rightarrow> string \<Rightarrow> (string \<times> string) list" where
  "login_button E cfg req text extra =
     (if LoginUri cfg = [] then []
      else [(''primaryButtonText'', text), (''primaryButtonUrl'', ensureAbsoluteUrl E cfg req (LoginUri cfg) @ extra)])"

definition writeUnauthenticatedError :: "'w env \<Rightarrow> ('w, unit) m" where
  "writeUnauthenticatedError E = do {
     cfg \<leftarrow> ask Config;
     req \<leftarrow> ask Req;
     WriteError E (Unauthenticated (ErrorPages cfg))
       \<lparr>statusType = ''https://tools.ietf.org/html/rfc9110#section-15.5.2'', statusCode = 401, statusName = ''Unauthorized'',
        description = ''You're not authorized to access this resource. Please log in to continue.'',
        buttons = login_button E cfg req ''Login'' []\<rparr>
   }"

definition writeUnauthorizedError :: "'w env \<Rightarrow> ('w, unit) m" where
  "writeUnauthorizedError E = do {
     cfg \<leftarrow> ask Config;
     req \<leftarrow> ask Req;
     WriteError E (Unauthorized (ErrorPages cfg))
       \<lparr>statusType = ''https://tools.ietf.org/html/rfc9110#section-15.5.4'', statusCode = 403, statusName = ''Forbidden'',
        description = ''It seems like your account is not allowed to access this resource.'' @ [CHR 0x0A]
          @ ''Try to log in using a different account or log out by using one of the options below.'',
        buttons = login_button E cfg req ''Login with a different account'' ''?prompt=login''
          @ [(''secondaryButtonText'', ''Logout''), (''secondaryButtonUrl'', ensureAbsoluteUrl E cfg req (LogoutUri cfg))]\<rparr>
   }"

definition writeSuccessfulLogout :: "'w env \<Rightarrow> ('w, unit) m" where
  "writeSuccessfulLogout E = do {
     cfg \<leftarrow> ask Config;
     req \<leftarrow> ask Req;
     emit (\<lambda>rw. rw @ [EvSetHeader ''Cache-Control'' ''no-cache, no-store, must-revalidate'']);
     WriteError E \<lparr>FilePath = [], RedirectTo = []\<rparr>
       \<lparr>statusType = ''about:blank'', statusCode = 200, statusName = ''Logged out'',
        description = ''You have been logged out successfully.'', buttons = login_button E cfg req ''Log back in'' []\<rparr>
   }"

definition internalError :: "string \<Rightarrow> ('w, unit) m" where
  "internalError publicMessage = http_Error publicMessage 500"

definition unavailable :: "('w, unit) m" where
  "unavailable = internalError ''Authentication is temporarily unavailable''"

section \<open>Authorization parameters\<close>

definition reservedAuthorizationParams :: "string list" where
  "reservedAuthorizationParams = [''response_type'', ''client_id'', ''redirect_uri'', ''state'', ''scope'', ''resource'',
     ''code_challenge'', ''code_challenge_method'', ''nonce'']"

definition isOverridableParam :: "Config \<Rightarrow> string \<Rightarrow> bool" where
  "isOverridableParam cfg key \<longleftrightarrow> key \<in> set (AuthorizationParamsOverridable cfg)"

fun override_loop :: "Config \<Rightarrow> request \<Rightarrow> (string \<times> string) list \<Rightarrow> values \<Rightarrow> values" where
  "override_loop cfg req [] v = v"
| "override_loop cfg req ((key, val) # ps) v =
     (if key \<in> set reservedAuthorizationParams then override_loop cfg req ps v
      else
        (let override = Query_Get req key;
             val' = (if override \<noteq> [] \<and> isOverridableParam cfg key then override else val)
         in override_loop cfg req ps (Values_Set key [val'] v)))"

definition applyAuthorizationParamOverrides :: "Config \<Rightarrow> request \<Rightarrow> values \<Rightarrow> values" where
  "applyAuthorizationParamOverrides cfg req urlValues =
     (let v = override_loop cfg req (AuthorizationParams cfg) urlValues
      in if isOverridableParam cfg ''prompt'' \<and> Query_Get req ''prompt'' \<noteq> []
         then Values_Set ''prompt'' [Query_Get req ''prompt''] v else v)"

definition set_params :: "(string \<times> string) list \<Rightarrow> values \<Rightarrow> values" where
  "set_params ps v = fold (\<lambda>(k, x). Values_Set k [x]) ps v"

definition add_params :: "(string \<times> string) list \<Rightarrow> values \<Rightarrow> values" where
  "add_params ps v = fold (\<lambda>(k, x). Values_Add k x) ps v"

section \<open>Redirecting to the provider\<close>

text \<open>The parameters of the authorization request before PKCE and the state are added.\<close>

definition authorization_values :: "'w env \<Rightarrow> Config \<Rightarrow> url \<Rightarrow> request \<Rightarrow> bool \<Rightarrow> string \<Rightarrow> values" where
  "authorization_values E cfg cb req isChallenge nonce =
     (let callbackUrl = UrlString (UrlOps E) (GetAbsoluteCallbackURL E cfg cb req);
          v0 = [(''response_type'', [''code'']), (''scope'', [Join (Scopes cfg) '' '']),
                (''client_id'', [ClientId (Provider cfg)]), (''redirect_uri'', [callbackUrl]),
                (''resource'', RequestedResources cfg)];
          v1 = applyAuthorizationParamOverrides cfg req v0;
          v2 = set_params (authParamsForChallenge cfg isChallenge) v1
      in Values_Set ''nonce'' [nonce] v2)"

text \<open>The challenge of a code verifier, for the method S256.\<close>

definition code_challenge :: "'w env \<Rightarrow> string \<Rightarrow> string" where
  "code_challenge E codeVerifier = RawURLEncoding_Encode (Sha256 E codeVerifier)"

definition seal_and_redirect :: "'w env \<Rightarrow> url \<Rightarrow> values \<Rightarrow> OidcState \<Rightarrow> ('w, unit) m" where
  "seal_and_redirect E endpoint urlValues state = do {
     secret \<leftarrow> conf Secret;
     now \<leftarrow> outside (Now E);
     rnd \<leftarrow> outside (RandRead E NonceSize);
     case SealState (Aead E) (JsonText E) (TimeText E) now rnd (Some state) secret of
       Inl _ \<Rightarrow> unavailable
     | Inr stateBase64 \<Rightarrow>
         http_Redirect (UrlString (UrlOps E)
           (endpoint\<lparr>RawQuery := Values_Encode (Values_Set ''state'' [stateBase64] urlValues)\<rparr>)) 302
   }"

definition add_pkce :: "'w env \<Rightarrow> values \<Rightarrow> OidcState \<Rightarrow> ('w, (values \<times> OidcState) option) m" where
  "add_pkce E urlValues state = do {
     cfg \<leftarrow> ask Config;
     r \<leftarrow> randomBytesInHex E 32;
     case r of
       Inl _ \<Rightarrow> return None
     | Inr codeVerifier \<Rightarrow> do {
         rnd \<leftarrow> outside (RandRead E NonceSize);
         return
           (case Encrypt (Aead E) rnd codeVerifier (Secret cfg) of
              Inl _ \<Rightarrow> None
            | Inr encryptedCodeVerifier \<Rightarrow>
                Some (Values_Set ''code_challenge'' [code_challenge E codeVerifier]
                        (Values_Set ''code_challenge_method'' [''S256''] urlValues),
                      state\<lparr>CodeVerifierEnc := encryptedCodeVerifier\<rparr>))
       }
   }"

definition redirectToProvider :: "'w env \<Rightarrow> string \<Rightarrow> bool \<Rightarrow> ('w, unit) m" where
  "redirectToProvider E redirectUrl isChallenge = do {
     cfg \<leftarrow> ask Config;
     cb \<leftarrow> ask CallbackURL;
     req \<leftarrow> ask Req;
     doc \<leftarrow> ask DiscoveryDocument;
     r1 \<leftarrow> randomBytesInHex E 16;
     case r1 of
       Inl _ \<Rightarrow> unavailable
     | Inr csrf \<Rightarrow> do {
         emit (\<lambda>rw. setLoginCsrfCookie cfg rw cb csrf);
         r2 \<leftarrow> randomBytesInHex E 16;
         case r2 of
           Inl _ \<Rightarrow> unavailable
         | Inr nonce \<Rightarrow>
             (case UrlParse (UrlOps E) (AuthorizationEndpoint (the doc)) of
                Inl _ \<Rightarrow> unavailable
              | Inr endpoint \<Rightarrow> do {
                  let state = zero_state\<lparr>Action := ''Login'', RedirectUrl := redirectUrl, IsChallenge := isChallenge,
                    Csrf := csrf, Nonce := nonce\<rparr>;
                  let urlValues = authorization_values E cfg cb req isChallenge nonce;
                  if UsePkceBool (Provider cfg)
                  then do {
                    r3 \<leftarrow> add_pkce E urlValues state;
                    case r3 of
                      None \<Rightarrow> unavailable
                    | Some (v, st) \<Rightarrow> do {
                        now \<leftarrow> outside (Now E);
                        emit (\<lambda>rw. clearLegacyCodeVerifierCookies now cfg rw req cb);
                        seal_and_redirect E endpoint v st
                      }
                  }
                  else seal_and_redirect E endpoint urlValues state
                })
       }
   }"

text \<open>The overrides of a request that the detour carries along.\<close>

definition carried_overrides :: "Config \<Rightarrow> request \<Rightarrow> (string \<times> string) list" where
  "carried_overrides cfg req =
     concat (map (\<lambda>(key, _).
         if key \<in> set reservedAuthorizationParams \<or> \<not> isOverridableParam cfg key \<or> Query_Get req key = [] then []
         else [(key, Query_Get req key)]) (AuthorizationParams cfg))
     @ (if isOverridableParam cfg ''prompt'' \<and> Query_Get req ''prompt'' \<noteq> [] then [(''prompt'', Query_Get req ''prompt'')] else [])"

text \<open>
  \<open>GetAbsoluteCallbackURL\<close> returns the pointer \<open>toa.CallbackURL\<close> itself when that URL is
  absolute, and the assignment to \<open>RawQuery\<close> then changes it for good.
\<close>

definition doubleRedirectToProvider :: "'w env \<Rightarrow> string \<Rightarrow> bool \<Rightarrow> ('w, unit) m" where
  "doubleRedirectToProvider E redirectUrl isChallenge = do {
     cfg \<leftarrow> ask Config;
     cb \<leftarrow> ask CallbackURL;
     req \<leftarrow> ask Req;
     let state = zero_state\<lparr>Action := ''RedirectThenLogin'', RedirectUrl := redirectUrl, IsChallenge := isChallenge\<rparr>;
     now \<leftarrow> outside (Now E);
     rnd \<leftarrow> outside (RandRead E NonceSize);
     case SealState (Aead E) (JsonText E) (TimeText E) now rnd (Some state) (Secret cfg) of
       Inl _ \<Rightarrow> unavailable
     | Inr stateBase64 \<Rightarrow> do {
         let urlValues = add_params (authParamsForChallenge cfg isChallenge)
           (add_params (carried_overrides cfg req) [(''state'', [stateBase64])]);
         let callbackUrl = (GetAbsoluteCallbackURL E cfg cb req)\<lparr>RawQuery := Values_Encode urlValues\<rparr>;
         change (\<lambda>s. if UrlIsAbsolute cb then s\<lparr>CallbackURL := callbackUrl\<rparr> else s);
         http_Redirect (UrlString (UrlOps E) callbackUrl) 302
       }
   }"

section \<open>Starting a login\<close>

definition needsDoubleRedirect :: "'w env \<Rightarrow> Config \<Rightarrow> url \<Rightarrow> request \<Rightarrow> bool" where
  "needsDoubleRedirect E cfg cb req \<longleftrightarrow>
     UsePkceBool (Provider cfg)
     \<and> \<not> HasPrefix (UrlString (UrlOps E) (GetAbsoluteCallbackURL E cfg cb req)) (fullHost E cfg req)"

definition login_target :: "'w env \<Rightarrow> Config \<Rightarrow> request \<Rightarrow> string \<Rightarrow> string" where
  "login_target E cfg req redirectUriFromQuery =
     (let isLoginRequest = pathMatchesConfiguredRoute req (LoginUri cfg)
      in if isLoginRequest \<and> redirectUriFromQuery \<noteq> [] then redirectUriFromQuery
         else if PostLoginRedirectUri cfg \<noteq> [] then ensureAbsoluteUrl E cfg req (PostLoginRedirectUri cfg)
         else if isLoginRequest then fullHost E cfg req
         else fullHost E cfg req @ UrlRequestURI (UrlOps E) (URL req))"

definition handleLogin :: "'w env \<Rightarrow> bool \<Rightarrow> string \<Rightarrow> ('w, unit) m" where
  "handleLogin E isChallenge redirectUrlOverride = do {
     cfg \<leftarrow> ask Config;
     cb \<leftarrow> ask CallbackURL;
     req \<leftarrow> ask Req;
     wildcards \<leftarrow> ask RedirectUriWildcardsEnabled;
     let target = (if redirectUrlOverride \<noteq> [] then Ok redirectUrlOverride
       else case ValidateRedirectUri (Query_Get req ''redirect_uri'') (ValidPostLoginRedirectUris cfg) wildcards of
              Inl e \<Rightarrow> Err e | Inr u \<Rightarrow> Ok (login_target E cfg req u));
     case target of
       Inl _ \<Rightarrow> http_Error ''Invalid redirect'' 400
     | Inr redirectUrl \<Rightarrow>
         if needsDoubleRedirect E cfg cb req then doubleRedirectToProvider E redirectUrl isChallenge
         else redirectToProvider E redirectUrl isChallenge
   }"

section \<open>Unauthenticated and unauthorized requests\<close>

definition handleUnauthenticated :: "'w env \<Rightarrow> ('w, unit) m" where
  "handleUnauthenticated E = do {
     b \<leftarrow> conf UnauthenticatedBehavior;
     req \<leftarrow> ask Req;
     if b = ''Challenge'' then handleLogin E False []
     else if b = ''Unauthorized'' then writeUnauthenticatedError E
     else if b = ''Forward'' then forwardToUpstream
     else if b = ''Auto''
     then (if IsHtmlRequest (MimeOps E) req then handleLogin E False [] else writeUnauthenticatedError E)
     else writeUnauthenticatedError E
   }"

definition handleUnauthorized :: "'w env \<Rightarrow> SessionState \<Rightarrow> string \<Rightarrow> ('w, unit) m" where
  "handleUnauthorized E session redirectUrlOverride = do {
     b \<leftarrow> conf UnauthorizedBehavior;
     req \<leftarrow> ask Req;
     if b = ''Challenge''
     then (if \<not> ChallengeAttempted session \<and> IsHtmlRequest (MimeOps E) req
           then handleLogin E True redirectUrlOverride else writeUnauthorizedError E)
     else if b = ''Unauthorized'' then writeUnauthorizedError E
     else if b = ''Forward''
     then (if redirectUrlOverride \<noteq> [] then http_Redirect redirectUrlOverride 302 else forwardToUpstream)
     else writeUnauthorizedError E
   }"

section \<open>Parameters of the authorization request\<close>

lemma set_params_Get:
  "k \<notin> fst ` set ps \<Longrightarrow> Values_Get (set_params ps v) k = Values_Get v k"
  unfolding set_params_def by (induction ps arbitrary: v) auto

lemma override_loop_other:
  "k \<notin> fst ` set ps \<or> k \<in> set reservedAuthorizationParams \<Longrightarrow>
     Values_Get (override_loop cfg req ps v) k = Values_Get v k"
  by (induction cfg req ps v rule: override_loop.induct) (auto simp: Let_def)

lemma override_loop_pinned:
  "map_of ps k = Some x \<Longrightarrow> distinct (map fst ps) \<Longrightarrow> k \<notin> set reservedAuthorizationParams \<Longrightarrow>
     \<not> isOverridableParam cfg k \<Longrightarrow> Values_Get (override_loop cfg req ps v) k = [x]"
proof (induction ps arbitrary: v)
  case (Cons p ps)
  obtain key val where p: "p = (key, val)" by (cases p)
  show ?case
  proof (cases "key = k")
    case True
    with Cons.prems p have "k \<notin> fst ` set ps" "x = val" by auto
    with True Cons.prems(3,4) p show ?thesis by (simp add: override_loop_other Let_def)
  next
    case False
    with Cons p show ?thesis by (simp add: Let_def)
  qed
qed simp

lemma reserved_not_prompt: "''prompt'' \<notin> set reservedAuthorizationParams" "''max_age'' \<notin> set reservedAuthorizationParams"
  by (simp_all add: reservedAuthorizationParams_def)

lemma authParams_keys: "fst ` set (authParamsForChallenge cfg ch) \<subseteq> {''max_age''}"
  by (simp add: authParamsForChallenge_def)

lemma Values_Get_pair:
  assumes "x \<in> set (Values_Get v k)"
  shows "(k, x) \<in> set (Values_pairs v)"
proof -
  from assms obtain xs where "map_of v k = Some xs" "x \<in> set xs"
    by (cases "map_of v k") (simp_all add: Values_Get_def)
  then have "(k, xs) \<in> set v" "x \<in> set xs" by (auto dest: map_of_SomeD)
  then show ?thesis unfolding Values_pairs_def by (simp, intro bexI [of _ "(k, xs)"]) simp_all
qed

lemma add_params_Get: "x \<in> set (Values_Get v k) \<Longrightarrow> x \<in> set (Values_Get (add_params ps v) k)"
proof (induction ps arbitrary: v)
  case (Cons p ps)
  obtain a b where p: "p = (a, b)" by (cases p)
  have "x \<in> set (Values_Get (Values_Add a b v) k)" using Cons.prems by (cases "k = a") simp_all
  from Cons.IH [OF this] p show ?case by (simp add: add_params_def)
qed (simp add: add_params_def)

text \<open>What the overrides leave alone: reserved keys, and everything the operator did not open.\<close>

lemma overrides_Get:
  "k \<in> set reservedAuthorizationParams \<Longrightarrow> Values_Get (applyAuthorizationParamOverrides cfg req v) k = Values_Get v k"
  "map_of (AuthorizationParams cfg) k = Some x \<Longrightarrow> distinct (map fst (AuthorizationParams cfg)) \<Longrightarrow>
     k \<notin> set reservedAuthorizationParams \<Longrightarrow> \<not> isOverridableParam cfg k \<Longrightarrow>
     Values_Get (applyAuthorizationParamOverrides cfg req v) k = [x]"
  using reserved_not_prompt
  by (auto simp: applyAuthorizationParamOverrides_def Let_def override_loop_other override_loop_pinned)

lemma authorization_values_Get:
  "k \<noteq> ''max_age'' \<Longrightarrow> k \<noteq> ''nonce'' \<Longrightarrow>
     Values_Get (authorization_values E cfg cb req ch n) k = Values_Get (applyAuthorizationParamOverrides cfg req
      [(''response_type'', [''code'']), (''scope'', [Join (Scopes cfg) '' '']), (''client_id'', [ClientId (Provider cfg)]),
       (''redirect_uri'', [UrlString (UrlOps E) (GetAbsoluteCallbackURL E cfg cb req)]), (''resource'', RequestedResources cfg)]) k"
  using authParams_keys [of cfg ch] by (auto simp: authorization_values_def Let_def intro!: set_params_Get)

lemma authorization_redirect_uri:
  "Values_Get (authorization_values E cfg cb req ch n) ''redirect_uri'' = [UrlString (UrlOps E) (GetAbsoluteCallbackURL E cfg cb req)]"
  by (simp add: authorization_values_Get overrides_Get reservedAuthorizationParams_def Values_Get_Cons)


definition pinned_config :: Config where
  "pinned_config = CreateConfig\<lparr>AuthorizationParams := [(''acr_values'', ''aal2'')],
     Provider := (Provider CreateConfig)\<lparr>MaxAuthAgeSeconds := 300\<rparr>\<rparr>"

definition downgrade_request :: request where
  "downgrade_request = html_request\<lparr>URL := (URL html_request)\<lparr>RawQuery := ''acr_values=loa1&max_age=9999''\<rparr>\<rparr>"


section \<open>PKCE\<close>

text \<open>The reader of \<open>crypto/rand\<close> fills the buffer it is given or fails.\<close>

definition rand_law :: "'w env \<Rightarrow> bool" where
  "rand_law E \<longleftrightarrow> (\<forall>n w bs w'. RandRead E n w = (Some bs, w') \<longrightarrow> length bs = n)"

lemma Encrypt_key_ok: "Encrypt A n p k = Ok c \<Longrightarrow> aes_key_ok k \<and> n \<noteq> None"
  by (auto simp: Encrypt_def EncryptWithPurpose_def split: if_splits option.splits)

lemma Decrypt_Encrypt:
  assumes "aead_correct A" "Encrypt A (Some n) p k = Ok c" "length n = NonceSize"
  shows "Decrypt A c k = Ok p"
  using DecryptWithPurpose_Encrypt [OF assms(1)] Encrypt_key_ok [OF assms(2)] assms(2,3)
  by (simp add: Encrypt_def Decrypt_def)

text \<open>
  C26. PKCE is consistent: the challenge that the authorization request carries is the S256
  hash of exactly the verifier that is sealed into the login state, so that what the
  callback decrypts and sends to the token endpoint passes the provider's check.
\<close>

theorem pkce_challenge_matches:
  assumes "run_state (add_pkce E v st) s = (Some (v', st'), s')" "aead_correct (Aead E)" "rand_law E"
  shows "\<exists>verifier. Decrypt (Aead E) (CodeVerifierEnc st') (Secret (Config s)) = Ok verifier
    \<and> Values_Get v' ''code_challenge'' = [code_challenge E verifier] \<and> Values_Get v' ''code_challenge_method'' = [''S256'']
    \<and> (\<exists>bs. verifier = hex_encode bs \<and> length bs = 32)
    \<and> (\<forall>k. k \<notin> {''code_challenge'', ''code_challenge_method''} \<longrightarrow> Values_Get v' k = Values_Get v k)"
proof -
  from assms(1) obtain bs w1 rnd w2 enc where r: "RandRead E 32 (World s) = (Some bs, w1)"
    "RandRead E NonceSize w1 = (rnd, w2)" "Encrypt (Aead E) rnd (hex_encode bs) (Secret (Config s)) = Ok enc"
    and v: "v' = Values_Set ''code_challenge'' [code_challenge E (hex_encode bs)]
        (Values_Set ''code_challenge_method'' [''S256''] v)" "CodeVerifierEnc st' = enc"
    unfolding add_pkce_def randomBytesInHex_def by (auto split: prod.splits option.splits sum.splits)
  from Encrypt_key_ok [OF r(3)] obtain n where n: "rnd = Some n" by auto
  with r assms(3) have "length bs = 32" "length n = NonceSize" by (auto simp: rand_law_def)
  with Decrypt_Encrypt [OF assms(2)] r(3) n v show ?thesis
    by (intro exI [of _ "hex_encode bs"]) auto
qed

lemma dead_rand_law: "rand_law dead_env"
  by (simp add: rand_law_def dead_env_def)

theorem pkce_challenge_matches_witness:
  "\<exists>v' st' s' verifier. run_state (add_pkce dead_env [] zero_state) sample_toa = (Some (v', st'), s')
     \<and> Decrypt (Aead dead_env) (CodeVerifierEnc st') DefaultSecret = Ok verifier
     \<and> Values_Get v' ''code_challenge'' = [code_challenge dead_env verifier]"
proof -
  have sec: "Secret (Config sample_toa) = DefaultSecret"
    by (simp add: sample_toa_def migrateAuthBehaviors_def CreateConfig_def)
  have "aes_key_ok DefaultSecret" by code_simp
  then obtain enc where "Encrypt (Aead dead_env) (Some (replicate NonceSize CHR ''r'')) (hex_encode (replicate 32 CHR ''r'')) DefaultSecret = Ok enc"
    using EncryptWithPurpose_Ok unfolding Encrypt_def by blast
  then obtain v' st' where r: "run_state (add_pkce dead_env [] zero_state) sample_toa = (Some (v', st'), sample_toa)"
    unfolding add_pkce_def randomBytesInHex_def
    by (simp add: sec dead_env_def)
  have "aead_correct (Aead dead_env)" by (simp add: dead_env_def ideal_aead_correct)
  from pkce_challenge_matches [OF r this dead_rand_law] r sec show ?thesis by auto
qed

section \<open>The detour over the callback host\<close>

text \<open>
  C27. The detour spoils the shared callback URL. When the callback URL is absolute, the
  redirect of one user writes that user's state, sealed at this clock and with this random
  nonce, into the query of the URL that the middleware keeps. Every authorization request and
  every code exchange that is then built from it, whatever the request, names it as its
  \<open>redirect_uri\<close>.
\<close>

theorem doubleRedirect_spoils_callback:
  assumes "run_state (doubleRedirectToProvider E u ch) s = ((), s')" "UrlIsAbsolute (CallbackURL s)"
    "Rw s' = Rw s @ [EvRedirect target 302]"
  shows "\<exists>sealed q. SealState (Aead E) (JsonText E) (TimeText E) (fst (Now E (World s)))
        (fst (RandRead E NonceSize (snd (Now E (World s)))))
        (Some (zero_state\<lparr>Action := ''RedirectThenLogin'', RedirectUrl := u, IsChallenge := ch\<rparr>)) (Secret (Config s)) = Ok sealed
    \<and> CallbackURL s' = (CallbackURL s)\<lparr>RawQuery := q\<rparr> \<and> (''state'', sealed) \<in> set (ParseQuery q)
    \<and> (\<forall>cfg req ch' n. Values_Get (authorization_values E cfg (CallbackURL s') req ch' n) ''redirect_uri''
          = [UrlString (UrlOps E) ((CallbackURL s)\<lparr>RawQuery := q\<rparr>)]
        \<and> Values_Get (exchange_values E cfg (CallbackURL s') req n) ''redirect_uri''
          = [UrlString (UrlOps E) ((CallbackURL s)\<lparr>RawQuery := q\<rparr>)])"
proof -
  let ?cfg = "Config s"
  from assms(1,3) obtain sealed where seal: "SealState (Aead E) (JsonText E) (TimeText E) (fst (Now E (World s)))
        (fst (RandRead E NonceSize (snd (Now E (World s)))))
        (Some (zero_state\<lparr>Action := ''RedirectThenLogin'', RedirectUrl := u, IsChallenge := ch\<rparr>)) (Secret (Config s)) = Ok sealed"
    and cb: "CallbackURL s' = (CallbackURL s)\<lparr>RawQuery := Values_Encode
      (add_params (authParamsForChallenge ?cfg ch) (add_params (carried_overrides ?cfg (Req s)) [(''state'', [sealed])]))\<rparr>"
    using assms(2)
    by (auto simp: doubleRedirectToProvider_def Let_def unavailable_def internalError_def GetAbsoluteCallbackURL_def
        split: prod.splits sum.splits)
  define v where "v = add_params (authParamsForChallenge ?cfg ch) (add_params (carried_overrides ?cfg (Req s)) [(''state'', [sealed])])"
  have "(''state'', sealed) \<in> set (Values_pairs v)"
    unfolding v_def by (intro Values_Get_pair add_params_Get) (simp add: Values_Get_Cons)
  then have "(''state'', sealed) \<in> set (ParseQuery (Values_Encode v))" by (simp add: ParseQuery_Encode)
  moreover have "Values_Get (authorization_values E cfg (CallbackURL s') req ch' n) ''redirect_uri''
      = [UrlString (UrlOps E) ((CallbackURL s)\<lparr>RawQuery := Values_Encode v\<rparr>)]" for cfg req ch' n
    using assms(2) by (subst authorization_redirect_uri) (simp add: cb v_def GetAbsoluteCallbackURL_def UrlIsAbsolute_def)
  moreover have "Values_Get (exchange_values E cfg (CallbackURL s') req n) ''redirect_uri''
      = [UrlString (UrlOps E) ((CallbackURL s)\<lparr>RawQuery := Values_Encode v\<rparr>)]" for cfg req n
    using assms(2) by (simp add: exchange_values_def Let_def Values_Get_Cons cb v_def GetAbsoluteCallbackURL_def UrlIsAbsolute_def)
  ultimately show ?thesis using seal cb unfolding v_def by blast
qed

lemma SealState_unary_time:
  assumes "aes_key_ok k" "0 \<le> now"
  shows "\<exists>x. SealState A J unary_time now (Some n) (Some st) k = Ok x"
proof -
  have "state_json unary_time (stamp_state now st) \<noteq> None"
    using assms(2) by (simp add: state_json_def stamp_state_def unary_time_def stateLifetime_def Minute_def Second_def)
  then show ?thesis
    using assms(1) by (auto simp: SealState_def EncryptWithPurpose_def)
qed

definition absolute_toa :: "unit toa" where
  "absolute_toa = sample_toa\<lparr>CallbackURL := \<lparr>Scheme = ''https'', UHost = ''login.example'', Path = ''/oidc/callback'', RawQuery = []\<rparr>\<rparr>"

lemma sample_secret: "Secret (Config sample_toa) = DefaultSecret" "Secret (Config absolute_toa) = DefaultSecret"
  by (simp_all add: absolute_toa_def sample_toa_def migrateAuthBehaviors_def CreateConfig_def)

lemma default_secret_ok: "aes_key_ok DefaultSecret"
  by code_simp

theorem doubleRedirect_spoils_callback_witness:
  "\<exists>s' sealed. run_state (doubleRedirectToProvider dead_env ''https://app.example/x'' False) absolute_toa = ((), s')
     \<and> (''state'', sealed) \<in> set (ParseQuery (RawQuery (CallbackURL s')))"
proof -
  obtain x where x: "SealState ideal_aead unary_json unary_time 63000000000000000000 (Some (replicate NonceSize CHR ''r''))
      (Some (zero_state\<lparr>Action := ''RedirectThenLogin'', RedirectUrl := ''https://app.example/x''\<rparr>)) DefaultSecret = Ok x"
    using SealState_unary_time [OF default_secret_ok] by fastforce
  have z: "zero_state\<lparr>Action := a, RedirectUrl := u, IsChallenge := False\<rparr> = zero_state\<lparr>Action := a, RedirectUrl := u\<rparr>" for a u
    by (simp add: zero_state_def)
  have abs: "UrlIsAbsolute (CallbackURL absolute_toa)" by (simp add: UrlIsAbsolute_def absolute_toa_def)
  define s' where "s' = snd (run_state (doubleRedirectToProvider dead_env ''https://app.example/x'' False) absolute_toa)"
  have r: "run_state (doubleRedirectToProvider dead_env ''https://app.example/x'' False) absolute_toa = ((), s')"
    by (simp add: s'_def prod_eq_iff)
  have "\<exists>target. Rw s' = Rw absolute_toa @ [EvRedirect target 302]"
    using x abs sample_secret by (simp add: s'_def doubleRedirectToProvider_def dead_env_def z Let_def)
  then obtain target where "Rw s' = Rw absolute_toa @ [EvRedirect target 302]" by blast
  from doubleRedirect_spoils_callback [OF r abs this] r show ?thesis by auto
qed

section \<open>What the login side does to the response\<close>

lemmas inner_call_appends [hoare] =
  inner_random [THEN inner_appends] inner_discovery [THEN inner_appends] inner_exchange [THEN inner_appends]
  inner_revoke [THEN inner_appends] inner_userinfo [THEN inner_appends] inner_local [THEN inner_appends]
  inner_introspect [THEN inner_appends] inner_validateToken [THEN inner_appends]
  inner_getSessionForRequest [THEN inner_appends] inner_sessionStoreDue [THEN inner_appends]

text \<open>One commit after a quiet prefix: the rules for the common shape of a handler.\<close>

lemmas commit_rules = commits_by_quiet_bind commits_by_http commits_by_if commits_by_case_sum commits_by_case_option
  commits_by_case_prod commits_by_let

lemma emit_events:
  "length (filter commits evs) = n \<Longrightarrow> commits_by (emit (\<lambda>rw. rw @ evs)) (\<lambda>_. n)"
  "list_all A evs \<Longrightarrow> appends A (emit (\<lambda>rw. rw @ evs))"
  by (auto intro!: commits_by_emit appends_emit)

lemma commits_WriteError [commit]: "commits_by (WriteError E page d) (\<lambda>_. 1)"
  unfolding WriteError_def by (intro commit_rules hoare emit_events) simp_all

lemma commits_unavailable [commit]: "commits_by unavailable (\<lambda>_. 1)" "commits_by (internalError msg) (\<lambda>_. 1)"
  unfolding unavailable_def internalError_def by (intro commit_rules)+

lemma commits_pages [commit]:
  "commits_by (writeUnauthenticatedError E) (\<lambda>_. 1)" "commits_by (writeUnauthorizedError E) (\<lambda>_. 1)"
  "commits_by (writeSuccessfulLogout E) (\<lambda>_. 1)"
  unfolding writeUnauthenticatedError_def writeUnauthorizedError_def writeSuccessfulLogout_def
  by (intro commit_rules hoare emit_events commits_WriteError; simp)+

lemma quiet_add_pkce [hoare]: "appends A (add_pkce E v st)"
  unfolding add_pkce_def by (intro hoare)

lemma commits_redirects [commit]:
  "commits_by (seal_and_redirect E u v st) (\<lambda>_. 1)" "commits_by (redirectToProvider E r ch) (\<lambda>_. 1)"
  "commits_by (doubleRedirectToProvider E r ch) (\<lambda>_. 1)"
proof -
  show seal: "commits_by (seal_and_redirect E u v st) (\<lambda>_. 1)" for u v st
    unfolding seal_and_redirect_def by (intro commit_rules hoare commits_unavailable)
  show "commits_by (redirectToProvider E r ch) (\<lambda>_. 1)"
    unfolding redirectToProvider_def by (intro commit_rules hoare commits_unavailable seal) simp_all
  show "commits_by (doubleRedirectToProvider E r ch) (\<lambda>_. 1)"
    unfolding doubleRedirectToProvider_def by (intro commit_rules hoare commits_unavailable) simp_all
qed

lemma commits_handleLogin [commit]: "commits_by (handleLogin E ch o') (\<lambda>_. 1)"
  unfolding handleLogin_def by (intro commit_rules hoare commits_redirects)

lemma commits_forward [commit]: "commits_by forwardToUpstream (\<lambda>_. 1)" "commits_by next_ServeHTTP (\<lambda>_. 1)"
proof -
  show n: "commits_by next_ServeHTTP (\<lambda>_. 1)"
    unfolding next_ServeHTTP_def by (intro commit_rules hoare emit_events) simp
  show "commits_by forwardToUpstream (\<lambda>_. 1)"
    unfolding forwardToUpstream_def sanitize_def by (intro commit_rules hoare n) simp
qed

lemma commits_handleUnauth [commit]:
  "commits_by (handleUnauthenticated E) (\<lambda>_. 1)" "commits_by (handleUnauthorized E sess o') (\<lambda>_. 1)"
  unfolding handleUnauthenticated_def handleUnauthorized_def
  by (intro commit_rules hoare commits_handleLogin commits_pages commits_forward)+

text \<open>Nothing but the two forwarding branches hands a request on.\<close>

lemma quiet_WriteError: "(\<And>e. \<not> forwards e \<Longrightarrow> A e) \<Longrightarrow> appends A (WriteError E page d)"
  unfolding WriteError_def by (intro hoare emit_events) simp_all

lemma no_forward_pages [hoare]:
  "appends (\<lambda>e. \<not> forwards e) (writeUnauthenticatedError E)" "appends (\<lambda>e. \<not> forwards e) (writeUnauthorizedError E)"
  "appends (\<lambda>e. \<not> forwards e) (writeSuccessfulLogout E)" "appends (\<lambda>e. \<not> forwards e) unavailable"
  "appends (\<lambda>e. \<not> forwards e) (internalError msg)"
  unfolding writeUnauthenticatedError_def writeUnauthorizedError_def writeSuccessfulLogout_def unavailable_def internalError_def
  by (intro hoare emit_events quiet_WriteError; simp)+

lemma no_forward_redirects [hoare]:
  "appends (\<lambda>e. \<not> forwards e) (seal_and_redirect E u v st)" "appends (\<lambda>e. \<not> forwards e) (redirectToProvider E r ch)"
  "appends (\<lambda>e. \<not> forwards e) (doubleRedirectToProvider E r ch)"
proof -
  show seal: "appends (\<lambda>e. \<not> forwards e) (seal_and_redirect E u v st)" for u v st
    unfolding seal_and_redirect_def by (intro hoare) simp_all
  show "appends (\<lambda>e. \<not> forwards e) (redirectToProvider E r ch)"
    unfolding redirectToProvider_def by (intro hoare seal) simp_all
  show "appends (\<lambda>e. \<not> forwards e) (doubleRedirectToProvider E r ch)"
    unfolding doubleRedirectToProvider_def by (intro hoare) simp_all
qed

lemma no_forward_handleLogin [hoare]: "appends (\<lambda>e. \<not> forwards e) (handleLogin E ch o')"
  unfolding handleLogin_def by (intro hoare) simp_all

end
