(* ===== verification/Middleware.thy ===== *)
theory Middleware
  imports Login
begin

text \<open>
  The request dispatch of \<open>src/main.go\<close>: \<open>ServeHTTP\<close>, the OIDC callback with its token
  validation and session creation, logout, and front-channel logout.

  A handler that answers the request itself returns \<open>None\<close> where the Go code returns from
  its caller too. \<open>ServeHTTP\<close> ends in \<open>Served\<close> or, when the code dereferences a nil
  error, in \<open>Panicked\<close>.
\<close>

section \<open>The callback\<close>

definition callback_token :: "ProviderConfig \<Rightarrow> OidcTokenResponse \<Rightarrow> string option" where
  "callback_token p token =
     (if TokenValidation p = ''AccessToken'' then Some (Tok_AccessToken token)
      else if TokenValidation p = ''IdToken'' then Some (Tok_IdToken token)
      else if TokenValidation p = ''Introspection'' then Some (Tok_AccessToken token)
      else None)"

definition check_callback_token :: "'w env \<Rightarrow> string \<Rightarrow> OidcState \<Rightarrow> ('w, claims result) m" where
  "check_callback_token E usedToken state = do {
     p \<leftarrow> prov (\<lambda>p. p);
     if TokenValidation p = ''Introspection''
     then do {
       r \<leftarrow> introspectToken E usedToken;
       return (case r of
                 Inl e \<Rightarrow> Err e
               | Inr (active, claims) \<Rightarrow>
                   if \<not> active then Err ''introspection reported an inactive token'' else Ok claims)
     }
     else validateTokenLocally E usedToken (Nonce state)
   }"

definition validateCallbackToken :: "'w env \<Rightarrow> OidcTokenResponse \<Rightarrow> OidcState \<Rightarrow> ('w, claims result) m" where
  "validateCallbackToken E token state = do {
     p \<leftarrow> prov (\<lambda>p. p);
     case callback_token p token of
       None \<Rightarrow> do { http_Error ''Authentication is temporarily unavailable'' 500; return (Err ''invalid verification_token'') }
     | Some usedToken \<Rightarrow> do {
         r \<leftarrow> check_callback_token E usedToken state;
         case r of
           Inl e \<Rightarrow> do { http_Error ''Returned token is not valid'' 401; return (Err e) }
         | Inr claims \<Rightarrow>
             if UseClaimsFromUserInfoBool p
             then (case claim_string claims ''sub'' of
                     None \<Rightarrow> do { http_Error ''Failed to fetch UserInfo'' 500; return (Err (''userinfo 'sub' claim missing'')) }
                   | Some subClaim \<Rightarrow> do {
                       u \<leftarrow> getUserInfo E (Tok_AccessToken token) subClaim;
                       case u of
                         Inl e \<Rightarrow> do { http_Error ''Failed to fetch UserInfo'' 500; return (Err e) }
                       | Inr userInfoClaims \<Rightarrow> return (Ok (mergeClaims claims userInfoClaims))
                     })
             else return (Ok claims)
       }
   }"

definition establishSession :: "'w env \<Rightarrow> OidcTokenResponse \<Rightarrow> claims \<Rightarrow> OidcState \<Rightarrow> ('w, SessionState result) m" where
  "establishSession E token claims state = do {
     cfg \<leftarrow> ask Config;
     sid \<leftarrow> outside (NewUUID E);
     now \<leftarrow> outside (Now E);
     let sess = zero_session\<lparr>Id := sid, RefreshedAt := now, AccessToken := Tok_AccessToken token,
       IdToken := Tok_IdToken token, RefreshToken := Tok_RefreshToken token,
       IsAuthorized := isAuthorized (ClaimOps E) (JsonText E) (Authorization cfg) claims,
       TokenExpiresIn := ExpiresIn token, ChallengeAttempted := IsChallenge state\<rparr>;
     e \<leftarrow> storeSessionAndAttachCookie E sess;
     case e of
       Some err \<Rightarrow> return (Err err)
     | None \<Rightarrow> do { mark E sid; return (Ok sess) }
   }"

definition post_login_target :: "'w env \<Rightarrow> Config \<Rightarrow> bool \<Rightarrow> request \<Rightarrow> string \<Rightarrow> string result" where
  "post_login_target E cfg wildcards req redirectUrl =
     (if redirectUrl \<noteq> []
      then if ValidPostLoginRedirectUris cfg \<noteq> []
           then (case ValidateRedirectUri redirectUrl (ValidPostLoginRedirectUris cfg) wildcards of
                   Inl e \<Rightarrow> Err e
                 | Inr target \<Rightarrow> Ok (ensureAbsoluteUrl E cfg req target))
           else Ok (ensureAbsoluteUrl E cfg req redirectUrl)
      else Ok (ensureAbsoluteUrl E cfg req (PostLoginRedirectUri cfg)))"

text \<open>From the stored session on: the final redirect, unless the session is not authorized.\<close>

definition finish_login :: "'w env \<Rightarrow> OidcState \<Rightarrow> SessionState \<Rightarrow> ('w, string option) m" where
  "finish_login E state sess = do {
     cfg \<leftarrow> ask Config;
     req \<leftarrow> ask Req;
     cb \<leftarrow> ask CallbackURL;
     wildcards \<leftarrow> ask RedirectUriWildcardsEnabled;
     now \<leftarrow> outside (Now E);
     emit (\<lambda>rw. if UsePkceBool (Provider cfg) then clearLegacyCodeVerifierCookies now cfg rw req cb else rw);
     case post_login_target E cfg wildcards req (RedirectUrl state) of
       Inl e \<Rightarrow> do { http_Error ''Invalid redirect'' 400; return None }
     | Inr redirectUrl \<Rightarrow>
         if \<not> IsAuthorized sess then do { handleUnauthorized E sess redirectUrl; return None }
         else return (Some redirectUrl)
   }"

text \<open>The step-up check; the clock is read on a challenge only.\<close>

definition step_up_fails :: "'w env \<Rightarrow> OidcState \<Rightarrow> claims \<Rightarrow> ('w, bool) m" where
  "step_up_fails E state claims = do {
     cfg \<leftarrow> ask Config;
     if IsChallenge state
     then do { now \<leftarrow> outside (Now E); return (\<not> authTimeIsFresh E cfg claims now) }
     else return False
   }"

definition complete_login :: "'w env \<Rightarrow> OidcState \<Rightarrow> OidcTokenResponse \<Rightarrow> ('w, string option) m" where
  "complete_login E state token = do {
     c \<leftarrow> validateCallbackToken E token state;
     case c of
       Inl e \<Rightarrow> return None
     | Inr claims \<Rightarrow> do {
         stale \<leftarrow> step_up_fails E state claims;
         if stale then do { writeUnauthorizedError E; return None }
         else do {
           s \<leftarrow> establishSession E token claims state;
           case s of
             Inl e \<Rightarrow> return None
           | Inr sess \<Rightarrow> finish_login E state sess
         }
       }
   }"

definition callback_login :: "'w env \<Rightarrow> OidcState \<Rightarrow> ('w, string option) m" where
  "callback_login E state = do {
     cfg \<leftarrow> ask Config;
     req \<leftarrow> ask Req;
     cb \<leftarrow> ask CallbackURL;
     now \<leftarrow> outside (Now E);
     emit (\<lambda>rw. clearLoginCsrfCookie now cfg rw cb (Csrf state));
     if validateLoginCsrf cfg req (Csrf state) \<noteq> None
     then do { http_Error ''Invalid login state'' 403; return None }
     else if Query_Get req ''code'' = []
     then do { http_Error ''Code is missing'' 400; return None }
     else do {
       t \<leftarrow> exchangeAuthCode E (Query_Get req ''code'') (CodeVerifierEnc state);
       case t of
         Inl e \<Rightarrow> do { http_Error ''Failed to exchange auth code'' 500; return None }
       | Inr token \<Rightarrow> complete_login E state token
     }
   }"

definition clear_session_cookie :: "'w env \<Rightarrow> ('w, unit) m" where
  "clear_session_cookie E = do {
     cfg \<leftarrow> ask Config;
     req \<leftarrow> ask Req;
     now \<leftarrow> outside (Now E);
     emit (\<lambda>rw. clearChunkedCookie now cfg rw req (getSessionCookieName cfg))
   }"

definition callback_action :: "'w env \<Rightarrow> OidcState \<Rightarrow> ('w, unit) m" where
  "callback_action E state =
     (if Action state = ''Login''
      then do {
        r \<leftarrow> callback_login E state;
        case r of None \<Rightarrow> return () | Some redirectUrl \<Rightarrow> http_Redirect redirectUrl 302
      }
      else if Action state = ''Logout''
      then do { clear_session_cookie E; http_Redirect (RedirectUrl state) 302 }
      else if Action state = ''RedirectThenLogin''
      then redirectToProvider E (RedirectUrl state) (IsChallenge state)
      else http_Redirect (RedirectUrl state) 302)"

definition handleCallback :: "'w env \<Rightarrow> ('w, unit) m" where
  "handleCallback E = do {
     cfg \<leftarrow> ask Config;
     req \<leftarrow> ask Req;
     if Query_Get req ''state'' = [] then http_Error ''State is missing'' 400
     else do {
       now \<leftarrow> outside (Now E);
       case UnsealState (Aead E) (JsonText E) (TimeText E) now (Query_Get req ''state'') (Secret cfg) of
         Inl err \<Rightarrow>
           if err = ErrStateExpired then http_Error ''Your login request expired. Please start again.'' 401
           else http_Error ''State is invalid'' 400
       | Inr state \<Rightarrow> callback_action E state
     }
   }"

section \<open>Logout\<close>

definition logout_target :: "'w env \<Rightarrow> Config \<Rightarrow> bool \<Rightarrow> request \<Rightarrow> string result" where
  "logout_target E cfg wildcards req =
     (let q0 = Query_Get req ''redirect_uri'';
          q = (if q0 = [] then Query_Get req ''post_logout_redirect_uri'' else q0);
          redirectUri = ensureAbsoluteUrl E cfg req (PostLogoutRedirectUri cfg)
      in if q = [] then Ok redirectUri
         else case ValidateRedirectUri q (ValidPostLogoutRedirectUris cfg) wildcards of
                Inl e \<Rightarrow> Err e
              | Inr v \<Rightarrow> Ok (if v \<noteq> [] then ensureAbsoluteUrl E cfg req v else redirectUri))"

definition logout_values :: "'w env \<Rightarrow> Config \<Rightarrow> url \<Rightarrow> request \<Rightarrow> SessionState \<Rightarrow> string \<Rightarrow> values" where
  "logout_values E cfg cb req session base64State =
     [(''client_id'', [ClientId (Provider cfg)]),
      (''post_logout_redirect_uri'', [UrlString (UrlOps E) (GetAbsoluteCallbackURL E cfg cb req)]),
      (''state'', [base64State]), (''id_token_hint'', [IdToken session])]"

definition handleLogout :: "'w env \<Rightarrow> SessionState \<Rightarrow> ('w, unit) m" where
  "handleLogout E session = do {
     cfg \<leftarrow> ask Config;
     req \<leftarrow> ask Req;
     cb \<leftarrow> ask CallbackURL;
     wildcards \<leftarrow> ask RedirectUriWildcardsEnabled;
     doc \<leftarrow> ask DiscoveryDocument;
     case UrlParse (UrlOps E) (EndSessionEndpoint (the doc)) of
       Inl e \<Rightarrow> internalError ''Logout is temporarily unavailable''
     | Inr endSessionURL \<Rightarrow> do {
         revoked \<leftarrow> revokeToken E (RefreshToken session);
         case logout_target E cfg wildcards req of
           Inl e \<Rightarrow> http_Error ''Invalid redirect'' 400
         | Inr redirectUri \<Rightarrow> do {
             now \<leftarrow> outside (Now E);
             rnd \<leftarrow> outside (RandRead E NonceSize);
             case SealState (Aead E) (JsonText E) (TimeText E) now rnd
                    (Some (zero_state\<lparr>Action := ''Logout'', RedirectUrl := redirectUri\<rparr>)) (Secret cfg) of
               Inl e \<Rightarrow> internalError ''Logout is temporarily unavailable''
             | Inr base64State \<Rightarrow>
                 http_Redirect (UrlString (UrlOps E)
                   (endSessionURL\<lparr>RawQuery := Values_Encode (logout_values E cfg cb req session base64State)\<rparr>)) 302
           }
       }
   }"

definition secureStringEqual :: "string \<Rightarrow> string \<Rightarrow> bool" where
  "secureStringEqual a b = (if length a \<noteq> length b then False else a = b)"

text \<open>The reason why a front-channel notification is rejected, if it is.\<close>

definition frontchannel_error :: "ProviderConfig \<Rightarrow> string \<Rightarrow> request \<Rightarrow> SessionState \<Rightarrow> claims \<Rightarrow> string option" where
  "frontchannel_error p expectedIssuer req sess claims =
     (let iss = Query_Get req ''iss''; sid = Query_Get req ''sid''; idTokenHint = Query_Get req ''id_token_hint''
      in if iss = [] then Some ''iss is missing''
         else if \<not> (case claim_string claims ''iss'' of None \<Rightarrow> False | Some claimIss \<Rightarrow> secureStringEqual iss claimIss)
         then Some ''iss does not match''
         else if ValidateIssuerBool p \<and> expectedIssuer \<noteq> [] \<and> \<not> secureStringEqual iss expectedIssuer
         then Some ''iss does not match''
         else if sid = [] \<and> idTokenHint = [] then Some ''sid or id_token_hint is required''
         else if sid \<noteq> []
         then (case claim_string claims ''sid'' of
                 None \<Rightarrow> Some ''sid does not match''
               | Some claimSid \<Rightarrow> if \<not> secureStringEqual sid claimSid then Some ''sid does not match'' else None)
         else if \<not> secureStringEqual idTokenHint (IdToken sess) \<or> IdToken sess = []
         then Some ''id_token_hint does not match''
         else None)"

definition handleFrontchannelLogout :: "'w env \<Rightarrow> SessionState \<Rightarrow> claims \<Rightarrow> ('w, unit) m" where
  "handleFrontchannelLogout E sess claims = do {
     p \<leftarrow> prov (\<lambda>p. p);
     req \<leftarrow> ask Req;
     issuer \<leftarrow> ask effectiveValidIssuer;
     case frontchannel_error p issuer req sess claims of
       Some msg \<Rightarrow> http_Error msg 400
     | None \<Rightarrow> do {
         revoked \<leftarrow> revokeToken E (RefreshToken sess);
         clear_session_cookie E;
         writeSuccessfulLogout E
       }
   }"

section \<open>Dispatch\<close>

datatype outcome = Served | Panicked

definition recheck :: "'w env \<Rightarrow> Config \<Rightarrow> SessionState \<Rightarrow> claims \<Rightarrow> SessionState" where
  "recheck E cfg sess claims =
     (if is_pseudo (Id sess) \<or> CheckOnEveryRequest (Authorization cfg)
      then sess\<lparr>IsAuthorized := isAuthorized (ClaimOps E) (JsonText E) (Authorization cfg) claims\<rparr> else sess)"

definition store_if_due :: "'w env \<Rightarrow> SessionState \<Rightarrow> bool \<Rightarrow> ('w, bool) m" where
  "store_if_due E sess updateSession = do {
     due \<leftarrow> sessionStoreDue E (Id sess) updateSession;
     if due
     then do {
       e \<leftarrow> storeSessionAndAttachCookie E sess;
       case e of Some err \<Rightarrow> return False | None \<Rightarrow> do { mark E (Id sess); return True }
     }
     else return True
   }"

definition forward_session :: "'w env \<Rightarrow> bool \<Rightarrow> SessionState \<Rightarrow> claims \<Rightarrow> bool \<Rightarrow> ('w, unit) m" where
  "forward_session E isPublic sess claims updateSession = do {
     sanitize;
     e \<leftarrow> attachHeaders E sess claims isPublic (IsAuthorized sess);
     case e of
       Some err \<Rightarrow> unavailable
     | None \<Rightarrow> do {
         ok \<leftarrow> store_if_due E sess updateSession;
         if ok then next_ServeHTTP else return ()
       }
   }"

definition serve_session :: "'w env \<Rightarrow> bool \<Rightarrow> SessionState \<Rightarrow> claims \<Rightarrow> bool \<Rightarrow> ('w, unit) m" where
  "serve_session E isPublic sess0 claims updateSession = do {
     cfg \<leftarrow> ask Config;
     req \<leftarrow> ask Req;
     if pathMatchesConfiguredRoute req (LogoutUri cfg) then handleLogout E sess0
     else if pathMatchesConfiguredRoute req (FrontChannelLogoutUri cfg) then handleFrontchannelLogout E sess0 claims
     else do {
       let sess = recheck E cfg sess0 claims;
       if \<not> IsAuthorized sess \<and> UnauthorizedBehavior cfg \<noteq> ''Forward'' then handleUnauthorized E sess []
       else forward_session E isPublic sess claims updateSession
     }
   }"

definition serve_anonymous :: "'w env \<Rightarrow> bool \<Rightarrow> error option \<Rightarrow> ('w, outcome) m" where
  "serve_anonymous E isPublic err = do {
     cfg \<leftarrow> ask Config;
     req \<leftarrow> ask Req;
     if isPublic then do { forwardToUpstream; return Served }
     else if pathMatchesConfiguredRoute req (FrontChannelLogoutUri cfg)
     then do { writeSuccessfulLogout E; return Served }
     else case err of
            None \<Rightarrow> return Panicked
          | Some e \<Rightarrow> do { clear_session_cookie E; handleUnauthenticated E; return Served }
   }"

definition authenticate :: "'w env \<Rightarrow> bool \<Rightarrow> ('w, outcome) m" where
  "authenticate E isPublic = do {
     r \<leftarrow> getSessionForRequest E;
     case r of
       (Some sess, claims, updateSession, None) \<Rightarrow> do { serve_session E isPublic sess claims updateSession; return Served }
     | (_, _, _, err) \<Rightarrow> serve_anonymous E isPublic err
   }"

definition ServeHTTP :: "'w env \<Rightarrow> ('w, outcome) m" where
  "ServeHTTP E = do {
     cfg \<leftarrow> ask Config;
     req \<leftarrow> ask Req;
     cb \<leftarrow> ask CallbackURL;
     let isPublic = (case BypassRule E of None \<Rightarrow> False | Some rule \<Rightarrow> rule req);
     if isCallbackRequest E cfg cb req
     then do {
       e \<leftarrow> EnsureOidcDiscovery E;
       (case e of Some err \<Rightarrow> unavailable | None \<Rightarrow> handleCallback E);
       return Served
     }
     else if isPublic \<and> \<not> hasSessionMaterial cfg req then do { forwardToUpstream; return Served }
     else do {
       e \<leftarrow> EnsureOidcDiscovery E;
       case e of
         Some err \<Rightarrow> do { unavailable; return Served }
       | None \<Rightarrow>
           if pathMatchesConfiguredRoute req (LoginUri cfg) then do { handleLogin E False []; return Served }
           else authenticate E isPublic
     }
   }"

section \<open>One response per request\<close>

text \<open>
  \<open>counts m Q\<close>: with the result \<open>x\<close>, \<open>m\<close> has committed the response \<open>n\<close> times, and
  \<open>Q x n\<close>. It extends \<open>commits_by\<close> to helpers that answer the request on some results.
\<close>

definition counts :: "('w, 'a) m \<Rightarrow> ('a \<Rightarrow> nat \<Rightarrow> bool) \<Rightarrow> bool" where
  "counts m Q \<longleftrightarrow>
     (\<forall>s. \<exists>n. commit_count (Rw (snd (run_state m s))) = commit_count (Rw s) + n \<and> Q (fst (run_state m s)) n)"

lemma counts_commits: "commits_by m f \<Longrightarrow> (\<And>x. Q x (f x)) \<Longrightarrow> counts m Q"
  unfolding commits_by_def counts_def
  by (metis (mono_tags, lifting) case_prod_beta)

lemma counts_return: "Q x 0 \<Longrightarrow> counts (return x) Q"
  by (simp add: counts_def)

lemma counts_bind:
  fixes m :: "('w, 'a) m"
  assumes "counts m R" "\<And>x n. R x n \<Longrightarrow> counts (k x) (\<lambda>y n'. Q y (n + n'))"
  shows "counts (m \<bind> k) Q"
  unfolding counts_def
proof
  fix s :: "'w toa"
  obtain x s1 where r: "run_state m s = (x, s1)" by (cases "run_state m s")
  with assms(1) obtain n where n: "commit_count (Rw s1) = commit_count (Rw s) + n" "R x n"
    unfolding counts_def by (metis fst_conv snd_conv)
  from assms(2) [OF n(2)] obtain n' where "commit_count (Rw (snd (run_state (k x) s1))) = commit_count (Rw s1) + n'"
    "Q (fst (run_state (k x) s1)) (n + n')" unfolding counts_def by blast
  with n r show "\<exists>n. commit_count (Rw (snd (run_state (m \<bind> k) s))) = commit_count (Rw s) + n
      \<and> Q (fst (run_state (m \<bind> k) s)) n" by (intro exI [of _ "n + n'"]) simp
qed

lemma counts_quiet_bind: "appends (\<lambda>e. \<not> commits e) m \<Longrightarrow> (\<And>x. counts (k x) Q) \<Longrightarrow> counts (m \<bind> k) Q"
  by (rule counts_bind [OF counts_commits [OF commits_by_0], of _ "\<lambda>x n. n = 0"]) simp_all

lemma counts_branch:
  "(b \<Longrightarrow> counts m Q) \<Longrightarrow> (\<not> b \<Longrightarrow> counts m' Q) \<Longrightarrow> counts (if b then m else m') Q"
  "(\<And>e. x = Inl e \<Longrightarrow> counts (g e) Q) \<Longrightarrow> (\<And>y. x = Inr y \<Longrightarrow> counts (h y) Q) \<Longrightarrow>
     counts (case x of Inl e \<Rightarrow> g e | Inr y \<Rightarrow> h y) Q"
  "(z = None \<Longrightarrow> counts p Q) \<Longrightarrow> (\<And>y. z = Some y \<Longrightarrow> counts (q y) Q) \<Longrightarrow>
     counts (case z of None \<Rightarrow> p | Some y \<Rightarrow> q y) Q"
  "counts (l v) Q \<Longrightarrow> counts (let y = v in l y) Q"
  by (simp_all split: sum.split option.split)

text \<open>A committing step followed by a result.\<close>

lemma counts_answer: "commits_by m (\<lambda>_. 1) \<Longrightarrow> Q x 1 \<Longrightarrow> counts (do { m; return x }) Q"
  by (rule counts_bind [OF counts_commits, of _ "\<lambda>_. 1" "\<lambda>_ n. n = 1"]) (auto intro: counts_return)

lemma counts_one: "counts m (\<lambda>_ n. n = 1) \<longleftrightarrow> commits_by m (\<lambda>_. 1)"
  unfolding counts_def commits_by_def by (simp add: split_beta)

abbreviation answered :: "('a result \<Rightarrow> nat \<Rightarrow> bool)" where
  "answered \<equiv> (\<lambda>r n. n = (if is_ok r then 0 else 1))"

lemmas counting = counts_quiet_bind counts_branch counts_answer counts_return

lemma inner_check_callback [inners]: "inner (check_callback_token E tok st)"
  unfolding check_callback_token_def by (intro inners)

lemmas more_calls [hoare] = inner_check_callback [THEN inner_appends]

lemma quiet_mark [hoare]: "appends A (mark E sid)"
  unfolding mark_def by (intro hoare) simp

lemma counts_store: "counts (storeSessionAndAttachCookie E sess) (\<lambda>e n. n = (if e = None then 0 else 1))"
  unfolding storeSessionAndAttachCookie_def by (intro counting hoare commit) simp_all

lemma counts_validate: "counts (validateCallbackToken E token st) answered"
  unfolding validateCallbackToken_def by (intro counting hoare commit) simp_all

lemma counts_establish: "counts (establishSession E token c st) answered"
  unfolding establishSession_def
  by (intro counts_quiet_bind counts_branch hoare counts_bind [OF counts_store])
    (auto intro!: counting hoare split: option.splits)

lemma counts_finish: "counts (finish_login E st sess) (\<lambda>r n. n = (if r = None then 1 else 0))"
  unfolding finish_login_def
  by (rule counts_answer counting hoare commit sets_cookies_if sets_cookies_id | simp)+

lemma quiet_step_up [hoare]: "appends A (step_up_fails E st c)"
  unfolding step_up_fails_def by (intro hoare)

lemma quiet_clear_session: "(\<And>c. Value c = [] \<Longrightarrow> A (EvSetCookie c)) \<Longrightarrow> appends A (clear_session_cookie E)"
  unfolding clear_session_cookie_def by (intro hoare appends_cookies [OF sets_cookies_clear]) simp

lemma counts_complete: "counts (complete_login E st token) (\<lambda>r n. n = (if r = None then 1 else 0))"
  unfolding complete_login_def
proof (rule counts_bind [OF counts_validate])
  fix c :: "claims result" and n
  assume n: "n = (if is_ok c then 0 else 1 :: nat)"
  show "counts (case c of Inl e \<Rightarrow> return None
      | Inr claims \<Rightarrow> do {
          stale \<leftarrow> step_up_fails E st claims;
          if stale then do { writeUnauthorizedError E; return None }
          else do {
            s \<leftarrow> establishSession E token claims st;
            case s of Inl e \<Rightarrow> return None | Inr sess \<Rightarrow> finish_login E st sess
          }
        }) (\<lambda>y n'. n + n' = (if y = None then 1 else 0))"
  proof (cases c)
    case (Inr claims)
    have "counts (do {
            s \<leftarrow> establishSession E token claims st;
            case s of Inl e \<Rightarrow> return None | Inr sess \<Rightarrow> finish_login E st sess
          }) (\<lambda>y n'. n' = (if y = None then 1 else 0))"
      by (rule counts_bind [OF counts_establish]) (auto split: sum.splits intro: counts_return counts_finish)
    with Inr n show ?thesis
      by (auto intro!: counts_quiet_bind quiet_step_up counts_branch(1) counts_answer commits_pages)
  qed (simp add: n counts_return)
qed

lemma counts_callback_login: "counts (callback_login E st) (\<lambda>r n. n = (if r = None then 1 else 0))"
  unfolding callback_login_def
  by (rule counts_answer counting hoare commit counts_complete | simp)+

lemma commits_callback: "commits_by (handleCallback E) (\<lambda>_. 1)"
proof -
  have "counts (callback_action E st) (\<lambda>_ n. n = 1)" for st
  proof -
    have "counts (do { r \<leftarrow> callback_login E st;
        case r of None \<Rightarrow> return () | Some redirectUrl \<Rightarrow> http_Redirect redirectUrl 302 }) (\<lambda>_ n. n = 1)"
      by (rule counts_bind [OF counts_callback_login])
        (auto simp del: One_nat_def simp: counts_one intro: counts_return commit split: option.split)
    moreover have "commits_by (do { clear_session_cookie E; http_Redirect (RedirectUrl st) 302 }) (\<lambda>_. 1)"
      by (intro commits_by_quiet_bind quiet_clear_session commit) simp
    ultimately show ?thesis
      unfolding callback_action_def
      by (auto simp del: One_nat_def simp: counts_one intro: commit)
  qed
  then have action [commit]: "commits_by (callback_action E st) (\<lambda>_. 1)" for st using counts_one by blast
  show ?thesis unfolding handleCallback_def by (rule commit_rules hoare action)+
qed

lemma commits_logout: "commits_by (handleLogout E sess) (\<lambda>_. 1)"
  unfolding handleLogout_def by (rule commit_rules hoare commit)+

lemma commits_frontchannel: "commits_by (handleFrontchannelLogout E sess c) (\<lambda>_. 1)"
  unfolding handleFrontchannelLogout_def by (rule commit_rules hoare quiet_clear_session commit | simp)+

lemma quiet_sanitize [hoare]: "appends A sanitize"
  unfolding sanitize_def by (intro hoare) simp

lemma quiet_attach [hoare]: "appends A (attachHeaders E sess c pub auth)"
  unfolding attachHeaders_def by (intro hoare) simp

lemma counts_store_if_due: "counts (store_if_due E sess upd) (\<lambda>ok n. n = (if ok then 0 else 1))"
proof -
  have "counts (do { e \<leftarrow> storeSessionAndAttachCookie E sess;
      case e of Some err \<Rightarrow> return False | None \<Rightarrow> do { mark E (Id sess); return True } }) (\<lambda>ok n. n = (if ok then 0 else 1))"
    by (rule counts_bind [OF counts_store]) (auto intro!: counts_quiet_bind quiet_mark counts_return split: option.split)
  then show ?thesis
    unfolding store_if_due_def by (auto intro!: counts_quiet_bind hoare counts_branch(1) counts_return)
qed

lemma commits_forward_session: "commits_by (forward_session E pub sess c upd) (\<lambda>_. 1)"
proof -
  have "counts (do { ok \<leftarrow> store_if_due E sess upd; if ok then next_ServeHTTP else return () }) (\<lambda>_ n. n = 1)"
    by (rule counts_bind [OF counts_store_if_due])
      (auto simp del: One_nat_def simp: counts_one intro!: counts_branch(1) counts_return commits_forward)
  then have "commits_by (do { ok \<leftarrow> store_if_due E sess upd; if ok then next_ServeHTTP else return () }) (\<lambda>_. 1)"
    using counts_one by blast
  note tail = this
  show ?thesis
    unfolding forward_session_def by (rule tail commits_by_quiet_bind commits_by_case_option hoare commits_unavailable)+
qed

lemma commits_serve_session: "commits_by (serve_session E pub sess c upd) (\<lambda>_. 1)"
  unfolding serve_session_def
  by (intro commit_rules hoare commits_logout commits_frontchannel commits_handleUnauth commits_forward_session)

abbreviation served_once :: "outcome \<Rightarrow> nat \<Rightarrow> bool" where
  "served_once \<equiv> (\<lambda>out n. n = (if out = Served then 1 else 0))"

lemma counts_anonymous: "counts (serve_anonymous E pub err) served_once"
proof -
  have "commits_by (do { clear_session_cookie E; handleUnauthenticated E }) (\<lambda>_. 1)"
    by (intro commits_by_quiet_bind quiet_clear_session commits_handleUnauth) simp
  from counts_answer [OF this, of served_once Served]
  have "counts (do { clear_session_cookie E; handleUnauthenticated E; return Served }) served_once"
    by (simp add: bind_assoc)
  then show ?thesis
    unfolding serve_anonymous_def
    by (auto intro!: counts_quiet_bind hoare counts_branch(1) counts_answer commit counts_return split: option.split)
qed

lemma counts_authenticate: "counts (authenticate E pub) served_once"
  unfolding authenticate_def
  by (auto intro!: counts_quiet_bind hoare counts_answer commits_serve_session counts_anonymous
      split: prod.split option.split)

lemma quiet_discovery [hoare]: "appends A (EnsureOidcDiscovery E)"
  unfolding EnsureOidcDiscovery_def by (intro hoare) (simp_all add: publish_discovery_def Let_def)

lemma answers_once:
  "case run_state (ServeHTTP E) s of (out, s') \<Rightarrow>
     commit_count (Rw s') = commit_count (Rw s) + (if out = Served then 1 else 0)"
proof -
  have c: "commits_by (case e of Some err \<Rightarrow> unavailable | None \<Rightarrow> handleCallback E) (\<lambda>_. 1)" for e :: "error option"
    by (cases e) (simp_all only: option.case commits_unavailable commits_callback)
  have "counts (ServeHTTP E) served_once"
    unfolding ServeHTTP_def Let_def
    by (rule counts_answer counts_quiet_bind hoare counts_branch c commits_unavailable commits_forward commits_handleLogin
        counts_authenticate | simp)+
  then show ?thesis by (auto simp: counts_def split: prod.split dest: spec [of _ s])
qed

text \<open>
  C9. Every request is answered exactly once: whatever the outside does, the middleware
  writes one error, one page, one redirect, or hands the request on once, and never two of
  them. The only exception is the panic, after which nothing has been written.
\<close>

theorem ServeHTTP_answers_once:
  "case run_state (ServeHTTP E) s of (out, s') \<Rightarrow>
     commit_count (Rw s') = commit_count (Rw s) + (if out = Served then 1 else 0)"
  by (rule answers_once)

end
