(* ===== verification/Dispatch.thy ===== *)
theory Dispatch
  imports Middleware
begin

text \<open>
  What \<open>ServeHTTP\<close> of \<open>src/main.go\<close> lets through: the one place where it panics, and the
  conditions under which a request reaches the upstream.
\<close>

section \<open>Where the panic comes from\<close>

lemma same_effective [simp]:
  "c\<lparr>Provider := (Provider c)\<lparr>ValidIssuer := ValidIssuer (Provider c), ValidAudience := ValidAudience (Provider c)\<rparr>\<rparr> = c"
  by simp

lemma inner_Config: "inner m \<Longrightarrow> run_state m s = (x, s') \<Longrightarrow> Config s' = Config s"
  by (rule keeps_run [OF inner_keeps [where f = Config]]) simp_all

text \<open>Discovery changes the key cache, the document and the two effective defaults only.\<close>

lemma discovery_frame:
  assumes "run_state (EnsureOidcDiscovery E) s = (e, s1)"
  obtains iss aud where "Req s1 = Req s" "Rw s1 = Rw s" "CallbackURL s1 = CallbackURL s" "sessionWrites s1 = sessionWrites s"
    "RedirectUriWildcardsEnabled s1 = RedirectUriWildcardsEnabled s"
    "Config s1 = (Config s)\<lparr>Provider := (Provider (Config s))\<lparr>ValidIssuer := iss, ValidAudience := aud\<rparr>\<rparr>"
proof (cases "DiscoveryDocument s")
  case (Some d)
  with assms have "s1 = s" by (simp add: EnsureOidcDiscovery_def)
  then show ?thesis
    by (intro that [where iss = "ValidIssuer (Provider (Config s))" and aud = "ValidAudience (Provider (Config s))"])
      (simp_all only: same_effective)
next
  case None
  let ?s = "s\<lparr>Jwks := new_jwks\<rparr>"
  obtain r s2 where g: "run_state (GetOidcDiscoveryContext E (ProviderURL s)) ?s = (r, s2)"
    by (cases "run_state (GetOidcDiscoveryContext E (ProviderURL s)) ?s")
  from inner_run [OF inner_discovery g] obtain w h where s2: "s2 = ?s\<lparr>World := w, Jwks := h\<rparr>" by blast
  show ?thesis
  proof (cases r)
    case (Inl err)
    with None assms g have "s1 = s2" by (simp add: EnsureOidcDiscovery_def)
    have c: "Config s1 = (Config s)\<lparr>Provider := (Provider (Config s))\<lparr>ValidIssuer := ValidIssuer (Provider (Config s)),
        ValidAudience := ValidAudience (Provider (Config s))\<rparr>\<rparr>"
      unfolding same_effective using \<open>s1 = s2\<close> s2 by simp
    show ?thesis by (rule that [OF _ _ _ _ _ c]) (simp_all add: \<open>s1 = s2\<close> s2)
  next
    case (Inr d)
    with None assms g have s1: "s1 = publish_discovery d s2" by (simp add: EnsureOidcDiscovery_def)
    show ?thesis
      by (rule that [where iss = "if ValidIssuer (Provider (Config s)) = [] then Issuer d else ValidIssuer (Provider (Config s))"
            and aud = "if ValidAudience (Provider (Config s)) = [] then ClientId (Provider (Config s)) else ValidAudience (Provider (Config s))"])
        (simp_all add: s1 s2 publish_discovery_def Let_def)
  qed
qed

lemma validateToken_inactive:
  assumes "run_state (validateToken E v) s = (Ok (False, c), s')"
  shows "TokenValidation (Provider (Config s)) = ''Introspection''"
proof (rule ccontr)
  assume ne: "TokenValidation (Provider (Config s)) \<noteq> ''Introspection''"
  with assms obtain token where t: "token_of (Provider (Config s)) v = Ok token"
    by (cases "token_of (Provider (Config s)) v") (auto simp: validateToken_def)
  obtain r s1 where l: "run_state (validateTokenLocally E token []) s = (r, s1)"
    by (cases "run_state (validateTokenLocally E token []) s")
  from assms ne t l obtain claims where r: "r = Ok claims" by (cases r) (auto simp: validateToken_def)
  with assms ne t l obtain sub where "claim_string claims ''sub'' = Some sub" "UseClaimsFromUserInfoBool (Provider (Config s))"
    by (auto simp: validateToken_def split: if_splits option.splits)
  with assms ne t l r show False
    by (auto simp: validateToken_def split: prod.splits sum.splits)
qed

text \<open>
  \<open>renewed_inactive E s s'\<close>: between \<open>s\<close> and \<open>s'\<close> the session cookie of the request opened and held a
  refresh token, the token endpoint gave new tokens for it, and the introspection endpoint
  called the new access token inactive.
\<close>

definition renewed_inactive :: "'w env \<Rightarrow> 'w toa \<Rightarrow> 'w toa \<Rightarrow> bool" where
  "renewed_inactive E s s' \<longleftrightarrow>
     TokenValidation (Provider (Config s)) = ''Introspection''
     \<and> (\<exists>ticket s0 token t t' c. readChunkedCookie (Req s) (getSessionCookieName (Config s)) = Ok ticket
        \<and> TryGetSession (Aead E) (JsonText E) (TimeText E) (fst (Now E (World s))) (Config s) ticket = Ok s0
        \<and> RefreshToken s0 \<noteq> [] \<and> reaches E s t \<and> run_state (renewToken E (RefreshToken s0)) t = (Ok token, t')
        \<and> run_state (introspectToken E (Tok_AccessToken token)) t' = (Ok (False, c), s'))"

lemma renew_session_nil:
  assumes "run_state (renew_session E v) s = ((None, c, u, None), s')"
  shows "TokenValidation (Provider (Config s)) = ''Introspection''
    \<and> (\<exists>token t c. run_state (renewToken E (RefreshToken v)) s = (Ok token, t)
        \<and> run_state (introspectToken E (Tok_AccessToken token)) t = (Ok (False, c), s'))"
proof -
  obtain r s1 where 1: "run_state (renewToken E (RefreshToken v)) s = (r, s1)"
    by (cases "run_state (renewToken E (RefreshToken v)) s")
  from assms 1 obtain t where t: "r = Ok t" by (cases r) (auto simp: renew_session_def)
  obtain x s2 where 2: "run_state (validateToken E (adopt_tokens t v)) s1 = (x, s2)"
    by (cases "run_state (validateToken E (adopt_tokens t v)) s1")
  obtain c' where x: "x = Ok (False, c')" "s2 = s'"
    using assms 1 2 t by (auto simp: renew_session_def Let_def split: sum.splits prod.splits if_splits)
  with validateToken_inactive 2 have i: "TokenValidation (Provider (Config s1)) = ''Introspection''" by blast
  moreover have "token_of (Provider (Config s1)) (adopt_tokens t v) = Ok (Tok_AccessToken t)"
    using i by (simp add: token_of_def adopt_tokens_def)
  ultimately have "run_state (introspectToken E (Tok_AccessToken t)) s1 = (Ok (False, c'), s')"
    using 2 x by (simp add: validateToken_def)
  moreover have "Config s1 = Config s" by (rule inner_Config [OF inner_renew 1])
  ultimately show ?thesis using 1 t i by auto
qed

lemma ticket_nil:
  assumes "run_state (validateSessionTicket E ticket) s = ((None, c, u, None), s')"
    and "readChunkedCookie (Req s) (getSessionCookieName (Config s)) = Ok ticket"
  shows "renewed_inactive E s s'"
proof -
  obtain t0 s0 where n: "run_state (outside (Now E)) s = (t0, s0)" by (cases "run_state (outside (Now E)) s")
  then have t0: "t0 = fst (Now E (World s))" by (auto split: prod.splits)
  from assms n obtain v where v: "TryGetSession (Aead E) (JsonText E) (TimeText E) t0 (Config s) ticket = Ok v"
    by (cases "TryGetSession (Aead E) (JsonText E) (TimeText E) t0 (Config s) ticket")
      (auto simp: validateSessionTicket_def simp del: run_outside)
  obtain b s1 where b: "run_state (checkSessionBounds E v) s0 = (b, s1)" by (cases "run_state (checkSessionBounds E v) s0")
  from assms n v b have bN: "b = None" by (cases b) (auto simp: validateSessionTicket_def simp del: run_outside)
  obtain r s2 where r: "run_state (validateToken E v) s1 = (r, s2)" by (cases "run_state (validateToken E v) s1")
  let ?soon = "case r of Inr (True, _) \<Rightarrow> checkIdpTokenExpiresSoon E v | _ \<Rightarrow> return False"
  obtain soon s3 where q: "run_state ?soon s2 = (soon, s3)" by (cases "run_state ?soon s2")
  have "moves E ?soon" by (auto split: sum.splits bool.splits prod.splits intro: moving)
  from reaches_trans [OF moves_run [OF this q] reaches_trans [OF moves_run [OF moves_validateToken r]
        reaches_trans [OF moves_run [OF moves_checkSessionBounds b] moves_run [OF moves_outside(1) n]]]]
  have m: "reaches E s s3" .
  have "RefreshToken v \<noteq> [] \<and> run_state (renew_session E v) s3 = ((None, c, u, None), s')"
    using assms n v b bN r q
    by (auto simp: validateSessionTicket_def simp del: run_outside split: sum.splits prod.splits if_splits)
  with renew_session_nil [of E v s3 c u s'] reaches_same(1) [OF m] m v assms(2) t0 show ?thesis
    unfolding renewed_inactive_def by auto
qed

lemma session_nil:
  assumes "run_state (getSessionForRequest E) s = ((None, c, u, None), s')"
  shows "renewed_inactive E s s'"
proof -
  have x: "run_state (external_session E sid tok) s \<noteq> ((None, c, u, None), s')" for sid tok
    by (auto simp: external_session_def Let_def split: prod.splits sum.splits)
  with assms have "run_state (cookie_session E) s = ((None, c, u, None), s')"
    by (auto simp: getSessionForRequest_def split: option.splits)
  then obtain ticket where t: "readChunkedCookie (Req s) (getSessionCookieName (Config s)) = Ok ticket"
    "\<exists>c. run_state (validateSessionTicket E ticket) s = ((None, c, u, None), s')"
    by (auto simp: cookie_session_def split: sum.splits prod.splits if_splits option.splits)
  with ticket_nil show ?thesis by blast
qed

definition bypassed :: "'w env \<Rightarrow> request \<Rightarrow> bool" where
  "bypassed E req \<longleftrightarrow> (case BypassRule E of None \<Rightarrow> False | Some rule \<Rightarrow> rule req)"

text \<open>The lookup after a successful discovery gives neither a session nor an error.\<close>

definition nil_lookup :: "'w env \<Rightarrow> 'w toa \<Rightarrow> 'w toa \<Rightarrow> 'w toa \<Rightarrow> bool" where
  "nil_lookup E s s1 s2 \<longleftrightarrow>
     run_state (EnsureOidcDiscovery E) s = (None, s1) \<and> (\<exists>c u. run_state (getSessionForRequest E) s1 = ((None, c, u, None), s2))"

lemma anonymous_panics:
  "run_state (serve_anonymous E pub err) s = (Panicked, s') \<longleftrightarrow>
     \<not> pub \<and> \<not> pathMatchesConfiguredRoute (Req s) (FrontChannelLogoutUri (Config s)) \<and> err = None \<and> s' = s"
  by (auto simp: serve_anonymous_def split: prod.splits option.splits)

lemma authenticate_panics:
  "run_state (authenticate E pub) s = (Panicked, s') \<longleftrightarrow>
     \<not> pub \<and> \<not> pathMatchesConfiguredRoute (Req s) (FrontChannelLogoutUri (Config s))
     \<and> (\<exists>c u. run_state (getSessionForRequest E) s = ((None, c, u, None), s'))"
proof -
  obtain so c u err s2 where g: "run_state (getSessionForRequest E) s = ((so, c, u, err), s2)"
    by (metis prod.exhaust)
  have "reaches E s s2" by (rule moves_run [OF moves_getSessionForRequest g])
  note same = reaches_same(1,2) [OF this]
  show ?thesis
  proof (cases so)
    case None
    then have "run_state (authenticate E pub) s = run_state (serve_anonymous E pub err) s2" using g by (simp add: authenticate_def)
    with None g show ?thesis by (auto simp: anonymous_panics same)
  next
    case (Some sess)
    with getSession_origin(1) g have "err = None" by blast
    with g Some show ?thesis by (simp add: authenticate_def split: prod.split)
  qed
qed


text \<open>A session with a refresh token, and an identity provider whose introspection says no.\<close>

definition r1_session :: SessionState where
  "r1_session = s1_session\<lparr>RefreshToken := ''r''\<rparr>"

definition inactive_env :: "unit env" where
  "inactive_env = session_env\<lparr>
     Do := (\<lambda>r w. (Ok \<lparr>StatusCode = 200, RespHeader = (\<lambda>_. []),
       Body = (if OutUrl r = ''https://idp/token'' then ''T'' else ''A''), BodyErr = None\<rparr>, w)),
     JsonText := \<lparr>json_print = (\<lambda>_. []), json_parse = (\<lambda>s. if s = ''A'' then Some (JObj [(''active'', JBool False)])
       else if s = ''T'' then Some (JObj [(''access_token'', JStr ''new'')])
       else if s = ''S'' then Some (JObj (session_pairs ''t'' ''t'' ''t'' r1_session)) else None), json_first = (\<lambda>_. None)\<rparr>\<rparr>"

definition inactive_toa :: "string \<Rightarrow> unit toa" where
  "inactive_toa ticket = cookie_toa\<lparr>Config := (Config cookie_toa)\<lparr>MaxSessionLifetimeSeconds := 0, SessionIdleTimeoutSeconds := 0\<rparr>,
     Req := request_with [(''TraefikOidcAuth.Session'', ticket)] html_request\<rparr>"

lemma inactive_config:
  "Secret (Config (inactive_toa c)) = DefaultSecret" "TokenValidation (Provider (Config (inactive_toa c))) = ''Introspection''"
  "getSessionCookieName (Config (inactive_toa c)) = ''TraefikOidcAuth.Session''"
  "AuthorizationHeader (Config (inactive_toa c)) = None" "AuthorizationCookie (Config (inactive_toa c)) = Some []"
  "MaxSessionLifetimeSeconds (Config (inactive_toa c)) = 0" "SessionIdleTimeoutSeconds (Config (inactive_toa c)) = 0"
  "LoginUri (Config (inactive_toa c)) = []" "FrontChannelLogoutUri (Config (inactive_toa c)) = ''/frontchannel-logout''"
  "Path (CallbackURL (inactive_toa c)) = ''/oidc/callback''" "DiscoveryDocument (inactive_toa c) = Some sample_discovery"
  "Path (URL (Req (inactive_toa c))) = ''/''" "ClientJwtPrivateKey (inactive_toa c) = None"
  by (simp_all add: inactive_toa_def cookie_toa_def bearer_toa_def sample_toa_def migrateAuthBehaviors_def CreateConfig_def
      Let_def getSessionCookieName_def makeCookieName_def request_with_def html_request_def)

lemma r1_ticket:
  "\<exists>ticket. ticket \<noteq> [] \<and> list_all validCookieValueByte ticket \<and> (\<forall>now cfg. Secret cfg = DefaultSecret \<longrightarrow>
     TryGetSession (Aead inactive_env) (JsonText inactive_env) (TimeText inactive_env) now cfg ticket = Ok r1_session)"
proof -
  have k: "aes_key_ok DefaultSecret" by (simp add: aes_key_ok_def DefaultSecret_def)
  obtain c where c: "EncryptWithPurpose ideal_aead (Some (replicate 12 CHR ''n'')) ''S'' DefaultSecret PurposeSession = Ok c"
    using EncryptWithPurpose_Ok [OF k] by blast
  have d: "DecryptWithPurpose ideal_aead c DefaultSecret PurposeSession = Ok ''S''"
    by (rule DecryptWithPurpose_Encrypt [OF ideal_aead_correct k _ c]) (simp add: NonceSize_def)
  then have ne: "c \<noteq> []" by (auto simp: DecryptWithPurpose_def)
  have f: "decode_fields (session_fields unary_time) (session_pairs ''t'' ''t'' ''t'' r1_session) zero_session = Some r1_session"
    by (rule decode_session_pairs) (simp_all add: unary_time_def r1_session_def s1_session_def zero_session_def int64_def)
  have b: "backfill_session now r1_session = r1_session" for now by (simp add: backfill_stamped r1_session_def s1_session_def)
  have "TryGetSession (Aead inactive_env) (JsonText inactive_env) (TimeText inactive_env) now cfg c = Ok r1_session"
    if "Secret cfg = DefaultSecret" for now cfg
    by (simp add: TryGetSession_def open_ticket_def that inactive_env_def session_env_def active_env_def dead_env_def d
        decode_struct_def f b)
  then show ?thesis using ne sealed_cookie_value [OF c] by (intro exI [of _ c]) simp
qed

lemmas inactive_simps = inactive_env_def session_env_def active_env_def dead_env_def sample_discovery_def

lemma inactive_assertion: "run_state (add_assertion inactive_env v) (inactive_toa c) = (Ok v, inactive_toa c)"
  by (simp add: add_assertion_def inactive_config)

lemma inactive_introspection:
  "run_state (introspectToken inactive_env tok) (inactive_toa c) = (Ok (False, [(''active'', JBool False)]), inactive_toa c)"
  by (simp add: introspectToken_def inactive_config inactive_assertion)
    (simp add: inactive_simps send_def read_json_def read_limited_def maxOidcResponseBody_def)

lemma inactive_token:
  "run_state (postFormToTokenEndpoint inactive_env v) (inactive_toa c) = (Ok (zero_token\<lparr>Tok_AccessToken := ''new''\<rparr>), inactive_toa c)"
  by (simp add: postFormToTokenEndpoint_def inactive_config)
    (simp add: inactive_simps send_def read_json_def read_limited_def maxOidcResponseBody_def decode_struct_def token_fields_def)

lemma inactive_validate: "Id v = ''s1'' \<Longrightarrow>
   run_state (validateToken inactive_env v) (inactive_toa c) = (Ok (False, [(''active'', JBool False)]), inactive_toa c)"
  by (simp add: validateToken_def token_of_def inactive_config inactive_introspection is_pseudo_def)

lemma inactive_renewal:
  "run_state (renew_session inactive_env r1_session) (inactive_toa c) = ((None, [], True, None), inactive_toa c)"
proof -
  have "run_state (renewToken inactive_env tok) (inactive_toa c) = (Ok (zero_token\<lparr>Tok_AccessToken := ''new''\<rparr>), inactive_toa c)" for tok
    by (simp add: renewToken_def Let_def inactive_assertion inactive_token)
  moreover have "Id (adopt_tokens t r1_session) = ''s1''" for t by (simp add: r1_session_def s1_session_def)
  ultimately show ?thesis by (simp add: renew_session_def Let_def inactive_validate)
qed

lemma inactive_session:
  "\<exists>c. run_state (getSessionForRequest inactive_env) (inactive_toa c) = ((None, [], True, None), inactive_toa c)"
proof -
  obtain c where c: "c \<noteq> []" "list_all validCookieValueByte c" and t: "TryGetSession (Aead inactive_env) (JsonText inactive_env)
      (TimeText inactive_env) now (Config (inactive_toa c)) c = Ok r1_session" for now
    using r1_ticket inactive_config(1) by metis
  have "isCookieNameValid ''TraefikOidcAuth.Session''" by (simp add: isCookieNameValid_def token_char_def)
  then have "carries (Req (inactive_toa c)) (map_of [(''TraefikOidcAuth.Session'', c)])"
    using c(2) request_with_carries [of "[(''TraefikOidcAuth.Session'', c)]"] by (simp add: inactive_toa_def)
  then have k: "readChunkedCookie (Req (inactive_toa c)) ''TraefikOidcAuth.Session'' = Ok c"
    by (simp add: readChunkedCookie_def getChunkedCookieCount_def carries_Cookie)
  have "run_state (outside (Now inactive_env)) (inactive_toa c) = (5, inactive_toa c)" by (simp add: inactive_simps)
  moreover have "run_state (checkSessionBounds inactive_env r1_session) (inactive_toa c) = (None, inactive_toa c)"
    by (simp add: checkSessionBounds_def bound_exceeded_def inactive_config)
  moreover have "RefreshToken r1_session = ''r''" "Id r1_session = ''s1''" by (simp_all add: r1_session_def s1_session_def)
  ultimately have "run_state (validateSessionTicket inactive_env c) (inactive_toa c) = ((None, [], True, None), inactive_toa c)"
    by (simp add: validateSessionTicket_def t inactive_validate inactive_renewal del: run_outside)
  with c(1) k show ?thesis
    by (intro exI [of _ c]) (simp add: getSessionForRequest_def external_header_def external_cookie_def cookie_session_def inactive_config)
qed


section \<open>What reaches the upstream\<close>

text \<open>
  What the upstream may see of a request with a session: the cleaned request, with changes
  in configured headers only, and in those that are included on this kind of request.
\<close>

definition upstream_view :: "Config \<Rightarrow> request \<Rightarrow> bool \<Rightarrow> bool \<Rightarrow> request \<Rightarrow> bool" where
  "upstream_view cfg req isPublic authorized r \<longleftrightarrow>
     r = (sanitizeForUpstream cfg req)\<lparr>Header := Header r\<rparr>
     \<and> (\<forall>k. (\<forall>hc \<in> set (Headers cfg). attachable isPublic authorized hc \<longrightarrow> k \<noteq> CanonicalHeaderKey (Header_Name hc)) \<longrightarrow>
          Header r k = Header (sanitizeForUpstream cfg req) k)"

text \<open>
  A session under which the request of \<open>s\<close> may be served: after discovery the lookup gave it,
  a token validation made in this lookup accepted it, it is made of a configured token or of
  the sealed cookie, and it is authorized.
\<close>

definition admitted :: "'w env \<Rightarrow> 'w toa \<Rightarrow> SessionState \<Rightarrow> claims \<Rightarrow> bool" where
  "admitted E s sess c \<longleftrightarrow>
     (\<exists>s1 u s2. run_state (EnsureOidcDiscovery E) s = (None, s1)
        \<and> run_state (getSessionForRequest E) s1 = ((Some sess, c, u, None), s2)
        \<and> validated E s1 s2 sess c \<and> session_origin E s1 s2 sess)
     \<and> (IsAuthorized (recheck E (Config s) sess c) \<or> UnauthorizedBehavior (Config s) = ''Forward'')"

lemma stays_keeps: "keeps Config m \<Longrightarrow> keeps Req m \<Longrightarrow> stays (serving cfg req) m"
  by (auto intro!: staysI simp: serving_def keeps_def)

lemma stays_inner: "inner m \<Longrightarrow> stays (serving cfg req) m"
  by (intro stays_keeps inner_keeps) simp_all

lemma adds_change_bind:
  assumes "\<And>s. I s \<Longrightarrow> J (f s) \<and> Rw (f s) = Rw s" "adds J A m"
  shows "adds I A (change f \<bind> (\<lambda>_. m))"
  unfolding adds_def
proof (intro allI impI)
  fix s :: "'a toa"
  assume "I s"
  from assms(1) [OF this] assms(2) show "\<exists>evs. Rw (snd (run_state (change f \<bind> (\<lambda>_. m)) s)) = Rw s @ evs \<and> list_all A evs"
    unfolding adds_def by (metis run_change run_state_bind split_conv)
qed

lemma adds_inner_bind: "inner m \<Longrightarrow> (\<And>x. adds (serving cfg req) A (k x)) \<Longrightarrow> adds (serving cfg req) A (m \<bind> k)"
  by (rule adds_bind) (auto intro: adds_appends inner_appends stays_inner)

lemma adds_sanitize:
  "adds (serving cfg (sanitizeForUpstream cfg req)) A m \<Longrightarrow> adds (serving cfg req) A (sanitize \<bind> (\<lambda>_. m))"
  unfolding sanitize_def by (rule adds_change_bind) (simp_all add: serving_def)

lemma adds_attach:
  "(\<And>ctx h e. attach_loop E ctx pub auth (Headers cfg) (Header req) = (h, e) \<Longrightarrow> adds (serving cfg (req\<lparr>Header := h\<rparr>)) A (k e)) \<Longrightarrow>
     adds (serving cfg req) A (attachHeaders E sess c pub auth \<bind> k)"
  unfolding attachHeaders_def Let_def State_Monad.bind_assoc
  by (intro adds_ask_serving) (simp split: prod.split, intro allI impI, rule adds_change_bind [rotated], blast, simp add: serving_def)

lemma adds_next: "A (EvForward req) \<Longrightarrow> adds (serving cfg req) A next_ServeHTTP"
  by (simp add: adds_def next_ServeHTTP_def serving_def)

lemma adds_forward: "A (EvForward (sanitizeForUpstream cfg req)) \<Longrightarrow> adds (serving cfg req) A forwardToUpstream"
  unfolding forwardToUpstream_def by (intro adds_sanitize adds_next)

lemma adds_silent: "(\<And>e. \<not> forwards e \<Longrightarrow> A e) \<Longrightarrow> appends (\<lambda>e. \<not> forwards e) m \<Longrightarrow> adds I A m"
  by (rule adds_appends) (rule appends_mono)

lemma stays_store: "stays (serving cfg req) (store_if_due E sess upd)"
  unfolding store_if_due_def storeSessionAndAttachCookie_def mark_def sessionStoreDue_def sessionIdleRefreshDue_def
    sessionLifetimeStampDue_def http_Error_def
  by (intro stays_keeps frame; simp)

lemma upstream_viewI:
  assumes "attach_loop E ctx pub auth (Headers cfg) (Header (sanitizeForUpstream cfg req)) = (h, e)"
  shows "upstream_view cfg req pub auth ((sanitizeForUpstream cfg req)\<lparr>Header := h\<rparr>)"
  using attach_loop_other [of "Headers cfg" pub auth _ E ctx "Header (sanitizeForUpstream cfg req)"] assms
  by (simp add: upstream_view_def)

lemma quiet_store [hoare]: "appends (\<lambda>e. \<not> forwards e) (store_if_due E sess upd)"
  unfolding store_if_due_def storeSessionAndAttachCookie_def by (intro hoare) simp_all

lemma quiet_logouts [hoare]:
  "appends (\<lambda>e. \<not> forwards e) (handleLogout E sess)" "appends (\<lambda>e. \<not> forwards e) (handleFrontchannelLogout E sess c)"
  unfolding handleLogout_def handleFrontchannelLogout_def clear_session_cookie_def by (intro hoare; simp)+

lemma adds_forward_session:
  assumes quiet: "\<And>e. \<not> forwards e \<Longrightarrow> A e"
    and fwd: "\<And>r. upstream_view cfg req pub (IsAuthorized sess) r \<Longrightarrow> A (EvForward r)"
  shows "adds (serving cfg req) A (forward_session E pub sess c upd)"
  unfolding forward_session_def
proof (intro adds_sanitize adds_attach adds_branch)
  fix ctx h e
  assume "attach_loop E ctx pub (IsAuthorized sess) (Headers cfg) (Header (sanitizeForUpstream cfg req)) = (h, e)"
  note view = fwd [OF upstream_viewI [OF this]]
  show "adds (serving cfg ((sanitizeForUpstream cfg req)\<lparr>Header := h\<rparr>)) A
      (do { ok \<leftarrow> store_if_due E sess upd; if ok then next_ServeHTTP else return () })"
    using view by (intro adds_bind adds_silent [OF quiet] quiet_store stays_store adds_branch adds_next hoare)
next
  show "adds (serving cfg ((sanitizeForUpstream cfg req)\<lparr>Header := h\<rparr>)) A unavailable" for h
    by (intro adds_silent [OF quiet] hoare)
qed

lemma no_forward_override: "o' \<noteq> [] \<Longrightarrow> appends (\<lambda>e. \<not> forwards e) (handleUnauthorized E sess o')"
  unfolding handleUnauthorized_def by (intro hoare) simp_all

lemma adds_handleUnauthorized:
  assumes "\<And>e. \<not> forwards e \<Longrightarrow> A e" "UnauthorizedBehavior cfg \<noteq> ''Forward''"
  shows "adds (serving cfg req) A (handleUnauthorized E sess o')"
  unfolding handleUnauthorized_def
  using assms by (intro adds_ask_serving adds_branch) (auto intro: adds_silent hoare)

lemma adds_handleUnauthenticated:
  assumes quiet: "\<And>e. \<not> forwards e \<Longrightarrow> A e"
    and fwd: "UnauthenticatedBehavior cfg = ''Forward'' \<Longrightarrow> A (EvForward (sanitizeForUpstream cfg req))"
  shows "adds (serving cfg req) A (handleUnauthenticated E)"
  unfolding handleUnauthenticated_def
  by (intro adds_ask_serving adds_branch adds_forward fwd) (auto intro: adds_silent [OF quiet] hoare)

lemma adds_serve_session:
  assumes quiet: "\<And>e. \<not> forwards e \<Longrightarrow> A e"
    and fwd: "\<And>r. IsAuthorized (recheck E cfg sess c) \<or> UnauthorizedBehavior cfg = ''Forward'' \<Longrightarrow>
      upstream_view cfg req pub (IsAuthorized (recheck E cfg sess c)) r \<Longrightarrow> A (EvForward r)"
  shows "adds (serving cfg req) A (serve_session E pub sess c upd)"
  unfolding serve_session_def Let_def
  by (intro adds_ask_serving adds_branch adds_silent [OF quiet] quiet_logouts adds_handleUnauthorized adds_forward_session quiet fwd)
    auto

lemma quiet_clear [hoare]: "appends (\<lambda>e. \<not> forwards e) (clear_session_cookie E)"
  by (rule quiet_clear_session) simp

lemma stays_clear: "stays (serving cfg req) (clear_session_cookie E)"
  unfolding clear_session_cookie_def by (intro stays_keeps frame; simp)

text \<open>Without a session a request is handed on for two reasons only, and as the cleaned request.\<close>

lemma adds_serve_anonymous:
  assumes quiet: "\<And>e. \<not> forwards e \<Longrightarrow> A e"
    and fwd: "pub \<or> UnauthenticatedBehavior cfg = ''Forward'' \<Longrightarrow> A (EvForward (sanitizeForUpstream cfg req))"
  shows "adds (serving cfg req) A (serve_anonymous E pub err)"
proof -
  have then_served: "adds (serving cfg req) A (do { m; return Served })" if "adds (serving cfg req) A m" for m :: "('a, unit) m"
    using that by (simp add: adds_def split: prod.split) (metis snd_conv)
  have "adds (serving cfg req) A (do { clear_session_cookie E; handleUnauthenticated E })"
    by (rule adds_bind [OF adds_silent [OF quiet quiet_clear] stays_clear adds_handleUnauthenticated [OF quiet]]) (auto intro: fwd)
  from then_served [OF this] fwd show ?thesis
    unfolding serve_anonymous_def
    by (intro adds_ask_serving adds_branch then_served adds_forward) (auto intro!: adds_silent [OF quiet] hoare then_served)
qed

lemma ensureAbsoluteUrl_nonempty: "ensureAbsoluteUrl E cfg req u \<noteq> []"
  by (auto simp: ensureAbsoluteUrl_def HasPrefix_def split: if_splits)

lemma post_login_target_nonempty: "post_login_target E cfg w req u = Ok v \<Longrightarrow> v \<noteq> []"
  using ensureAbsoluteUrl_nonempty by (auto simp: post_login_target_def split: if_splits sum.splits)

lemma no_forward_callback [hoare]: "appends (\<lambda>e. \<not> forwards e) (handleCallback E)"
proof -
  have fin: "appends (\<lambda>e. \<not> forwards e) (finish_login E st sess)" for st sess
    unfolding finish_login_def
    by (intro hoare no_forward_override)
      (auto dest: post_login_target_nonempty intro: sets_cookies_if sets_cookies_id cookie_writers)
  have val: "appends (\<lambda>e. \<not> forwards e) (validateCallbackToken E token st)" for token st
    unfolding validateCallbackToken_def by (intro hoare) simp_all
  have est: "appends (\<lambda>e. \<not> forwards e) (establishSession E token c st)" for token c st
    unfolding establishSession_def storeSessionAndAttachCookie_def Let_def by (intro hoare) simp_all
  have log: "appends (\<lambda>e. \<not> forwards e) (callback_login E st)" for st
    unfolding callback_login_def complete_login_def by (intro hoare fin val est) simp_all
  show ?thesis
    unfolding handleCallback_def callback_action_def by (intro hoare log) simp_all
qed

lemma adds_then_served: "adds I A m \<Longrightarrow> adds I A (do { m; return Served })"
  by (simp add: adds_def split: prod.split) (metis snd_conv)

lemma authenticate_events:
  assumes quiet: "\<And>e. \<not> forwards e \<Longrightarrow> A e"
    and plain: "pub \<or> UnauthenticatedBehavior (Config s) = ''Forward'' \<Longrightarrow>
      A (EvForward (sanitizeForUpstream (Config s) (Req s)))"
    and session: "\<And>sess c u s2 r. run_state (getSessionForRequest E) s = ((Some sess, c, u, None), s2) \<Longrightarrow>
      IsAuthorized (recheck E (Config s) sess c) \<or> UnauthorizedBehavior (Config s) = ''Forward'' \<Longrightarrow>
      upstream_view (Config s) (Req s) pub (IsAuthorized (recheck E (Config s) sess c)) r \<Longrightarrow> A (EvForward r)"
    and run: "run_state (authenticate E pub) s = (out, s')"
  shows "\<exists>evs. Rw s' = Rw s @ evs \<and> list_all A evs"
proof -
  obtain so c u err s2 where g: "run_state (getSessionForRequest E) s = ((so, c, u, err), s2)"
    by (metis prod.exhaust)
  have "reaches E s s2" by (rule moves_run [OF moves_getSessionForRequest g])
  note same = reaches_same(1-3) [OF this]
  have I: "serving (Config s) (Req s) s2" by (simp add: serving_def same)
  show ?thesis
  proof (cases so)
    case None
    then have a: "run_state (serve_anonymous E pub err) s2 = (out, s')" using g run by (simp add: authenticate_def)
    have "adds (serving (Config s) (Req s)) A (serve_anonymous E pub err)"
      by (rule adds_serve_anonymous) (auto intro: quiet plain)
    from adds_run [OF this I a] show ?thesis by (metis same(3))
  next
    case (Some sess)
    with getSession_origin(1) g have err: "err = None" by blast
    have a: "adds (serving (Config s) (Req s)) A (serve_session E pub sess c u)"
      using g Some err by (intro adds_serve_session quiet session) simp_all
    have "run_state (serve_session E pub sess c u) s2 = ((), s')"
      using run g Some err by (auto simp: authenticate_def split: prod.splits)
    from adds_run [OF a I this] show ?thesis by (metis same(3))
  qed
qed

lemma effective_views:
  "sanitizeForUpstream (cfg\<lparr>Provider := p\<rparr>) req = sanitizeForUpstream cfg req"
  "recheck E (cfg\<lparr>Provider := p\<rparr>) sess c = recheck E cfg sess c"
  "upstream_view (cfg\<lparr>Provider := p\<rparr>) req pub auth r = upstream_view cfg req pub auth r"
  by (simp_all add: sanitizeForUpstream_def recheck_def upstream_view_def)

lemma forwards_only:
  assumes "run_state (ServeHTTP E) s = (out, s')" "Rw s = []" "EvForward r \<in> set (Rw s')"
  shows "r = sanitizeForUpstream (Config s) (Req s)
        \<and> (bypassed E (Req s) \<or> UnauthenticatedBehavior (Config s) = ''Forward'')
    \<or> (\<exists>sess c. admitted E s sess c
        \<and> upstream_view (Config s) (Req s) (bypassed E (Req s)) (IsAuthorized (recheck E (Config s) sess c)) r)"
    (is "?plain r \<or> ?session r")
proof -
  define A where "A = (\<lambda>e. \<forall>r. e = EvForward r \<longrightarrow> ?plain r \<or> ?session r)"
  have quiet: "A e" if "\<not> forwards e" for e using that by (auto simp: A_def)
  let ?pub = "bypassed E (Req s)"
  obtain e s1 where d: "run_state (EnsureOidcDiscovery E) s = (e, s1)" by (cases "run_state (EnsureOidcDiscovery E) s")
  obtain iss aud where f: "Req s1 = Req s" "Rw s1 = Rw s"
    "Config s1 = (Config s)\<lparr>Provider := (Provider (Config s))\<lparr>ValidIssuer := iss, ValidAudience := aud\<rparr>\<rparr>"
    by (rule discovery_frame [OF d])
  have run: "\<exists>evs. Rw s2 = Rw s0 @ evs \<and> list_all A evs"
    if "adds (serving (Config s0) (Req s0)) A m" "run_state m s0 = (x, s2)"
    for m :: "('a, 'b) m" and s0 x s2
    using adds_run [OF that(1) _ that(2)] by (force simp: serving_def)
  have silent: "\<exists>evs. Rw s2 = Rw s0 @ evs \<and> list_all A evs"
    if "run_state m s0 = (x, s2)" "appends (\<lambda>e. \<not> forwards e) m" for m :: "('a, 'b) m" and s0 x s2
    by (rule run [OF adds_silent [OF quiet that(2)] that(1)])
  consider (login) "run_state (case e of Some err \<Rightarrow> unavailable | None \<Rightarrow> handleCallback E) s1 = ((), s')"
    | (err) "run_state unavailable s1 = ((), s')"
    | (route) "run_state (handleLogin E False []) s1 = ((), s')"
    | (public) ?pub "run_state forwardToUpstream s = ((), s')"
    | (auth) "e = None" "run_state (authenticate E ?pub) s1 = (out, s')"
    using assms(1) d by (auto simp: ServeHTTP_def Let_def bypassed_def [symmetric] split: if_splits option.splits prod.splits)
  then have "\<exists>evs. Rw s' = Rw s1 @ evs \<and> list_all A evs"
  proof cases
    case login
    then show ?thesis by (rule silent) (intro hoare)
  next
    case err
    then show ?thesis by (rule silent) (intro hoare)
  next
    case route
    then show ?thesis by (rule silent) (intro hoare)
  next
    case public
    have "adds (serving (Config s) (Req s)) A forwardToUpstream"
      using public(1) by (intro adds_forward) (simp add: A_def)
    from run [OF this public(2)] f show ?thesis by simp
  next
    case auth
    show ?thesis
    proof (rule authenticate_events [OF quiet _ _ auth(2)])
      assume "?pub \<or> UnauthenticatedBehavior (Config s1) = ''Forward''"
      then show "A (EvForward (sanitizeForUpstream (Config s1) (Req s1)))"
        by (auto simp: A_def f effective_views)
    next
      fix sess c u s2 r
      assume g: "run_state (getSessionForRequest E) s1 = ((Some sess, c, u, None), s2)"
        and ok: "IsAuthorized (recheck E (Config s1) sess c) \<or> UnauthorizedBehavior (Config s1) = ''Forward''"
        and v: "upstream_view (Config s1) (Req s1) ?pub (IsAuthorized (recheck E (Config s1) sess c)) r"
      have "admitted E s sess c"
        unfolding admitted_def using d auth(1) g getSession_origin(2,3) [OF g] ok by (auto simp: f effective_views)
      with v show "A (EvForward r)" unfolding A_def by (auto simp: f effective_views)
    qed
  qed
  with assms(2,3) f show ?thesis by (auto simp: A_def list_all_iff)
qed

text \<open>
  C1. Nothing reaches the upstream unchecked. The request that is handed on is either the
  cleaned one, and then the bypass rule matches or unauthenticated requests are to be
  forwarded; or it belongs to a session that this request's lookup gave, after discovery, that
  a token validation run in that lookup (with the configuration and the keys the instance
  then had) accepted, that is made of a configured token or of the sealed cookie, and that is
  authorized (or unauthorized requests are to be forwarded). Then it differs from the cleaned request only
  in configured headers that are included on this kind of request.
\<close>

theorem ServeHTTP_forwards_only:
  assumes "run_state (ServeHTTP E) s = (out, s')" "Rw s = []" "EvForward r \<in> set (Rw s')"
  shows "r = sanitizeForUpstream (Config s) (Req s)
        \<and> (bypassed E (Req s) \<or> UnauthenticatedBehavior (Config s) = ''Forward'')
    \<or> (\<exists>sess c. admitted E s sess c
        \<and> upstream_view (Config s) (Req s) (bypassed E (Req s)) (IsAuthorized (recheck E (Config s) sess c)) r)"
  using assms by (rule forwards_only)

lemma bearer_config:
  "UnauthenticatedBehavior (Config bearer_toa) = ''Auto''" "LoginUri (Config bearer_toa) = []" "LogoutUri (Config bearer_toa) = ''/logout''"
  "FrontChannelLogoutUri (Config bearer_toa) = ''/frontchannel-logout''" "Headers (Config bearer_toa) = []"
  "AssertClaims (Authorization (Config bearer_toa)) = []" "Path (CallbackURL bearer_toa) = ''/oidc/callback''"
  "DiscoveryDocument bearer_toa = Some sample_discovery" "Path (URL (Req bearer_toa)) = ''/''" "Rw bearer_toa = []"
  by (simp_all add: bearer_toa_def sample_toa_def migrateAuthBehaviors_def CreateConfig_def Let_def html_request_def)

definition bearer_state :: SessionState where
  "bearer_state = zero_session\<lparr>Id := ''AuthorizationHeader'', AccessToken := ''tok''\<rparr>"

lemma bearer_forwarded:
  "\<exists>s' r. run_state (ServeHTTP active_env) bearer_toa = (Served, s') \<and> Rw s' = [EvForward r]"
proof -
  have g: "run_state (getSessionForRequest active_env) bearer_toa = ((Some bearer_state, [(''active'', JBool True)], False, None), bearer_toa)"
    using bearer_session by (simp add: bearer_state_def)
  have id: "is_pseudo (Id (sess\<lparr>IsAuthorized := b\<rparr>))" if "sess = bearer_state" for sess b
    by (simp add: that bearer_state_def is_pseudo_def)
  have au: "recheck active_env (Config bearer_toa) bearer_state c = bearer_state\<lparr>IsAuthorized := True\<rparr>" for c
    by (simp add: recheck_def bearer_state_def is_pseudo_def isAuthorized_def bearer_config)
  have due: "run_state (store_if_due E (bearer_state\<lparr>IsAuthorized := True\<rparr>) False) s = (True, s)" for E and s :: "unit toa"
    using id [OF refl, of True] by (simp add: store_if_due_def sessionStoreDue_def sessionIdleRefreshDue_def sessionLifetimeStampDue_def)
  have p: "\<not> isCallbackRequest active_env (Config bearer_toa) (CallbackURL bearer_toa) (Req bearer_toa)"
    "\<not> pathMatchesConfiguredRoute (Req bearer_toa) []"
    "\<not> pathMatchesConfiguredRoute (Req bearer_toa) ''/frontchannel-logout''"
    "\<not> pathMatchesConfiguredRoute (Req bearer_toa) ''/logout''"
    by (simp_all add: isCallbackRequest_def pathMatchesConfiguredRoute_def pathMatchesRoute_def bearer_config TrimSuffix_def
        HasSuffix_def HasPrefix_def)
  have b: "BypassRule active_env = None" by (simp add: active_env_def dead_env_def)
  show ?thesis
    by (simp add: ServeHTTP_def Let_def b p bearer_config EnsureOidcDiscovery_def authenticate_def g serve_session_def au
        forward_session_def sanitize_def attachHeaders_def due next_ServeHTTP_def)
qed

theorem ServeHTTP_forwards_only_witness:
  "\<exists>s' r sess c. run_state (ServeHTTP active_env) bearer_toa = (Served, s') \<and> Rw s' = [EvForward r]
     \<and> admitted active_env bearer_toa sess c"
proof -
  obtain s' r where s: "run_state (ServeHTTP active_env) bearer_toa = (Served, s')" "Rw s' = [EvForward r]"
    using bearer_forwarded by blast
  have "\<not> bypassed active_env (Req bearer_toa)" by (simp add: bypassed_def active_env_def dead_env_def)
  with ServeHTTP_forwards_only [OF s(1) bearer_config(10), of r] s bearer_config(1) show ?thesis by auto
qed

end
