(* ===== verification/Callback.thy ===== *)
theory Callback
  imports Dispatch
begin

text \<open>
  The callback, front-channel logout and the session cookie of \<open>src/main.go\<close>: what has to
  have happened before a session cookie is set, what a logout notification has to prove, and
  that a stored session comes back with the next request.
\<close>

section \<open>When the callback sets a session\<close>

definition sets_session :: "Config \<Rightarrow> rw_event \<Rightarrow> bool" where
  "sets_session cfg e \<longleftrightarrow> (\<exists>c. e = EvSetCookie c \<and> Value c \<noteq> [] \<and> HasPrefix (Name c) (getSessionCookieName cfg))"

text \<open>
  Everything that has to have succeeded before a session exists, as the run of the callback on
  \<open>s\<close>: \<open>csrf_cleared\<close> is the state after the clock was read for the state's expiry and again for
  clearing the CSRF cookie; there the code is exchanged, then the token is validated, and
  after a challenge the clock is read once more for the age of the authentication.
\<close>

definition csrf_cleared :: "'w env \<Rightarrow> 'w toa \<Rightarrow> OidcState \<Rightarrow> 'w toa" where
  "csrf_cleared E s state =
     (let r = Now E (snd (Now E (World s)))
      in s\<lparr>World := snd r, Rw := clearLoginCsrfCookie (fst r) (Config s) (Rw s) (CallbackURL s) (Csrf state)\<rparr>)"

definition login_completed :: "'w env \<Rightarrow> 'w toa \<Rightarrow> OidcState \<Rightarrow> bool" where
  "login_completed E s state \<longleftrightarrow>
     Action state = ''Login'' \<and> validateLoginCsrf (Config s) (Req s) (Csrf state) = None \<and> Query_Get (Req s) ''code'' \<noteq> []
     \<and> (\<exists>token t c t'. run_state (exchangeAuthCode E (Query_Get (Req s) ''code'') (CodeVerifierEnc state)) (csrf_cleared E s state)
            = (Ok token, t)
          \<and> run_state (validateCallbackToken E token state) t = (Ok c, t')
          \<and> (IsChallenge state \<longrightarrow> authTimeIsFresh E (Config s) c (fst (Now E (World t')))))"

lemma not_cookie_not_session: "\<forall>c. e \<noteq> EvSetCookie c \<Longrightarrow> \<not> sets_session cfg e"
  by (simp add: sets_session_def)

lemma no_session_value: "Value c = [] \<Longrightarrow> \<not> sets_session cfg (EvSetCookie c)"
  by (simp add: sets_session_def)

lemma no_session_csrf: "Name c = getLoginCsrfCookieName cfg csrf \<Longrightarrow> \<not> sets_session cfg (EvSetCookie c)"
  by (simp add: sets_session_def getLoginCsrfCookieName_def getSessionCookieName_def makeCookieName_def HasPrefix_def)

lemma no_session_events [simp]:
  "\<not> sets_session cfg (EvError msg code)" "\<not> sets_session cfg (EvRedirect u code)" "\<not> sets_session cfg (EvSetHeader k v)"
  "\<not> sets_session cfg (EvPage n h)" "\<not> sets_session cfg (EvProblem n a b d)"
  by (simp_all add: sets_session_def)

lemma no_session_pages [hoare]:
  "appends (\<lambda>e. \<not> sets_session cfg e) (WriteError E page d)"
  "appends (\<lambda>e. \<not> sets_session cfg e) (writeUnauthorizedError E)" "appends (\<lambda>e. \<not> sets_session cfg e) unavailable"
  "appends (\<lambda>e. \<not> sets_session cfg e) (seal_and_redirect E u v st)"
  "appends (\<lambda>e. \<not> sets_session cfg e) (clear_session_cookie E)"
proof -
  show w: "appends (\<lambda>e. \<not> sets_session cfg e) (WriteError E page d)" for page d
    unfolding WriteError_def by (intro hoare emit_events) simp_all
  show u: "appends (\<lambda>e. \<not> sets_session cfg e) unavailable"
    unfolding unavailable_def internalError_def by (intro hoare) simp
  show "appends (\<lambda>e. \<not> sets_session cfg e) (writeUnauthorizedError E)"
    unfolding writeUnauthorizedError_def by (intro hoare w)
  show "appends (\<lambda>e. \<not> sets_session cfg e) (seal_and_redirect E u v st)" for u v st
    unfolding seal_and_redirect_def by (intro hoare u) simp
  show "appends (\<lambda>e. \<not> sets_session cfg e) (clear_session_cookie E)"
    by (rule quiet_clear_session) (rule no_session_value)
qed

lemma adds_emit_bind:
  "appends A (emit f :: ('w, unit) m) \<Longrightarrow> adds (serving cfg req) A (m :: ('w, 'a) m) \<Longrightarrow>
     adds (serving cfg req) A (emit f \<bind> (\<lambda>_. m))"
  by (rule adds_bind) (simp_all add: adds_appends stays_simple)

lemma adds_redirectToProvider:
  "adds (serving cfg req) (\<lambda>e. \<not> sets_session cfg e) (redirectToProvider E r ch)"
proof -
  have q: "adds (serving cfg req) (\<lambda>e. \<not> sets_session cfg e) unavailable"
    "adds (serving cfg req) (\<lambda>e. \<not> sets_session cfg e) (seal_and_redirect E u v st)" for u v st
    by (intro adds_appends hoare)+
  have c1: "appends (\<lambda>e. \<not> sets_session cfg e) (emit (\<lambda>rw. setLoginCsrfCookie cfg rw cb csrf))" for cb csrf
    by (rule appends_cookies [OF sets_cookies_csrf(1)]) (rule no_session_csrf)
  have c2: "appends (\<lambda>e. \<not> sets_session cfg e) (emit (\<lambda>rw. clearLegacyCodeVerifierCookies now cfg rw req' cb))" for now req' cb
    by (rule appends_cookies [OF sets_cookies_legacy]) (rule no_session_value)
  have p: "inner (add_pkce E v st)" for v st
    unfolding add_pkce_def by (intro inners)
  show ?thesis
    unfolding redirectToProvider_def Let_def
    by (intro adds_ask_serving adds_ask adds_inner_bind inner_random adds_branch adds_emit_bind c1 c2 q p adds_outside_bind)
      (auto split: prod.split intro!: adds_outside_bind adds_emit_bind c2 q)
qed

lemma any_events:
  "appends (\<lambda>_. True) (WriteError E page d)" "appends (\<lambda>_. True) (establishSession E token c st)"
  "appends (\<lambda>_. True) (finish_login E st sess)" "appends (\<lambda>_. True) (validateCallbackToken E token st)"
proof -
  have r: "appends (\<lambda>_. True) (redirectToProvider E r ch)" "appends (\<lambda>_. True) (doubleRedirectToProvider E r ch)" for r ch
    unfolding redirectToProvider_def doubleRedirectToProvider_def seal_and_redirect_def unavailable_def internalError_def
    by (intro hoare TrueI; simp)+
  show w: "appends (\<lambda>_. True) (WriteError E page d)" for page d
    unfolding WriteError_def by (intro hoare emit_events TrueI) simp_all
  show "appends (\<lambda>_. True) (establishSession E token c st)"
    unfolding establishSession_def storeSessionAndAttachCookie_def Let_def by (intro hoare TrueI)
  show "appends (\<lambda>_. True) (validateCallbackToken E token st)"
    unfolding validateCallbackToken_def by (intro hoare TrueI)
  show "appends (\<lambda>_. True) (finish_login E st sess)"
    unfolding finish_login_def handleUnauthorized_def handleLogin_def writeUnauthorizedError_def forwardToUpstream_def
      next_ServeHTTP_def sanitize_def
    by (intro hoare w r sets_cookies_if sets_cookies_id emit_events TrueI; simp)
qed

lemma no_session_validate: "appends (\<lambda>e. \<not> sets_session cfg e) (validateCallbackToken E token st)"
  unfolding validateCallbackToken_def by (intro hoare) simp_all

lemma stays_validate: "stays (serving cfg req) (validateCallbackToken E token st)"
proof -
  have "keeps Config m" "keeps Req m" if "inner m" for m :: "('a, 'b) m" using that by (simp_all add: inner_keeps)
  note i = this
  show ?thesis
    unfolding validateCallbackToken_def http_Error_def
    by (intro stays_keeps frame i inners) simp_all
qed

text \<open>Between two states no session cookie was set.\<close>

definition quiet_between :: "Config \<Rightarrow> 'w toa \<Rightarrow> 'w toa \<Rightarrow> bool" where
  "quiet_between cfg s s' \<longleftrightarrow> (\<exists>evs. Rw s' = Rw s @ evs \<and> list_all (\<lambda>e. \<not> sets_session cfg e) evs)"

lemma quiet_refl [simp]: "quiet_between cfg s s"
  by (simp add: quiet_between_def)

lemma quiet_trans: "quiet_between cfg s t \<Longrightarrow> quiet_between cfg t u \<Longrightarrow> quiet_between cfg s u"
  unfolding quiet_between_def by (metis append.assoc list_all_append)

lemma quiet_run: "appends (\<lambda>e. \<not> sets_session cfg e) m \<Longrightarrow> run_state m s = (x, s') \<Longrightarrow> quiet_between cfg s s'"
  unfolding appends_def quiet_between_def by (metis snd_conv)

lemma quiet_inner: "inner m \<Longrightarrow> run_state m s = (x, s') \<Longrightarrow> quiet_between cfg s s'"
  by (rule quiet_run [OF inner_appends])

lemma complete_login_cases:
  assumes run: "run_state (complete_login E st token) s = (r, s')"
  shows "quiet_between cfg s s' \<or> (\<exists>c t. run_state (validateCallbackToken E token st) s = (Ok c, t)
      \<and> (IsChallenge st \<longrightarrow> authTimeIsFresh E (Config s) c (fst (Now E (World t)))))"
proof -
  obtain x t where v: "run_state (validateCallbackToken E token st) s = (x, t)"
    by (cases "run_state (validateCallbackToken E token st) s")
  have q: "quiet_between cfg s t" by (rule quiet_run [OF no_session_validate v])
  show ?thesis
  proof (cases x)
    case (Inl e)
    with run v q show ?thesis by (simp add: complete_login_def)
  next
    case (Inr c)
    obtain stale u where st: "run_state (step_up_fails E st c) t = (stale, u)" by (cases "run_state (step_up_fails E st c) t")
    have "inner (step_up_fails E st c)" unfolding step_up_fails_def by (intro inners)
    from quiet_trans [OF q quiet_inner [OF this st]] have q2: "quiet_between cfg s u" .
    have cfg: "Config t = Config s"
      using stays_run [OF stays_validate [of "Config s" "Req s"] _ v] by (simp add: serving_def)
    show ?thesis
    proof (cases stale)
      case True
      with run v Inr st have "run_state (writeUnauthorizedError E) u = ((), s')" by (simp add: complete_login_def split: prod.splits)
      from quiet_trans [OF q2 quiet_run [OF no_session_pages(2) this]] show ?thesis ..
    next
      case False
      with st cfg have "IsChallenge st \<longrightarrow> authTimeIsFresh E (Config s) c (fst (Now E (World t)))"
        by (auto simp: step_up_fails_def split: prod.splits)
      with v Inr show ?thesis by blast
    qed
  qed
qed

lemma callback_login_cases:
  assumes run: "run_state (callback_login E st) (s\<lparr>World := snd (Now E (World s))\<rparr>) = (r, s')" and "Action st = ''Login''"
  shows "quiet_between (Config s) s s' \<or> login_completed E s st"
proof -
  let ?t = "csrf_cleared E s st"
  have t: "Config ?t = Config s" "Req ?t = Req s" by (simp_all add: csrf_cleared_def Let_def)
  have "appends (\<lambda>e. \<not> sets_session (Config s) e) (emit (\<lambda>rw. clearLoginCsrfCookie now (Config s) rw cb csrf) :: ('a, unit) m)"
    for now cb csrf by (rule appends_cookies [OF sets_cookies_csrf(2)]) (rule no_session_value)
  from quiet_run [OF this, where s = s] have q: "quiet_between (Config s) s ?t"
    by (auto simp: quiet_between_def csrf_cleared_def Let_def)
  let ?code = "Query_Get (Req s) ''code''"
  let ?rest = "if validateLoginCsrf (Config s) (Req s) (Csrf st) \<noteq> None
      then do { http_Error ''Invalid login state'' 403; return None }
      else if ?code = [] then do { http_Error ''Code is missing'' 400; return None }
      else do {
        t \<leftarrow> exchangeAuthCode E ?code (CodeVerifierEnc st);
        case t of
          Inl e \<Rightarrow> do { http_Error ''Failed to exchange auth code'' 500; return None }
        | Inr token \<Rightarrow> complete_login E st token }"
  have "run_state (callback_login E st) (s\<lparr>World := snd (Now E (World s))\<rparr>) = run_state ?rest ?t"
    by (simp add: callback_login_def csrf_cleared_def Let_def case_prod_beta)
  with run have rest: "run_state ?rest ?t = (r, s')" by simp
  show ?thesis
  proof (cases "validateLoginCsrf (Config s) (Req s) (Csrf st) = None \<and> ?code \<noteq> []")
    case False
    with rest have "quiet_between (Config s) ?t s'" by (auto simp: quiet_between_def split: if_splits)
    with q quiet_trans show ?thesis by blast
  next
    case True
    obtain x u where x: "run_state (exchangeAuthCode E ?code (CodeVerifierEnc st)) ?t = (x, u)"
      by (cases "run_state (exchangeAuthCode E ?code (CodeVerifierEnc st)) ?t")
    have q2: "quiet_between (Config s) s u" by (rule quiet_trans [OF q quiet_inner [OF inner_exchange x]])
    have cfg: "Config u = Config s" using inner_Config [OF inner_exchange x] t by simp
    show ?thesis
    proof (cases x)
      case (Inl e)
      with rest True x have "quiet_between (Config s) u s'" by (auto simp: quiet_between_def)
      with q2 quiet_trans show ?thesis by blast
    next
      case (Inr token)
      with rest True x have "run_state (complete_login E st token) u = (r, s')" by simp
      from complete_login_cases [OF this, of "Config s"] q2 quiet_trans show ?thesis
        using True x Inr assms(2) cfg unfolding login_completed_def by metis
    qed
  qed
qed

text \<open>
  C2. No session without a completed login: the callback sets a session cookie only when the
  sealed state opens and has not expired at the clock reading of this callback, is a login's
  and not a logout's and matches the browser's CSRF cookie, and then, one after the other, the
  request's code was exchanged for a token with the state's code verifier, that token was
  accepted, and after a step-up challenge the authentication was fresh at the clock reading
  that follows.
\<close>

theorem callback_session_gate:
  assumes "run_state (handleCallback E) s = ((), s')" "Rw s = []"
    and "EvSetCookie c \<in> set (Rw s')" "Value c \<noteq> []" "HasPrefix (Name c) (getSessionCookieName (Config s))"
  shows "\<exists>state. UnsealState (Aead E) (JsonText E) (TimeText E) (fst (Now E (World s))) (Query_Get (Req s) ''state'') (Secret (Config s))
      = Ok state
    \<and> login_completed E s state"
proof -
  let ?s = "s\<lparr>World := snd (Now E (World s))\<rparr>"
  let ?open = "UnsealState (Aead E) (JsonText E) (TimeText E) (fst (Now E (World s))) (Query_Get (Req s) ''state'') (Secret (Config s))"
  have loud: "\<not> quiet_between (Config s) s s'"
    using assms(2-5) by (auto simp: quiet_between_def sets_session_def list_all_iff)
  then obtain st where st: "?open = Ok st" and act: "run_state (callback_action E st) ?s = ((), s')"
    using assms(1) by (auto simp: handleCallback_def quiet_between_def case_prod_beta split: if_splits sum.splits)
  have same: "quiet_between (Config s) s u" if "quiet_between (Config s) ?s u" for u
    using that by (simp add: quiet_between_def)
  have provider: "quiet_between (Config s) s u" if "run_state (redirectToProvider E r ch) ?s = ((), u)" for r ch u
    using adds_run [OF adds_redirectToProvider [of "Config s" "Req s"] _ that] by (force simp: serving_def quiet_between_def)
  have clear: "appends (\<lambda>e. \<not> sets_session (Config s) e) (do { clear_session_cookie E; http_Redirect u 302 })" for u
    by (intro hoare) simp_all
  have login: "Action st = ''Login''"
  proof (rule ccontr)
    assume "Action st \<noteq> ''Login''"
    with act quiet_run [OF clear, THEN same] provider
    have "quiet_between (Config s) s s'"
      by (auto simp: callback_action_def quiet_between_def [of _ _ "_\<lparr>Rw := _\<rparr>"] simp del: run_state_bind split: if_splits)
    with loud show False by contradiction
  qed
  obtain r t where l: "run_state (callback_login E st) ?s = (r, t)" by (cases "run_state (callback_login E st) ?s")
  with act login have "quiet_between (Config s) t s'" by (auto simp: callback_action_def quiet_between_def split: option.splits)
  with loud quiet_trans have "\<not> quiet_between (Config s) s t" by blast
  with callback_login_cases [OF l login] st show ?thesis by blast
qed

text \<open>A callback that goes through: the state is the text \<open>L\<close>, the token is introspected.\<close>

definition login_state :: OidcState where
  "login_state = zero_state\<lparr>Action := ''Login'', Csrf := ''c0'', StateType := stateTypeTag\<rparr>"

definition callback_env :: "unit env" where
  "callback_env = session_env\<lparr>
     Do := (\<lambda>r w. (Ok \<lparr>StatusCode = 200, RespHeader = (\<lambda>_. []),
       Body = (if OutUrl r = ''https://idp/token'' then ''T'' else ''A''), BodyErr = None\<rparr>, w)),
     JsonText := \<lparr>json_print = (\<lambda>_. []), json_parse = (\<lambda>s. if s = ''A'' then Some (JObj [(''active'', JBool True)])
       else if s = ''T'' then Some (JObj [(''access_token'', JStr ''new'')])
       else if s = ''L'' then Some (JObj [(''action'', JStr ''Login''), (''csrf'', JStr ''c0''), (''typ'', JStr stateTypeTag)])
       else None), json_first = (\<lambda>_. None)\<rparr>\<rparr>"

definition callback_toa :: "string \<Rightarrow> unit toa" where
  "callback_toa sealed = cookie_toa\<lparr>
     Config := (Config cookie_toa)\<lparr>Provider := (Provider (Config cookie_toa))\<lparr>UsePkceBool := False\<rparr>\<rparr>,
     Req := request_with [(''TraefikOidcAuth.LoginCsrf.c0'', ''c0'')] (html_request\<lparr>URL :=
       (URL html_request)\<lparr>Path := ''/oidc/callback'', RawQuery := Values_Encode [(''code'', [''x'']), (''state'', [sealed])]\<rparr>\<rparr>)\<rparr>"

lemma callback_config:
  "Secret (Config (callback_toa c)) = DefaultSecret" "TokenValidation (Provider (Config (callback_toa c))) = ''Introspection''"
  "UsePkceBool (Provider (Config (callback_toa c))) = False" "DiscoveryDocument (callback_toa c) = Some sample_discovery"
  "ClientJwtPrivateKey (callback_toa c) = None" "UseClaimsFromUserInfoBool (Provider (Config (callback_toa c))) = False"
  "CookieNamePrefix (Config (callback_toa c)) = ''TraefikOidcAuth''" "Rw (callback_toa c) = []"
  "AssertClaims (Authorization (Config (callback_toa c))) = []" "ValidPostLoginRedirectUris (Config (callback_toa c)) = []"
  by (simp_all add: callback_toa_def cookie_toa_def bearer_toa_def sample_toa_def migrateAuthBehaviors_def CreateConfig_def Let_def)

lemma callback_query:
  "Query_Get (Req (callback_toa c)) ''state'' = c" "Query_Get (Req (callback_toa c)) ''code'' = ''x''"
  by (simp_all add: Query_Get_def callback_toa_def request_with_def ParseQuery_Encode Values_pairs_def)

lemma callback_csrf: "validateLoginCsrf (Config (callback_toa c)) (Req (callback_toa c)) ''c0'' = None"
proof -
  have "isCookieNameValid ''TraefikOidcAuth.LoginCsrf.c0''" by (simp add: isCookieNameValid_def token_char_def)
  then have "carries (Req (callback_toa c)) (map_of [(''TraefikOidcAuth.LoginCsrf.c0'', ''c0'')])"
    using request_with_carries [of "[(''TraefikOidcAuth.LoginCsrf.c0'', ''c0'')]"] by (simp add: callback_toa_def validCookieValueByte_def)
  then show ?thesis
    by (simp add: validateLoginCsrf_def carries_Cookie getLoginCsrfCookieName_def makeCookieName_def callback_config)
qed

lemma callback_state:
  "\<exists>c. c \<noteq> [] \<and> (\<forall>now. UnsealState (Aead callback_env) (JsonText callback_env) (TimeText callback_env) now c DefaultSecret = Ok login_state)"
proof -
  have k: "aes_key_ok DefaultSecret" by (simp add: aes_key_ok_def DefaultSecret_def)
  obtain c where c: "EncryptWithPurpose ideal_aead (Some (replicate 12 CHR ''n'')) ''L'' DefaultSecret PurposeOidcState = Ok c"
    using EncryptWithPurpose_Ok [OF k] by blast
  have d: "DecryptWithPurpose ideal_aead c DefaultSecret PurposeOidcState = Ok ''L''"
    by (rule DecryptWithPurpose_Encrypt [OF ideal_aead_correct k _ c]) (simp add: NonceSize_def)
  then have "c \<noteq> []" by (auto simp: DecryptWithPurpose_def)
  then have "RawURLEncoding_Encode c \<noteq> []" by (simp add: RawURLEncoding_Encode_def b64_encode_Nil)
  moreover have "UnsealState (Aead callback_env) (JsonText callback_env) (TimeText callback_env) now (RawURLEncoding_Encode c) DefaultSecret
      = Ok login_state" for now
    unfolding UnsealState_encoded
    by (simp add: openState_def callback_env_def session_env_def active_env_def dead_env_def d decode_struct_def state_fields_def
        login_state_def zero_state_def)
  ultimately show ?thesis by blast
qed

lemmas callback_simps = callback_env_def session_env_def active_env_def dead_env_def sample_discovery_def

lemma callback_assertion: "run_state (add_assertion callback_env v) (callback_toa c\<lparr>Rw := rw\<rparr>) = (Ok v, callback_toa c\<lparr>Rw := rw\<rparr>)"
  by (simp add: add_assertion_def callback_config)

lemma callback_exchange:
  "run_state (exchangeAuthCode callback_env code cve) (callback_toa c\<lparr>Rw := rw\<rparr>)
     = (Ok (zero_token\<lparr>Tok_AccessToken := ''new''\<rparr>), callback_toa c\<lparr>Rw := rw\<rparr>)"
proof -
  have "run_state (postFormToTokenEndpoint callback_env v) (callback_toa c\<lparr>Rw := rw\<rparr>)
     = (Ok (zero_token\<lparr>Tok_AccessToken := ''new''\<rparr>), callback_toa c\<lparr>Rw := rw\<rparr>)" for v
    by (simp add: postFormToTokenEndpoint_def callback_config)
      (simp add: callback_simps send_def read_json_def read_limited_def maxOidcResponseBody_def decode_struct_def token_fields_def)
  then show ?thesis by (simp add: exchangeAuthCode_def Let_def callback_assertion callback_config)
qed

lemma callback_validate:
  "run_state (validateCallbackToken callback_env token st) (callback_toa c\<lparr>Rw := rw\<rparr>)
     = (Ok [(''active'', JBool True)], callback_toa c\<lparr>Rw := rw\<rparr>)"
proof -
  have "run_state (introspectToken callback_env tok) (callback_toa c\<lparr>Rw := rw\<rparr>)
      = (Ok (True, [(''active'', JBool True)]), callback_toa c\<lparr>Rw := rw\<rparr>)" for tok
    by (simp add: introspectToken_def callback_config callback_assertion)
      (simp add: callback_simps send_def read_json_def read_limited_def maxOidcResponseBody_def)
  then show ?thesis
    by (simp add: validateCallbackToken_def check_callback_token_def callback_token_def callback_config)
qed

lemma callback_store:
  "\<exists>ticket. ticket \<noteq> [] \<and> length ticket \<le> ChunkSize
     \<and> snd (StoreSession ideal_aead (JsonText callback_env) unary_time 5 (Some (replicate 12 CHR ''r'')) (Config (callback_toa c))
         (zero_session\<lparr>Id := i, RefreshedAt := 5, AccessToken := a, IdToken := b, RefreshToken := d, IsAuthorized := e, TokenExpiresIn := f, ChallengeAttempted := g\<rparr>)) = Ok ticket"
  by (simp add: StoreSession_def Let_def session_json_def stamp_session_def zero_session_def unary_time_def
      EncryptWithPurpose_def aes_key_ok_def callback_config DefaultSecret_def callback_env_def session_env_def active_env_def
      length_b64_encode ideal_aead_def PurposeSession_def MaxTicketSize_def ChunkSize_def MaxChunks_def
      StdEncoding_Encode_def b64_encode_Nil)

lemma unit_world: "World_update (\<lambda>_. ()) s = (s :: unit toa)"
  by (cases s) simp

lemma callback_run:
  "\<exists>c s' ck. run_state (handleCallback callback_env) (callback_toa c) = ((), s') \<and> EvSetCookie ck \<in> set (Rw s')
     \<and> Value ck \<noteq> [] \<and> HasPrefix (Name ck) (getSessionCookieName (Config (callback_toa c)))"
proof -
  obtain c where c: "c \<noteq> []" and u: "\<And>now. UnsealState (Aead callback_env) (JsonText callback_env) (TimeText callback_env)
      now c DefaultSecret = Ok login_state" using callback_state by blast
  have n: "getSessionCookieName (Config (callback_toa c)) = ''TraefikOidcAuth.Session''"
    by (simp add: getSessionCookieName_def makeCookieName_def callback_config)
  have env: "Now callback_env = (\<lambda>w. (5, w))" "RandRead callback_env = (\<lambda>n w. (Some (replicate n CHR ''r''), w))"
    "NewUUID callback_env = (\<lambda>w. (''id'', w))" "Aead callback_env = ideal_aead" "TimeText callback_env = unary_time"
    by (simp_all add: callback_simps)
  let ?sess = "zero_session\<lparr>Id := ''id'', RefreshedAt := 5, AccessToken := ''new'', IdToken := [], RefreshToken := [],
    IsAuthorized := True, TokenExpiresIn := 0, ChallengeAttempted := False\<rparr>"
  obtain t where t: "t \<noteq> []" "length t \<le> ChunkSize" "snd (StoreSession ideal_aead (JsonText callback_env) unary_time 5
      (Some (replicate 12 CHR ''r'')) (Config (callback_toa c)) ?sess) = Ok t"
    using callback_store by blast
  have st: "Action login_state = ''Login''" "Csrf login_state = ''c0''" "IsChallenge login_state = False"
    "RedirectUrl login_state = []" by (simp_all add: login_state_def zero_state_def)
  have au: "isAuthorized x y (Authorization (Config (callback_toa c))) z" for x y z by (simp add: isAuthorized_def callback_config)
  have nm: "isCookieNameValid ''TraefikOidcAuth.Session''" by (simp add: isCookieNameValid_def token_char_def)
  define rw1 where "rw1 = clearLoginCsrfCookie 5 (Config (callback_toa c)) [] (CallbackURL (callback_toa c)) ''c0''"
  define rw2 where "rw2 = setChunkedCookies (Config (callback_toa c)) rw1 ''TraefikOidcAuth.Session'' t"
  have rw2: "rw2 = rw1 @ [EvSetCookie ((createSessionCookie (Config (callback_toa c)))\<lparr>Name := ''TraefikOidcAuth.Session'', Value := t\<rparr>)]"
    using setChunkedCookies_single [OF t(1,2)] nm by (simp add: rw2_def SetCookie_def)
  have t': "snd (StoreSession ideal_aead (JsonText callback_env) unary_time 5 (Some ''rrrrrrrrrrrr'') (Config (callback_toa c)) ?sess) = Ok t"
    using t(3) by (simp add: numeral_eq_Suc)
  have "\<exists>w. run_state (establishSession callback_env (zero_token\<lparr>Tok_AccessToken := ''new''\<rparr>) [(''active'', JBool True)] login_state)
      (callback_toa c\<lparr>Rw := rw1\<rparr>) = (Ok ?sess, callback_toa c\<lparr>Rw := rw2, sessionWrites := w\<rparr>)"
    using t(3)
    by (simp add: establishSession_def Let_def env st au storeSessionAndAttachCookie_def n zero_token_def NonceSize_def mark_def rw2_def unit_world)
      (metis)
  then obtain w where e: "run_state (establishSession callback_env (zero_token\<lparr>Tok_AccessToken := ''new''\<rparr>) [(''active'', JBool True)] login_state)
      (callback_toa c\<lparr>Rw := rw1\<rparr>) = (Ok ?sess, callback_toa c\<lparr>Rw := rw2, sessionWrites := w\<rparr>)" by blast
  have fin: "\<exists>ev. run_state (finish_login callback_env login_state ?sess) (callback_toa c\<lparr>Rw := rw2, sessionWrites := w\<rparr>)
      = (Some ev, callback_toa c\<lparr>Rw := rw2, sessionWrites := w\<rparr>)"
    by (simp add: finish_login_def env callback_config st post_login_target_def unit_world)
  then obtain target where f: "run_state (finish_login callback_env login_state ?sess) (callback_toa c\<lparr>Rw := rw2, sessionWrites := w\<rparr>)
      = (Some target, callback_toa c\<lparr>Rw := rw2, sessionWrites := w\<rparr>)" by blast
  have l: "run_state (callback_login callback_env login_state) (callback_toa c)
      = (Some target, callback_toa c\<lparr>Rw := rw2, sessionWrites := w\<rparr>)"
    using e f
    by (simp add: callback_login_def env callback_config st callback_csrf callback_query callback_exchange complete_login_def
        callback_validate step_up_fails_def unit_world rw1_def [symmetric])
  let ?ck = "(createSessionCookie (Config (callback_toa c)))\<lparr>Name := ''TraefikOidcAuth.Session'', Value := t\<rparr>"
  have r: "run_state (handleCallback callback_env) (callback_toa c)
      = ((), callback_toa c\<lparr>Rw := rw2 @ [EvRedirect target 302], sessionWrites := w\<rparr>)"
    using c by (simp add: handleCallback_def callback_query callback_config env u [unfolded env] callback_action_def st l unit_world)
  show ?thesis
    by (rule exI [of _ c], rule exI, rule exI [of _ ?ck], rule conjI [OF r]) (simp add: rw2 n t(1) HasPrefix_def)
qed

theorem callback_session_gate_witness:
  "\<exists>c s' state. run_state (handleCallback callback_env) (callback_toa c) = ((), s')
     \<and> UnsealState (Aead callback_env) (JsonText callback_env) (TimeText callback_env) (fst (Now callback_env (World (callback_toa c))))
         (Query_Get (Req (callback_toa c)) ''state'') (Secret (Config (callback_toa c))) = Ok state
     \<and> login_completed callback_env (callback_toa c) state"
proof -
  obtain c s' ck where r: "run_state (handleCallback callback_env) (callback_toa c) = ((), s')" "EvSetCookie ck \<in> set (Rw s')"
    "Value ck \<noteq> []" "HasPrefix (Name ck) (getSessionCookieName (Config (callback_toa c)))"
    using callback_run by blast
  from callback_session_gate [OF r(1) _ r(2-4)] r(1) show ?thesis by (auto simp: callback_config)
qed

section \<open>Front-channel logout\<close>

lemma secureStringEqual_iff [simp]: "secureStringEqual a b \<longleftrightarrow> a = b"
  by (auto simp: secureStringEqual_def)

text \<open>What a notification has to bring to name the session.\<close>

definition names_session :: "ProviderConfig \<Rightarrow> string \<Rightarrow> request \<Rightarrow> SessionState \<Rightarrow> claims \<Rightarrow> bool" where
  "names_session p expectedIssuer req sess c \<longleftrightarrow>
     (let iss = Query_Get req ''iss''; sid = Query_Get req ''sid''; hint = Query_Get req ''id_token_hint''
      in iss \<noteq> [] \<and> claim_string c ''iss'' = Some iss
         \<and> (\<not> ValidateIssuerBool p \<or> expectedIssuer = [] \<or> iss = expectedIssuer)
         \<and> (if sid \<noteq> [] then claim_string c ''sid'' = Some sid else hint \<noteq> [] \<and> hint = IdToken sess))"

lemma frontchannel_error_None:
  "frontchannel_error p issuer req sess c = None \<longleftrightarrow> names_session p issuer req sess c"
  by (auto simp: frontchannel_error_def names_session_def Let_def split: option.splits)

text \<open>
  C29. A front-channel notification ends a session only when it names that session: it brings
  the issuer of the session's claims (and the configured issuer, when issuers are validated)
  and either the session id of the claims or, without one, the session's own non-empty id
  token. Then the refresh token is revoked and the cookie cleared; any other notification
  gets a 400 and changes nothing.
\<close>

theorem frontchannel_needs_proof:
  "if names_session (Provider (Config s)) (effectiveValidIssuer s) (Req s) sess c
   then run_state (handleFrontchannelLogout E sess c) s
      = run_state (do { r \<leftarrow> revokeToken E (RefreshToken sess); clear_session_cookie E; writeSuccessfulLogout E }) s
   else (\<exists>msg. run_state (handleFrontchannelLogout E sess c) s = ((), s\<lparr>Rw := Rw s @ [EvError msg 400]\<rparr>))"
proof (cases "frontchannel_error (Provider (Config s)) (effectiveValidIssuer s) (Req s) sess c")
  case None
  then have n: "names_session (Provider (Config s)) (effectiveValidIssuer s) (Req s) sess c"
    by (simp only: frontchannel_error_None)
  show ?thesis by (simp only: n if_True) (simp add: handleFrontchannelLogout_def None)
next
  case (Some msg)
  then have n: "\<not> names_session (Provider (Config s)) (effectiveValidIssuer s) (Req s) sess c"
    by (simp add: frontchannel_error_None [symmetric])
  have "run_state (handleFrontchannelLogout E sess c) s = ((), s\<lparr>Rw := Rw s @ [EvError msg 400]\<rparr>)"
    by (simp add: handleFrontchannelLogout_def Some)
  then show ?thesis unfolding if_not_P [OF n] by (rule exI)
qed

section \<open>A session through the browser\<close>

text \<open>
  C13. The session survives the trip through the browser: what \<open>storeSessionAndAttachCookie\<close>
  seals, splits over cookies and sends is what the next request reads, joins and opens, field
  for field and with the time stamps of the write, provided the browser had no chunk count
  from before.
\<close>

theorem session_reaches_next_request:
  assumes "run_state (storeSessionAndAttachCookie E sess) s = (None, s')" "Rw s = []"
    and "aead_correct (Aead E)" "json_law (JsonText E)" "time_law (TimeText E)" "rand_law E" "aes_key_ok (Secret (Config s))"
    and "session_utf8 sess" "int64 (TokenExpiresIn sess)" "\<forall>w. 0 < fst (Now E w)"
    and "0 \<le> SC_MaxAge (SessionCookie (Config s))" "isCookieNameValid (getSessionCookieName (Config s))"
    and "jar (getSessionCookieName (Config s) @ ''.Chunks'') = None" "carries req (jar_after jar (Rw s'))"
  shows "\<exists>ticket w. readChunkedCookie req (getSessionCookieName (Config s)) = Ok ticket
    \<and> (\<forall>now. TryGetSession (Aead E) (JsonText E) (TimeText E) now (Config s) ticket = Ok (stamp_session (fst (Now E w)) sess))"
proof -
  let ?nm = "getSessionCookieName (Config s)"
  obtain now w1 where n: "Now E (World s) = (now, w1)" by (cases "Now E (World s)")
  obtain rnd w2 where r: "RandRead E NonceSize w1 = (rnd, w2)" by (cases "RandRead E NonceSize w1")
  from assms(1) n r obtain s2 ticket where st: "StoreSession (Aead E) (JsonText E) (TimeText E) now rnd (Config s) sess = (s2, Ok ticket)"
    and rw: "Rw s' = setChunkedCookies (Config s) (Rw s) ?nm ticket"
    by (cases "StoreSession (Aead E) (JsonText E) (TimeText E) now rnd (Config s) sess")
      (auto simp: storeSessionAndAttachCookie_def split: sum.splits)
  from st obtain bs where bs: "rnd = Some bs"
    by (cases rnd) (auto simp: StoreSession_def Let_def EncryptWithPurpose_def split: option.splits if_splits)
  with r assms(6) have len: "length bs = NonceSize" by (auto simp: rand_law_def)
  have now: "0 < now" using assms(10) n by (metis fst_conv)
  note t = stored_session_reads [OF assms(3-5,7) len assms(8,9) now st [unfolded bs]]
  have "ticket \<noteq> []"
    using t [of 0] by (auto simp: TryGetSession_def open_ticket_def Decrypt_def DecryptWithPurpose_def)
  then have "readChunkedCookie req ?nm = Ok ticket"
    using t [of 0] assms(11-14) rw assms(2) by (intro chunked_read) simp_all
  with t n show ?thesis by (metis fst_conv)
qed

definition store_env :: "unit env" where
  "store_env = dead_env\<lparr>Now := (\<lambda>w. (1, w)), JsonText := sample_json\<rparr>"

theorem session_reaches_next_request_witness:
  "\<exists>s' ticket. run_state (storeSessionAndAttachCookie store_env zero_session) sample_toa = (None, s')
     \<and> readChunkedCookie (request_with [(''TraefikOidcAuth.Session'', ticket)] html_request) ''TraefikOidcAuth.Session'' = Ok ticket
     \<and> TryGetSession ideal_aead sample_json unary_time 9 (Config sample_toa) ticket = Ok (stamp_session 1 zero_session)"
proof -
  let ?nm = "''TraefikOidcAuth.Session''" and ?cfg = "Config sample_toa"
  have cfg: "Secret ?cfg = DefaultSecret" "getSessionCookieName ?cfg = ?nm" "Rw sample_toa = []" "SC_MaxAge (SessionCookie ?cfg) = 0"
    by (simp_all add: sample_toa_def migrateAuthBehaviors_def CreateConfig_def Let_def getSessionCookieName_def makeCookieName_def)
  have env: "Now store_env = (\<lambda>w. (1, w))" "RandRead store_env = (\<lambda>n w. (Some (replicate n CHR ''r''), w))"
    "Aead store_env = ideal_aead" "JsonText store_env = sample_json" "TimeText store_env = unary_time"
    by (simp_all add: store_env_def dead_env_def)
  have nm: "isCookieNameValid ?nm" by (simp add: isCookieNameValid_def token_char_def)
  have "\<exists>ticket. EncryptWithPurpose ideal_aead (Some (replicate 12 CHR ''r'')) ''0'' DefaultSecret PurposeSession = Ok ticket
      \<and> length ticket \<le> ChunkSize \<and> ticket \<noteq> []"
    by (simp add: EncryptWithPurpose_def aes_key_ok_def DefaultSecret_def ideal_aead_def PurposeSession_def
        StdEncoding_Encode_def length_b64_encode ChunkSize_def b64_encode_Nil)
  then obtain ticket where e: "EncryptWithPurpose ideal_aead (Some (replicate 12 CHR ''r'')) ''0'' DefaultSecret PurposeSession = Ok ticket"
    and l: "length ticket \<le> ChunkSize" "ticket \<noteq> []" by blast
  have s: "snd (StoreSession ideal_aead sample_json unary_time 1 (Some (replicate 12 CHR ''r'')) ?cfg zero_session) = Ok ticket"
    using l e by (simp add: StoreSession_def Let_def session_json_def stamp_session_def zero_session_def unary_time_def cfg
        sample_json_def pinned_json_def ChunkSize_def MaxTicketSize_def MaxChunks_def)
  let ?s' = "sample_toa\<lparr>Rw := setChunkedCookies ?cfg [] ?nm ticket\<rparr>"
  have run: "run_state (storeSessionAndAttachCookie store_env zero_session) sample_toa = (None, ?s')"
    using s by (simp add: storeSessionAndAttachCookie_def env cfg NonceSize_def unit_world)
  have "jar_after Map.empty (Rw ?s') = map_of [(?nm, ticket)]"
    using jar_single [OF _ nm l(2,1), of ?cfg Map.empty "[]"] by (simp add: cfg jar_after_def)
  moreover have cr: "carries (request_with [(?nm, ticket)] html_request) (map_of [(?nm, ticket)])"
    by (rule request_with_carries) (simp add: nm sealed_cookie_value [OF e])
  ultimately have c: "carries (request_with [(?nm, ticket)] html_request) (jar_after Map.empty (Rw ?s'))" by simp
  have rd: "readChunkedCookie (request_with [(?nm, ticket)] html_request) ?nm = Ok ticket"
    using cr by (simp add: readChunkedCookie_def getChunkedCookieCount_def carries_Cookie)
  have law: "json_law (JsonText store_env)" "rand_law store_env" "aes_key_ok (Secret ?cfg)"
    by (simp_all add: env sample_json_def pinned_json_law rand_law_def cfg aes_key_ok_def DefaultSecret_def)
  have z: "session_utf8 zero_session" "int64 (TokenExpiresIn zero_session)"
    by (auto simp: session_utf8_def zero_session_def int64_def intro!: utf8_ascii)
  have pos: "\<forall>w. 0 < fst (Now store_env w)" by (simp add: env)
  from session_reaches_next_request [OF run cfg(3) _ law(1) _ law(2,3) z pos _ _ _ c]
  show ?thesis using run rd by (auto simp: env cfg ideal_aead_correct unary_time_law nm)
qed

end
