(* ===== verification/PredicateLang.thy ===== *)
theory PredicateLang
  imports Prelude
begin

text \<open>
  The package \<open>src/predicate\<close>: an interpreter for boolean expressions in Go syntax
  (\<open>parse.go\<close>), its configuration record \<open>Def\<close> (\<open>predicate.go\<close>) and the helper
  predicates of \<open>lib.go\<close>.

  Go's own expression parser (\<open>go/parser.ParseExpr\<close>) hands the interpreter a syntax
  tree; \<^term>\<open>Parse\<close> takes it as the parameter \<open>ParseExpr\<close>. Float and string literals
  are decoded by \<open>strconv\<close>, given by the record \<open>literals\<close>. A value of Go's
  \<open>interface{}\<close> is a \<open>val\<close>; the type parameter is the type of predicates that the
  language's functions build. A function value is its reflected signature with its body,
  so that \<open>callFunction\<close> refuses the calls on which \<open>reflect.Call\<close> panics.
\<close>

section \<open>Syntax trees (go/ast, go/token)\<close>

datatype token = NOT | LAND | LOR | GTR | GEQ | LSS | LEQ | EQL | NEQ | OtherToken string

datatype litkind = FLOAT | INTEGER | STRING | OtherKind string

datatype expr =
    BinaryExpr expr token expr
  | ParenExpr expr
  | UnaryExpr token expr
  | BasicLit litkind string
  | IndexExpr expr expr
  | SelectorExpr expr string
  | Ident string
  | CallExpr expr "expr list"
  | OtherExpr string

section \<open>Values and functions\<close>

text \<open>
  A struct value lists its flds, each with its tags by tag name; a pointer is \<open>None\<close>
  when it is nil.
\<close>

datatype 'p val =
    VNil
  | VString string
  | VInt int
  | VFloat string
  | VStrings "string list"
  | VStringMap "(string \<times> string) list"
  | VStringsMap "(string \<times> string list) list"
  | VPred 'p
  | VStruct "((string \<times> string) list \<times> 'p val) list"
  | VPtr "'p val option"
  | VOther string

datatype ty = TString | TInt | TFloat | TStrings | TStringMap | TStringsMap | TPred | TStruct | TPtr
  | TAny | TOther string

fun type_of :: "'p val \<Rightarrow> ty option" where
  "type_of VNil = None"
| "type_of (VString _) = Some TString"
| "type_of (VInt _) = Some TInt"
| "type_of (VFloat _) = Some TFloat"
| "type_of (VStrings _) = Some TStrings"
| "type_of (VStringMap _) = Some TStringMap"
| "type_of (VStringsMap _) = Some TStringsMap"
| "type_of (VPred _) = Some TPred"
| "type_of (VStruct _) = Some TStruct"
| "type_of (VPtr _) = Some TPtr"
| "type_of (VOther t) = Some (TOther t)"

definition assignable :: "'p val \<Rightarrow> ty \<Rightarrow> bool" where
  "assignable v t \<longleftrightarrow> type_of v \<noteq> None \<and> (t = TAny \<or> type_of v = Some t)"

text \<open>What a reflected call returns: one value, a value and an error (or a second value that is no error), or another number of values.\<close>

datatype 'p returned = Ret1 "'p val" | Ret2 "'p val" "error option" | Ret2NotError "'p val" | RetCount nat

record 'p gofunc =
  params :: "ty list"
  variadic :: "ty option"
  body :: "'p val list \<Rightarrow> 'p returned"

record literals =
  ParseFloat :: "string \<Rightarrow> string result"
  Unquote :: "string \<Rightarrow> string result"

section \<open>predicate.go\<close>

record 'p Operators =
  opEQ :: "'p gofunc option"
  opNEQ :: "'p gofunc option"
  opLT :: "'p gofunc option"
  opGT :: "'p gofunc option"
  opLE :: "'p gofunc option"
  opGE :: "'p gofunc option"
  opOR :: "'p gofunc option"
  opAND :: "'p gofunc option"
  opNOT :: "'p gofunc option"

record 'p Def =
  Operators :: "'p Operators"
  Functions :: "string \<Rightarrow> 'p gofunc option"
  GetIdentifier :: "(string list \<Rightarrow> 'p val result) option"
  GetProperty :: "('p val \<Rightarrow> 'p val \<Rightarrow> 'p val result) option"

section \<open>parse.go\<close>

text \<open>
  \<open>callFunction\<close>: \<open>reflect.Call\<close> panics on a nil argument, on a wrong number of
  arguments and on an argument of the wrong type; the deferred \<open>recover\<close> turns each
  panic into an error.
\<close>

definition args_ok :: "'p gofunc \<Rightarrow> 'p val list \<Rightarrow> bool" where
  "args_ok f args \<longleftrightarrow>
     (case variadic f of
        None \<Rightarrow> length args = length (params f) \<and> list_all2 assignable args (params f)
      | Some t \<Rightarrow> length (params f) \<le> length args
          \<and> list_all2 assignable (take (length (params f)) args) (params f)
          \<and> list_all (\<lambda>v. assignable v t) (drop (length (params f)) args))"

definition callFunction :: "'p gofunc \<Rightarrow> 'p val list \<Rightarrow> 'p val result" where
  "callFunction f args =
     (if \<not> args_ok f args then Err ''reflect: Call''
      else case body f args of
        Ret1 v \<Rightarrow> Ok v
      | Ret2 v None \<Rightarrow> Ok v
      | Ret2 v (Some e) \<Rightarrow> Err e
      | Ret2NotError v \<Rightarrow> Err ''expected error as a second return value''
      | RetCount n \<Rightarrow> Err ''expected at least one return argument'')"

definition getJoinFunction :: "'p Def \<Rightarrow> token \<Rightarrow> 'p gofunc result" where
  "getJoinFunction d op =
     (let fn = (case op of
          NOT \<Rightarrow> opNOT (Operators d)
        | LAND \<Rightarrow> opAND (Operators d)
        | LOR \<Rightarrow> opOR (Operators d)
        | GTR \<Rightarrow> opGT (Operators d)
        | GEQ \<Rightarrow> opGE (Operators d)
        | LSS \<Rightarrow> opLT (Operators d)
        | LEQ \<Rightarrow> opLE (Operators d)
        | EQL \<Rightarrow> opEQ (Operators d)
        | NEQ \<Rightarrow> opNEQ (Operators d)
        | OtherToken _ \<Rightarrow> None)
      in case fn of None \<Rightarrow> Err ''operator is not supported'' | Some f \<Rightarrow> Ok f)"

definition joinPredicates :: "'p Def \<Rightarrow> token \<Rightarrow> 'p val \<Rightarrow> 'p val \<Rightarrow> 'p val result" where
  "joinPredicates d op a b =
     (case getJoinFunction d op of Inl e \<Rightarrow> Err e | Inr f \<Rightarrow> callFunction f [a, b])"

definition getFunction :: "'p Def \<Rightarrow> string \<Rightarrow> 'p gofunc result" where
  "getFunction d name =
     (case Functions d name of None \<Rightarrow> Err (''unsupported function: '' @ name) | Some f \<Rightarrow> Ok f)"

fun getIdentifier :: "expr \<Rightarrow> string result" where
  "getIdentifier (SelectorExpr x sel) =
     (case x of Ident n \<Rightarrow> Ok (n @ ''.'' @ sel) | _ \<Rightarrow> Err ''expected selector identifier'')"
| "getIdentifier (Ident n) = Ok n"
| "getIdentifier _ = Err ''expected identifier''"

fun literalToValue :: "literals \<Rightarrow> litkind \<Rightarrow> string \<Rightarrow> 'p val result" where
  "literalToValue L FLOAT s = map_sum id VFloat (ParseFloat L s)"
| "literalToValue L INTEGER s = map_sum id VInt (Atoi s)"
| "literalToValue L STRING s = map_sum id VString (Unquote L s)"
| "literalToValue L (OtherKind k) s = Err (''unsupported function argument type: '' @ k)"

text \<open>
  The selector walk: a loop that collects the field names from the outside in and flips
  them once it reaches the base identifier.
\<close>

fun evaluateSelectorLoop :: "expr \<Rightarrow> string list \<Rightarrow> string list \<Rightarrow> string list result" where
  "evaluateSelectorLoop (SelectorExpr x n) names flds = evaluateSelectorLoop x (names @ [n]) flds"
| "evaluateSelectorLoop (Ident n) names flds = Ok (n # rev names @ flds)"
| "evaluateSelectorLoop _ names flds = Err ''unsupported selector type''"

definition evaluateSelector :: "expr \<Rightarrow> string \<Rightarrow> string list \<Rightarrow> string list result" where
  "evaluateSelector x sel flds = evaluateSelectorLoop x [sel] flds"

fun evaluateExpr :: "literals \<Rightarrow> 'p Def \<Rightarrow> expr \<Rightarrow> 'p val result"
and evaluateArguments :: "literals \<Rightarrow> 'p Def \<Rightarrow> expr list \<Rightarrow> 'p val list result" where
  "evaluateExpr L d (BasicLit k s) = literalToValue L k s"
| "evaluateExpr L d (IndexExpr x i) =
     (case GetProperty d of
        None \<Rightarrow> Err ''properties are not supported''
      | Some get \<Rightarrow>
          (case evaluateExpr L d x of Inl e \<Rightarrow> Err e | Inr mapVal \<Rightarrow>
             (case evaluateExpr L d i of Inl e \<Rightarrow> Err e | Inr keyVal \<Rightarrow> get mapVal keyVal)))"
| "evaluateExpr L d (SelectorExpr x sel) =
     (case evaluateSelector x sel [] of Inl e \<Rightarrow> Err e | Inr flds \<Rightarrow>
        (case GetIdentifier d of
           None \<Rightarrow> Err (Join flds ''.'' @ '' is not defined'')
         | Some get \<Rightarrow> get flds))"
| "evaluateExpr L d (Ident n) =
     (case GetIdentifier d of None \<Rightarrow> Err (n @ '' is not defined'') | Some get \<Rightarrow> get [n])"
| "evaluateExpr L d (CallExpr fn args) =
     (case getIdentifier fn of Inl e \<Rightarrow> Err e | Inr name \<Rightarrow>
        (case getFunction d name of Inl e \<Rightarrow> Err e | Inr f \<Rightarrow>
           (case evaluateArguments L d args of Inl e \<Rightarrow> Err e | Inr vs \<Rightarrow> callFunction f vs)))"
| "evaluateExpr L d e = Err ''expression is not supported''"
| "evaluateArguments L d [] = Ok []"
| "evaluateArguments L d (n # ns) =
     (case evaluateExpr L d n of Inl e \<Rightarrow> Err e | Inr v \<Rightarrow>
        (case evaluateArguments L d ns of Inl e \<Rightarrow> Err e | Inr vs \<Rightarrow> Ok (v # vs)))"

fun parse :: "literals \<Rightarrow> 'p Def \<Rightarrow> expr \<Rightarrow> 'p val result" where
  "parse L d (BinaryExpr x op y) =
     (case parse L d x of Inl e \<Rightarrow> Err e | Inr vx \<Rightarrow>
        (case parse L d y of Inl e \<Rightarrow> Err e | Inr vy \<Rightarrow> joinPredicates d op vx vy))"
| "parse L d (ParenExpr x) = parse L d x"
| "parse L d (UnaryExpr op x) =
     (case getJoinFunction d op of Inl e \<Rightarrow> Err e | Inr f \<Rightarrow>
        (case parse L d x of Inl e \<Rightarrow> Err e | Inr v \<Rightarrow> callFunction f [v]))"
| "parse L d e = evaluateExpr L d e"

definition Parse :: "(string \<Rightarrow> expr result) \<Rightarrow> literals \<Rightarrow> 'p Def \<Rightarrow> string \<Rightarrow> 'p val result" where
  "Parse ParseExpr L d s = (case ParseExpr s of Inl e \<Rightarrow> Err e | Inr e \<Rightarrow> parse L d e)"

section \<open>lib.go\<close>

definition GetStringMapValue :: "'p val \<Rightarrow> 'p val \<Rightarrow> 'p val result" where
  "GetStringMapValue mapVal keyVal =
     (case keyVal of
        VString key \<Rightarrow>
          (case mapVal of
             VStringsMap m \<Rightarrow>
               (if length m = 0 then Ok (VStrings [])
                else Ok (VStrings (case map_of m key of None \<Rightarrow> [] | Some vs \<Rightarrow> vs)))
           | VStringMap m \<Rightarrow>
               (if length m = 0 then Ok (VString [])
                else Ok (VString (case map_of m key of None \<Rightarrow> [] | Some v \<Rightarrow> v)))
           | _ \<Rightarrow> Err ''type is not supported'')
      | _ \<Rightarrow> Err ''only string keys are supported'')"

text \<open>The comparison loop of \<open>Equals\<close> on slices of equal length.\<close>

fun equal_loop :: "string list \<Rightarrow> string list \<Rightarrow> bool" where
  "equal_loop (a # as) (b # bs) = (if a \<noteq> b then False else equal_loop as bs)"
| "equal_loop _ _ = True"

fun Equals :: "'p val \<Rightarrow> 'p val \<Rightarrow> bool" where
  "Equals (VString a) b = (case b of VString b' \<Rightarrow> a = b' | _ \<Rightarrow> False)"
| "Equals (VStrings a) b =
     (case b of VStrings b' \<Rightarrow> if length a \<noteq> length b' then False else equal_loop a b' | _ \<Rightarrow> False)"
| "Equals _ b = False"

fun contains_loop :: "string list \<Rightarrow> string \<Rightarrow> bool" where
  "contains_loop [] b = False"
| "contains_loop (v # vs) b = (if v = b then True else contains_loop vs b)"

fun ContainsVal :: "'p val \<Rightarrow> 'p val \<Rightarrow> bool" where
  "ContainsVal (VStrings a) (VString b) = contains_loop a b"
| "ContainsVal _ _ = False"

text \<open>The boolean combinators on argumentless predicates.\<close>

definition And :: "(unit \<Rightarrow> bool) \<Rightarrow> (unit \<Rightarrow> bool) \<Rightarrow> unit \<Rightarrow> bool" where
  "And a b = (\<lambda>u. a u \<and> b u)"

definition Or :: "(unit \<Rightarrow> bool) \<Rightarrow> (unit \<Rightarrow> bool) \<Rightarrow> unit \<Rightarrow> bool" where
  "Or a b = (\<lambda>u. a u \<or> b u)"

definition Not :: "(unit \<Rightarrow> bool) \<Rightarrow> unit \<Rightarrow> bool" where
  "Not a = (\<lambda>u. \<not> a u)"

text \<open>
  \<open>GetFieldByTag\<close> follows one pointer, then looks for the first field whose tag, cut at
  its first comma, is the wanted name, and descends into it for the remaining names.
\<close>

definition tag_name :: "string \<Rightarrow> (string \<times> string) list \<Rightarrow> string" where
  "tag_name tagName tags =
     hd (SplitChar CHR '','' (case map_of tags tagName of None \<Rightarrow> [] | Some t \<Rightarrow> t))"

definition elem :: "'p val \<Rightarrow> 'p val" where
  "elem v = (case v of VPtr None \<Rightarrow> VNil | VPtr (Some w) \<Rightarrow> w | w \<Rightarrow> w)"

fun GetFieldByTag :: "string list \<Rightarrow> string \<Rightarrow> 'p val \<Rightarrow> 'p val result" where
  "GetFieldByTag [] tagName ival = Err ''missing field names''"
| "GetFieldByTag (fieldName # rest) tagName ival =
     (case elem ival of
        VStruct fs \<Rightarrow>
          (case find (\<lambda>(tags, v). tag_name tagName tags = fieldName) fs of
             Some (tags, v) \<Rightarrow> if rest = [] then Ok v else GetFieldByTag rest tagName v
           | None \<Rightarrow> Err (''field name '' @ Join (fieldName # rest) ''.'' @ '' is not found''))
      | _ \<Rightarrow> Err (''field name '' @ Join (fieldName # rest) ''.'' @ '' is not found''))"

section \<open>Lemmas on calls\<close>

lemma callFunction_Ok:
  assumes "callFunction f args = Ok v"
  shows "args_ok f args" "body f args = Ret1 v \<or> body f args = Ret2 v None"
  using assms by (auto simp: callFunction_def split: if_splits returned.splits option.splits)

lemma assignable_TPred [simp]: "assignable v TPred \<longleftrightarrow> (\<exists>p. v = VPred p)"
  by (cases v) (auto simp: assignable_def)

lemma assignable_TString [simp]: "assignable v TString \<longleftrightarrow> (\<exists>s. v = VString s)"
  by (cases v) (auto simp: assignable_def)

lemma evaluateArguments_Ok:
  "evaluateArguments L d ns = Ok vs \<longleftrightarrow> list_all2 (\<lambda>n v. evaluateExpr L d n = Ok v) ns vs"
proof (induction ns arbitrary: vs)
  case (Cons n ns)
  then show ?case
    by (cases vs; cases "evaluateExpr L d n"; cases "evaluateArguments L d ns") auto
qed auto

section \<open>The selector walk computes the dotted path\<close>

text \<open>The path of a selector chain, read off the syntax: base identifier first.\<close>

fun selector_path :: "expr \<Rightarrow> string list option" where
  "selector_path (Ident n) = Some [n]"
| "selector_path (SelectorExpr x n) = map_option (\<lambda>p. p @ [n]) (selector_path x)"
| "selector_path _ = None"

lemma evaluateSelectorLoop_path:
  "evaluateSelectorLoop x names flds =
     (case selector_path x of
        None \<Rightarrow> Err ''unsupported selector type''
      | Some p \<Rightarrow> Ok (p @ rev names @ flds))"
  by (induction x names flds rule: evaluateSelectorLoop.induct) (auto split: option.splits)

lemma equal_loop_iff: "length a = length b \<Longrightarrow> equal_loop a b \<longleftrightarrow> a = b"
  by (induction a b rule: list_induct2) auto

lemma contains_loop_iff: "contains_loop a b \<longleftrightarrow> b \<in> set a"
  by (induction a) auto

section \<open>The language of a boolean definition\<close>

text \<open>
  The boolean value of an expression: what its operators say, and at the leaves what the
  predicate built there means.
\<close>

fun bool_meaning :: "'p Def \<Rightarrow> ('p \<Rightarrow> 'r \<Rightarrow> bool) \<Rightarrow> literals \<Rightarrow> expr \<Rightarrow> 'r \<Rightarrow> bool" where
  "bool_meaning d sem L (BinaryExpr x op y) r =
     (case op of LAND \<Rightarrow> bool_meaning d sem L x r \<and> bool_meaning d sem L y r
      | LOR \<Rightarrow> bool_meaning d sem L x r \<or> bool_meaning d sem L y r | _ \<Rightarrow> False)"
| "bool_meaning d sem L (ParenExpr x) r = bool_meaning d sem L x r"
| "bool_meaning d sem L (UnaryExpr op x) r = (\<not> bool_meaning d sem L x r)"
| "bool_meaning d sem L e r = (case evaluateExpr L d e of Inr (VPred p) \<Rightarrow> sem p r | _ \<Rightarrow> False)"

text \<open>
  The contract between the interpreter and the package that configures it. The operators
  \<open>&&\<close>, \<open>||\<close> and \<open>!\<close> are bound to functions over predicates that mean conjunction,
  disjunction and negation (\<open>sem\<close> says what a predicate means at an environment), they
  accept predicates, and no comparison operator is bound. What the interpreter then
  builds for an expression means the expression's boolean value.
\<close>

locale boolean_language =
  fixes d :: "'p Def"
    and sem :: "'p \<Rightarrow> 'r \<Rightarrow> bool"
    and good :: "'p \<Rightarrow> bool"
  assumes and_sound: "opAND (Operators d) = Some f \<Longrightarrow> callFunction f [a, b] = Ok v \<Longrightarrow>
      \<exists>p q r. a = VPred p \<and> b = VPred q \<and> v = VPred r
        \<and> (good p \<longrightarrow> good q \<longrightarrow> good r \<and> (\<forall>x. sem r x \<longleftrightarrow> sem p x \<and> sem q x))"
    and or_sound: "opOR (Operators d) = Some f \<Longrightarrow> callFunction f [a, b] = Ok v \<Longrightarrow>
      \<exists>p q r. a = VPred p \<and> b = VPred q \<and> v = VPred r
        \<and> (good p \<longrightarrow> good q \<longrightarrow> good r \<and> (\<forall>x. sem r x \<longleftrightarrow> sem p x \<or> sem q x))"
    and not_sound: "opNOT (Operators d) = Some f \<Longrightarrow> callFunction f [a] = Ok v \<Longrightarrow>
      \<exists>p r. a = VPred p \<and> v = VPred r \<and> (good p \<longrightarrow> good r \<and> (\<forall>x. sem r x \<longleftrightarrow> \<not> sem p x))"
    and not_unary: "opNOT (Operators d) = Some f \<Longrightarrow> callFunction f [a, b] \<noteq> Ok v"
    and binary_only: "opAND (Operators d) = Some f \<or> opOR (Operators d) = Some f \<Longrightarrow>
      callFunction f [a] \<noteq> Ok v"
    and no_comparison: "opEQ (Operators d) = None" "opNEQ (Operators d) = None"
      "opLT (Operators d) = None" "opGT (Operators d) = None"
      "opLE (Operators d) = None" "opGE (Operators d) = None"
    and atoms_good: "Functions d n = Some f \<Longrightarrow> callFunction f vs = Ok v \<Longrightarrow> \<exists>p. v = VPred p \<and> good p"
    and no_identifiers: "GetIdentifier d = None" "GetProperty d = None"
begin

lemma leaf_good:
  "evaluateExpr L d e = Ok (VPred p) \<Longrightarrow> good p"
proof (cases e)
  case (CallExpr fn args)
  moreover assume "evaluateExpr L d e = Ok (VPred p)"
  ultimately show ?thesis
    by (fastforce simp: getFunction_def split: sum.splits option.splits dest: atoms_good)
next
  case (BasicLit k s)
  moreover assume "evaluateExpr L d e = Ok (VPred p)"
  ultimately show ?thesis
    by (cases k) (auto simp: map_sum_def split: sum.splits)
qed (auto simp: no_identifiers split: sum.splits)

lemma getJoinFunction_cases:
  assumes "getJoinFunction d op = Ok f"
  shows "op = LAND \<and> opAND (Operators d) = Some f \<or> op = LOR \<and> opOR (Operators d) = Some f
    \<or> op = NOT \<and> opNOT (Operators d) = Some f"
  using assms by (cases op) (auto simp: getJoinFunction_def no_comparison split: option.splits)

theorem parse_meaning:
  "parse L d e = Ok (VPred p) \<Longrightarrow> good p \<and> (\<forall>r. sem p r \<longleftrightarrow> bool_meaning d sem L e r)"
proof (induction e arbitrary: p)
  case (BinaryExpr x op y)
  from BinaryExpr.prems obtain vx vy f where
    v: "parse L d x = Ok vx" "parse L d y = Ok vy" and f: "getJoinFunction d op = Ok f"
    and c: "callFunction f [vx, vy] = Ok (VPred p)"
    by (auto simp: joinPredicates_def split: sum.splits)
  from getJoinFunction_cases [OF f] show ?case
  proof (elim disjE conjE)
    assume "op = LAND" "opAND (Operators d) = Some f"
    moreover from and_sound [OF this(2) c] obtain a b where "vx = VPred a" "vy = VPred b"
      "good a \<longrightarrow> good b \<longrightarrow> good p \<and> (\<forall>x. sem p x \<longleftrightarrow> sem a x \<and> sem b x)" by auto
    ultimately show ?thesis using BinaryExpr.IH v by auto
  next
    assume "op = LOR" "opOR (Operators d) = Some f"
    moreover from or_sound [OF this(2) c] obtain a b where "vx = VPred a" "vy = VPred b"
      "good a \<longrightarrow> good b \<longrightarrow> good p \<and> (\<forall>x. sem p x \<longleftrightarrow> sem a x \<or> sem b x)" by auto
    ultimately show ?thesis using BinaryExpr.IH v by auto
  next
    assume "op = NOT" "opNOT (Operators d) = Some f"
    with c not_unary show ?thesis by blast
  qed
next
  case (UnaryExpr op x)
  from UnaryExpr.prems obtain vx f where v: "parse L d x = Ok vx" and f: "getJoinFunction d op = Ok f"
    and c: "callFunction f [vx] = Ok (VPred p)"
    by (auto split: sum.splits)
  from getJoinFunction_cases [OF f] c binary_only have "op = NOT" "opNOT (Operators d) = Some f" by blast+
  with not_sound [OF this(2) c] obtain a where "vx = VPred a"
    "good a \<longrightarrow> good p \<and> (\<forall>x. sem p x \<longleftrightarrow> \<not> sem a x)" by auto
  with UnaryExpr.IH v show ?case by auto
qed (simp_all del: evaluateExpr.simps add: leaf_good)

end

end
