(* ===== verification/Rules.thy ===== *)
theory Rules
  imports PredicateLang Http
begin

text \<open>
  The package \<open>src/rules\<close>: the bypass-rule language. \<open>parser.go\<close> configures the
  predicate interpreter so that an expression builds a \<open>Tree\<close>, with negation pushed to
  the leaves; \<open>requestCondition.go\<close> compiles the tree into a tree of matchers over the
  request; \<open>httpFuncs.go\<close> has the matchers. A \<open>TreeBuilder\<close> is a function that builds
  a fresh tree; it is the tree it builds, \<open>None\<close> when building it dereferences a nil
  child. \<open>regexp.Compile\<close> with \<open>MatchString\<close> is the parameter \<open>re\<close>. Log lines are
  left out.
\<close>

section \<open>parser.go\<close>

datatype Tree = Tree (Matcher: string) (NotFlag: bool) (TValue: "string list")
  (RuleLeft: "Tree option") (RuleRight: "Tree option")

type_synonym TreeBuilder = "Tree option"

definition leaf_builder :: "string \<Rightarrow> string list \<Rightarrow> TreeBuilder" where
  "leaf_builder name vs = Some (Tree name False vs None None)"

definition andFunc :: "TreeBuilder \<Rightarrow> TreeBuilder \<Rightarrow> TreeBuilder" where
  "andFunc left right =
     (case (left, right) of
        (Some l, Some r) \<Rightarrow> Some (Tree ''and'' False [] (Some l) (Some r))
      | _ \<Rightarrow> None)"

definition orFunc :: "TreeBuilder \<Rightarrow> TreeBuilder \<Rightarrow> TreeBuilder" where
  "orFunc left right =
     (case (left, right) of
        (Some l, Some r) \<Rightarrow> Some (Tree ''or'' False [] (Some l) (Some r))
      | _ \<Rightarrow> None)"

text \<open>\<open>None\<close> is the nil dereference of \<open>invert(nil)\<close>.\<close>

fun invert :: "Tree \<Rightarrow> Tree option" where
  "invert (Tree m n v l r) =
     (if m = ''or'' \<or> m = ''and''
      then (case l of None \<Rightarrow> None | Some l' \<Rightarrow>
             (case invert l' of None \<Rightarrow> None | Some a \<Rightarrow>
                (case r of None \<Rightarrow> None | Some r' \<Rightarrow>
                   (case invert r' of None \<Rightarrow> None | Some b \<Rightarrow>
                      Some (Tree (if m = ''or'' then ''and'' else ''or'') n v (Some a) (Some b))))))
      else Some (Tree m (\<not> n) v l r))"

definition notFunc :: "TreeBuilder \<Rightarrow> TreeBuilder" where
  "notFunc t = (case t of None \<Rightarrow> None | Some t' \<Rightarrow> invert t')"

text \<open>The functions handed to the interpreter, with their reflected signatures.\<close>

definition strings_of :: "'p val list \<Rightarrow> string list" where
  "strings_of vs = map (\<lambda>v. case v of VString s \<Rightarrow> s | _ \<Rightarrow> []) vs"

definition matcher_fn :: "string \<Rightarrow> TreeBuilder gofunc" where
  "matcher_fn name =
     \<lparr>params = [], variadic = Some TString, body = (\<lambda>vs. Ret1 (VPred (leaf_builder name (strings_of vs))))\<rparr>"

definition pred_arg :: "TreeBuilder val \<Rightarrow> TreeBuilder" where
  "pred_arg v = (case v of VPred p \<Rightarrow> p | _ \<Rightarrow> None)"

definition binary_fn :: "(TreeBuilder \<Rightarrow> TreeBuilder \<Rightarrow> TreeBuilder) \<Rightarrow> TreeBuilder gofunc" where
  "binary_fn f =
     \<lparr>params = [TPred, TPred], variadic = None,
      body = (\<lambda>vs. Ret1 (VPred (f (pred_arg (vs ! 0)) (pred_arg (vs ! 1)))))\<rparr>"

definition unary_fn :: "(TreeBuilder \<Rightarrow> TreeBuilder) \<Rightarrow> TreeBuilder gofunc" where
  "unary_fn f =
     \<lparr>params = [TPred], variadic = None, body = (\<lambda>vs. Ret1 (VPred (f (pred_arg (vs ! 0)))))\<rparr>"

definition NewParser :: "string list \<Rightarrow> TreeBuilder Def" where
  "NewParser matchers =
     \<lparr>Operators = \<lparr>opEQ = None, opNEQ = None, opLT = None, opGT = None, opLE = None, opGE = None,
                   opOR = Some (binary_fn orFunc), opAND = Some (binary_fn andFunc),
                   opNOT = Some (unary_fn notFunc)\<rparr>,
      Functions = (\<lambda>n. if n \<in> set matchers then Some (matcher_fn n) else None),
      GetIdentifier = None, GetProperty = None\<rparr>"

definition lower :: "string list \<Rightarrow> string list" where
  "lower slice = map ToLower slice"

text \<open>\<open>None\<close> is again the dereference of a nil child.\<close>

fun ParseMatchers :: "string list \<Rightarrow> Tree \<Rightarrow> string list option" where
  "ParseMatchers matchers (Tree m n v l r) =
     (if m = ''and'' \<or> m = ''or''
      then (case l of None \<Rightarrow> None | Some l' \<Rightarrow>
             (case ParseMatchers matchers l' of None \<Rightarrow> None | Some a \<Rightarrow>
                (case r of None \<Rightarrow> None | Some r' \<Rightarrow> map_option ((@) a) (ParseMatchers matchers r'))))
      else Some (if m \<in> set matchers then lower v else []))"

definition CheckRule :: "Tree \<Rightarrow> unit result" where
  "CheckRule rule =
     (if length (TValue rule) = 0 then Err (''no args for matcher '' @ Matcher rule)
      else if [] \<in> set (TValue rule) then Err (''empty args for matcher '' @ Matcher rule)
      else Ok ())"

section \<open>httpFuncs.go\<close>

datatype requestConditionTree = RCT (matcher: "(request \<Rightarrow> bool) option") (operator: string)
  (left: "requestConditionTree option") (right: "requestConditionTree option")

type_synonym regexp = "string \<Rightarrow> (string \<Rightarrow> bool) result"
type_synonym matcherFunc = "requestConditionTree \<Rightarrow> string list \<Rightarrow> requestConditionTree result"

definition set_matcher :: "requestConditionTree \<Rightarrow> (request \<Rightarrow> bool) \<Rightarrow> requestConditionTree" where
  "set_matcher t f = RCT (Some f) (operator t) (left t) (right t)"

definition headerFunc :: matcherFunc where
  "headerFunc tree vs =
     (if length vs \<noteq> 2 then Err ''header-rule requires exactly two arguments''
      else Ok (set_matcher tree (\<lambda>req. Header_Get (Header req) (vs ! 0) = vs ! 1)))"

definition headerRegexpFunc :: "regexp \<Rightarrow> matcherFunc" where
  "headerRegexpFunc re tree vs =
     (if length vs \<noteq> 2 then Err ''header regexp-rule requires exactly two arguments''
      else case re (vs ! 1) of Inl e \<Rightarrow> Err e
        | Inr rx \<Rightarrow> Ok (set_matcher tree (\<lambda>req. rx (Header_Get (Header req) (vs ! 0)))))"

definition pathFunc :: matcherFunc where
  "pathFunc tree vs =
     (if length vs \<noteq> 1 then Err ''path-rule requires exactly one argument''
      else Ok (set_matcher tree (\<lambda>req. Path (URL req) = vs ! 0)))"

definition pathPrefixFunc :: matcherFunc where
  "pathPrefixFunc tree vs =
     (if length vs \<noteq> 1 then Err ''path prefix-rule requires exactly one argument''
      else Ok (set_matcher tree (\<lambda>req. HasPrefix (Path (URL req)) (vs ! 0))))"

definition pathRegexpFunc :: "regexp \<Rightarrow> matcherFunc" where
  "pathRegexpFunc re tree vs =
     (if length vs \<noteq> 1 then Err ''path regexp-rule requires exactly one argument''
      else case re (vs ! 0) of Inl e \<Rightarrow> Err e
        | Inr rx \<Rightarrow> Ok (set_matcher tree (\<lambda>req. rx (Path (URL req)))))"

definition methodFunc :: matcherFunc where
  "methodFunc tree vs =
     (if length vs \<noteq> 1 then Err ''method-rule requires exactly one argument''
      else Ok (set_matcher tree (\<lambda>req. Method req = vs ! 0)))"

definition queryFunc :: matcherFunc where
  "queryFunc tree vs =
     (if length vs \<noteq> 2 then Err ''query-rule requires exactly two arguments''
      else Ok (set_matcher tree (\<lambda>req. Query_Get req (vs ! 0) = vs ! 1)))"

definition queryRegexpFunc :: "regexp \<Rightarrow> matcherFunc" where
  "queryRegexpFunc re tree vs =
     (if length vs \<noteq> 2 then Err ''query regexp-rule requires exactly two arguments''
      else case re (vs ! 1) of Inl e \<Rightarrow> Err e
        | Inr rx \<Rightarrow> Ok (set_matcher tree (\<lambda>req. rx (Query_Get req (vs ! 0)))))"

definition hostFunc :: matcherFunc where
  "hostFunc tree vs =
     (if length vs \<noteq> 1 then Err ''host-rule requires exactly one argument''
      else Ok (set_matcher tree (\<lambda>req. Host req = vs ! 0)))"

definition hostRegexpFunc :: "regexp \<Rightarrow> matcherFunc" where
  "hostRegexpFunc re tree vs =
     (if length vs \<noteq> 1 then Err ''host regexp-rule requires exactly one argument''
      else case re (vs ! 0) of Inl e \<Rightarrow> Err e
        | Inr rx \<Rightarrow> Ok (set_matcher tree (\<lambda>req. rx (Host req))))"

definition httpFuncs :: "regexp \<Rightarrow> (string \<times> matcherFunc) list" where
  "httpFuncs re =
     [(''Header'', headerFunc), (''HeaderRegexp'', headerRegexpFunc re),
      (''PathPrefix'', pathPrefixFunc), (''Path'', pathFunc), (''PathRegexp'', pathRegexpFunc re),
      (''Method'', methodFunc), (''Query'', queryFunc), (''QueryRegexp'', queryRegexpFunc re),
      (''Host'', hostFunc), (''HostRegexp'', hostRegexpFunc re)]"

section \<open>requestCondition.go\<close>

text \<open>A nil tree and an unknown operator do not match.\<close>

fun match :: "requestConditionTree option \<Rightarrow> request \<Rightarrow> bool" where
  "match None req = False"
| "match (Some (RCT f op l r)) req =
     (case f of
        Some g \<Rightarrow> g req
      | None \<Rightarrow> if op = ''or'' then match l req \<or> match r req
                else if op = ''and'' then match l req \<and> match r req
                else False)"

text \<open>
  \<open>addRule\<close>: the outer \<open>None\<close> is a panic, a nil child of an operator node or a matcher
  name with no function.
\<close>

definition empty_tree :: requestConditionTree where
  "empty_tree = RCT None [] None None"

definition add_leaf :: "(string \<times> matcherFunc) list \<Rightarrow> requestConditionTree \<Rightarrow> Tree \<Rightarrow>
    requestConditionTree result option" where
  "add_leaf funcs m rule =
     (case CheckRule rule of Inl e \<Rightarrow> Some (Err e) | Inr _ \<Rightarrow>
        (case map_of funcs (Matcher rule) of None \<Rightarrow> None | Some fn \<Rightarrow>
           Some (case fn m (TValue rule) of Inl e \<Rightarrow> Err e | Inr m' \<Rightarrow>
             if NotFlag rule
             then Ok (RCT (map_option (\<lambda>g req. \<not> g req) (matcher m')) (operator m') (left m') (right m'))
             else Ok m')))"

fun addRule :: "(string \<times> matcherFunc) list \<Rightarrow> requestConditionTree \<Rightarrow> Tree \<Rightarrow>
    requestConditionTree result option" where
  "addRule funcs m (Tree mt n v l r) =
     (if mt = ''and'' \<or> mt = ''or''
      then (case l of None \<Rightarrow> None | Some l' \<Rightarrow>
             (case addRule funcs empty_tree l' of
                None \<Rightarrow> None
              | Some (Inl e) \<Rightarrow> Some (Err e)
              | Some (Inr lt) \<Rightarrow>
                  (case r of None \<Rightarrow> None | Some r' \<Rightarrow>
                     (case addRule funcs empty_tree r' of
                        None \<Rightarrow> None
                      | Some (Inl e) \<Rightarrow> Some (Err e)
                      | Some (Inr rt) \<Rightarrow> Some (Ok (RCT (matcher m) mt (Some lt) (Some rt)))))))
      else add_leaf funcs m (Tree mt n v l r))"

definition ParseRequestCondition ::
  "(string \<Rightarrow> expr result) \<Rightarrow> literals \<Rightarrow> regexp \<Rightarrow> string \<Rightarrow> (request \<Rightarrow> bool) result option" where
  "ParseRequestCondition ParseExpr L re rule =
     (let parser = NewParser (map fst (httpFuncs re))
      in case Parse ParseExpr L parser rule of
           Inl e \<Rightarrow> Some (Err e)
         | Inr v \<Rightarrow>
             (case v of
                VPred buildTree \<Rightarrow>
                  (case buildTree of None \<Rightarrow> None | Some tree \<Rightarrow>
                     (case addRule (httpFuncs re) empty_tree tree of
                        None \<Rightarrow> None
                      | Some (Inl e) \<Rightarrow> Some (Err e)
                      | Some (Inr m) \<Rightarrow> Some (Ok (match (Some m)))))
              | _ \<Rightarrow> Some (Err (''error while parsing rule '' @ rule))))"

section \<open>What a rule means\<close>

text \<open>
  The specification: a rule is a boolean expression over atoms, and an atom compares one
  part of the request with its arguments.
\<close>

definition rx_match :: "regexp \<Rightarrow> string \<Rightarrow> string \<Rightarrow> bool" where
  "rx_match re pat s = (case re pat of Inl _ \<Rightarrow> False | Inr rx \<Rightarrow> rx s)"

definition request_atom :: "regexp \<Rightarrow> string \<Rightarrow> string list \<Rightarrow> request \<Rightarrow> bool" where
  "request_atom re name vs req =
     (case vs of
        [a] \<Rightarrow>
          (name = ''Path'' \<and> Path (URL req) = a)
          \<or> (name = ''PathPrefix'' \<and> HasPrefix (Path (URL req)) a)
          \<or> (name = ''PathRegexp'' \<and> rx_match re a (Path (URL req)))
          \<or> (name = ''Method'' \<and> Method req = a)
          \<or> (name = ''Host'' \<and> Host req = a)
          \<or> (name = ''HostRegexp'' \<and> rx_match re a (Host req))
      | [a, b] \<Rightarrow>
          (name = ''Header'' \<and> Header_Get (Header req) a = b)
          \<or> (name = ''HeaderRegexp'' \<and> rx_match re b (Header_Get (Header req) a))
          \<or> (name = ''Query'' \<and> Query_Get req a = b)
          \<or> (name = ''QueryRegexp'' \<and> rx_match re b (Query_Get req a))
      | _ \<Rightarrow> False)"

text \<open>The string arguments of a call, when they all are string literals.\<close>

fun string_args :: "literals \<Rightarrow> expr list \<Rightarrow> string list option" where
  "string_args L [] = Some []"
| "string_args L (BasicLit STRING s # as) =
     (case Unquote L s of Inl _ \<Rightarrow> None | Inr v \<Rightarrow> map_option ((#) v) (string_args L as))"
| "string_args L _ = None"

fun rule_meaning :: "literals \<Rightarrow> regexp \<Rightarrow> expr \<Rightarrow> request \<Rightarrow> bool" where
  "rule_meaning L re (BinaryExpr x op y) req =
     (case op of LAND \<Rightarrow> rule_meaning L re x req \<and> rule_meaning L re y req
      | LOR \<Rightarrow> rule_meaning L re x req \<or> rule_meaning L re y req
      | _ \<Rightarrow> False)"
| "rule_meaning L re (ParenExpr x) req = rule_meaning L re x req"
| "rule_meaning L re (UnaryExpr op x) req = (\<not> rule_meaning L re x req)"
| "rule_meaning L re (CallExpr fn args) req =
     (case (fn, string_args L args) of
        (Ident name, Some vs) \<Rightarrow> request_atom re name vs req
      | _ \<Rightarrow> False)"
| "rule_meaning L re _ req = False"

section \<open>The tree built for a rule\<close>

text \<open>An operator node has both children.\<close>

fun wf_tree :: "Tree \<Rightarrow> bool" where
  "wf_tree (Tree m n v l r) =
     (if m = ''and'' \<or> m = ''or''
      then (case l of None \<Rightarrow> False | Some l' \<Rightarrow> wf_tree l') \<and> (case r of None \<Rightarrow> False | Some r' \<Rightarrow> wf_tree r')
      else True)"

fun tree_names :: "Tree \<Rightarrow> string set" where
  "tree_names (Tree m n v l r) =
     (if m = ''and'' \<or> m = ''or''
      then (case l of None \<Rightarrow> {} | Some l' \<Rightarrow> tree_names l') \<union> (case r of None \<Rightarrow> {} | Some r' \<Rightarrow> tree_names r')
      else {m})"

fun tree_sem :: "(string \<Rightarrow> string list \<Rightarrow> request \<Rightarrow> bool) \<Rightarrow> Tree \<Rightarrow> request \<Rightarrow> bool" where
  "tree_sem atom (Tree m n v l r) req =
     (if m = ''and'' then
        (case l of None \<Rightarrow> False | Some l' \<Rightarrow> tree_sem atom l' req)
        \<and> (case r of None \<Rightarrow> False | Some r' \<Rightarrow> tree_sem atom r' req)
      else if m = ''or'' then
        (case l of None \<Rightarrow> False | Some l' \<Rightarrow> tree_sem atom l' req)
        \<or> (case r of None \<Rightarrow> False | Some r' \<Rightarrow> tree_sem atom r' req)
      else atom m v req \<noteq> n)"

lemma invert_wf:
  "wf_tree t \<Longrightarrow> \<exists>t'. invert t = Some t' \<and> wf_tree t' \<and> tree_names t' = tree_names t
     \<and> (\<forall>atom req. tree_sem atom t' req \<longleftrightarrow> \<not> tree_sem atom t req)"
proof (induction t rule: invert.induct)
  case (1 m n v l r)
  show ?case
  proof (cases "m = ''or'' \<or> m = ''and''")
    case True
    with "1.prems" obtain l' r' where lr: "l = Some l'" "r = Some r'" "wf_tree l'" "wf_tree r'"
      by (auto split: option.splits)
    from "1.IH"(1) [OF True lr(1,3)] obtain a where a: "invert l' = Some a" "wf_tree a"
      "tree_names a = tree_names l'" "\<And>atom req. tree_sem atom a req \<longleftrightarrow> \<not> tree_sem atom l' req" by blast
    from "1.IH"(2) [OF True lr(1) a(1) lr(2,4)] obtain b where b: "invert r' = Some b" "wf_tree b"
      "tree_names b = tree_names r'" "\<And>atom req. tree_sem atom b req \<longleftrightarrow> \<not> tree_sem atom r' req" by blast
    from True lr a b show ?thesis by auto
  next
    case False
    then show ?thesis by auto
  qed
qed

definition good_builder :: "string set \<Rightarrow> TreeBuilder \<Rightarrow> bool" where
  "good_builder names p \<longleftrightarrow> (\<exists>t. p = Some t \<and> wf_tree t \<and> tree_names t \<subseteq> names)"

definition builder_sem :: "(string \<Rightarrow> string list \<Rightarrow> request \<Rightarrow> bool) \<Rightarrow> TreeBuilder \<Rightarrow> request \<Rightarrow> bool" where
  "builder_sem atom p req = (case p of None \<Rightarrow> False | Some t \<Rightarrow> tree_sem atom t req)"

lemma notFunc_good:
  "good_builder N p \<Longrightarrow> good_builder N (notFunc p) \<and> builder_sem atom (notFunc p) req = (\<not> builder_sem atom p req)"
  using invert_wf by (fastforce simp: good_builder_def notFunc_def builder_sem_def)

lemma andFunc_good:
  "good_builder N p \<Longrightarrow> good_builder N q \<Longrightarrow>
     good_builder N (andFunc p q) \<and> builder_sem atom (andFunc p q) req = (builder_sem atom p req \<and> builder_sem atom q req)"
  by (auto simp: good_builder_def andFunc_def builder_sem_def)

lemma orFunc_good:
  "good_builder N p \<Longrightarrow> good_builder N q \<Longrightarrow>
     good_builder N (orFunc p q) \<and> builder_sem atom (orFunc p q) req = (builder_sem atom p req \<or> builder_sem atom q req)"
  by (auto simp: good_builder_def orFunc_def builder_sem_def)

lemma call_binary_fn:
  "callFunction (binary_fn f) args = Ok v \<longleftrightarrow> (\<exists>p q. args = [VPred p, VPred q] \<and> v = VPred (f p q))"
  by (cases args rule: remdups_adj.cases)
    (auto simp: callFunction_def args_ok_def binary_fn_def pred_arg_def list_all2_Cons2)

lemma call_unary_fn:
  "callFunction (unary_fn f) args = Ok v \<longleftrightarrow> (\<exists>p. args = [VPred p] \<and> v = VPred (f p))"
  by (auto simp: callFunction_def args_ok_def unary_fn_def pred_arg_def list_all2_Cons2)

lemma call_matcher_fn:
  "callFunction (matcher_fn name) args = Ok v \<longleftrightarrow>
     (\<exists>ss. args = map VString ss \<and> v = VPred (leaf_builder name ss))"
proof -
  have "list_all (\<lambda>v. assignable v TString) args \<longleftrightarrow> args = map VString (strings_of args)"
    for args :: "TreeBuilder val list"
    by (induction args) (auto simp: strings_of_def)
  moreover have "strings_of (map VString ss :: TreeBuilder val list) = ss" for ss
    by (simp add: strings_of_def comp_def)
  ultimately show ?thesis
    by (auto simp: callFunction_def args_ok_def matcher_fn_def)
qed

lemma httpFuncs_names:
  "map fst (httpFuncs re) = [''Header'', ''HeaderRegexp'', ''PathPrefix'', ''Path'', ''PathRegexp'',
     ''Method'', ''Query'', ''QueryRegexp'', ''Host'', ''HostRegexp'']"
  by (simp add: httpFuncs_def)

text \<open>The rule package's operators meet the contract of the interpreter.\<close>

interpretation rules: boolean_language "NewParser (map fst (httpFuncs re))" "builder_sem atom"
  "good_builder (set (map fst (httpFuncs re)))" for re atom
proof (unfold_locales, goal_cases)
  case (1 f a b v)
  then show ?case by (auto simp: NewParser_def call_binary_fn andFunc_good)
next
  case (2 f a b v)
  then show ?case by (auto simp: NewParser_def call_binary_fn orFunc_good)
next
  case (3 f a v)
  then show ?case by (auto simp: NewParser_def call_unary_fn notFunc_good)
next
  case (4 f a b v)
  then show ?case by (auto simp: NewParser_def call_unary_fn)
next
  case (5 f a v)
  then show ?case by (auto simp: NewParser_def call_binary_fn)
next
  case (12 n f vs v)
  then have "n \<in> set (map fst (httpFuncs re))" "f = matcher_fn n"
    by (auto simp: NewParser_def split: if_splits)
  moreover from this have "n \<noteq> ''and''" "n \<noteq> ''or''" unfolding httpFuncs_names by auto
  ultimately show ?case
    using 12 by (force simp: call_matcher_fn leaf_builder_def good_builder_def)
qed (simp_all add: NewParser_def)

section \<open>The matcher tree compiled from a tree\<close>

lemma length_1E: "length xs = Suc 0 \<Longrightarrow> (\<And>a. xs = [a] \<Longrightarrow> P) \<Longrightarrow> P"
  by (auto simp: length_Suc_conv)

lemma length_2E: "length xs = 2 \<Longrightarrow> (\<And>a b. xs = [a, b] \<Longrightarrow> P) \<Longrightarrow> P"
  by (auto simp: numeral_2_eq_2 length_Suc_conv)

lemmas matcher_defs = headerFunc_def headerRegexpFunc_def pathFunc_def pathPrefixFunc_def
  pathRegexpFunc_def methodFunc_def queryFunc_def queryRegexpFunc_def hostFunc_def hostRegexpFunc_def
  set_matcher_def

definition sets_matcher :: "matcherFunc \<Rightarrow> (string list \<Rightarrow> request \<Rightarrow> bool) \<Rightarrow> bool" where
  "sets_matcher f g \<longleftrightarrow> (\<forall>m vs m'. f m vs = Ok m' \<longrightarrow> matcher m' = Some (g vs))"

lemma sets_matcher_atoms:
  "sets_matcher headerFunc (request_atom re ''Header'')"
  "sets_matcher (headerRegexpFunc re) (request_atom re ''HeaderRegexp'')"
  "sets_matcher pathPrefixFunc (request_atom re ''PathPrefix'')"
  "sets_matcher pathFunc (request_atom re ''Path'')"
  "sets_matcher (pathRegexpFunc re) (request_atom re ''PathRegexp'')"
  "sets_matcher methodFunc (request_atom re ''Method'')"
  "sets_matcher queryFunc (request_atom re ''Query'')"
  "sets_matcher (queryRegexpFunc re) (request_atom re ''QueryRegexp'')"
  "sets_matcher hostFunc (request_atom re ''Host'')"
  "sets_matcher (hostRegexpFunc re) (request_atom re ''HostRegexp'')"
  by (auto simp: sets_matcher_def matcher_defs request_atom_def rx_match_def
      split: if_splits sum.splits elim!: length_1E length_2E)

lemma map_of_httpFuncs:
  assumes "map_of (httpFuncs re) n = Some f" "f m vs = Ok m'"
  shows "matcher m' = Some (request_atom re n vs)"
proof -
  from assms(1) have "sets_matcher f (request_atom re n)"
    by (auto simp: httpFuncs_def sets_matcher_atoms split: if_splits)
  with assms(2) show ?thesis by (simp add: sets_matcher_def)
qed

lemma add_leaf_match:
  assumes "add_leaf (httpFuncs re) m t = Some (Ok m')"
  shows "match (Some m') req \<longleftrightarrow> request_atom re (Matcher t) (TValue t) req \<noteq> NotFlag t"
proof -
  from assms obtain f m1 where f: "map_of (httpFuncs re) (Matcher t) = Some f" "f m (TValue t) = Ok m1"
    and m': "m' = (if NotFlag t then RCT (map_option (\<lambda>g req. \<not> g req) (matcher m1)) (operator m1) (left m1) (right m1) else m1)"
    by (auto simp: add_leaf_def split: sum.splits option.splits if_splits)
  from map_of_httpFuncs [OF f] m' show ?thesis by (cases m1; cases "NotFlag t") simp_all
qed

lemma addRule_match:
  "addRule (httpFuncs re) m t = Some (Ok m') \<Longrightarrow> matcher m = None \<Longrightarrow>
     match (Some m') req \<longleftrightarrow> tree_sem (request_atom re) t req"
proof (induction "httpFuncs re" m t arbitrary: m' rule: addRule.induct)
  case (1 m mt n v l r)
  show ?case
  proof (cases "mt = ''and'' \<or> mt = ''or''")
    case True
    with "1.prems" obtain l' r' lt rt where lr: "l = Some l'" "r = Some r'"
      and a: "addRule (httpFuncs re) empty_tree l' = Some (Ok lt)" "addRule (httpFuncs re) empty_tree r' = Some (Ok rt)"
      and m': "m' = RCT None mt (Some lt) (Some rt)"
      by (auto split: option.splits sum.splits)
    have "match (Some lt) req \<longleftrightarrow> tree_sem (request_atom re) l' req"
      using "1.hyps"(1) [OF True lr(1)] a(1) by (simp add: empty_tree_def)
    moreover have "match (Some rt) req \<longleftrightarrow> tree_sem (request_atom re) r' req"
      using "1.hyps"(2) [OF True lr(1) a(1) refl lr(2)] a(2) by (simp add: empty_tree_def)
    ultimately show ?thesis using True lr m' by auto
  next
    case False
    with "1.prems" add_leaf_match [of re m "Tree mt n v l r" m' req] show ?thesis by simp
  qed
qed

text \<open>A tree whose leaves name known matchers never makes \<open>addRule\<close> panic.\<close>

lemma addRule_no_panic:
  "wf_tree t \<Longrightarrow> tree_names t \<subseteq> fst ` set funcs \<Longrightarrow> addRule funcs m t \<noteq> None"
proof (induction funcs m t rule: addRule.induct)
  case (1 funcs m mt n v l r)
  show ?case
  proof (cases "mt = ''and'' \<or> mt = ''or''")
    case True
    with "1.prems" obtain l' r' where lr: "l = Some l'" "r = Some r'" "wf_tree l'" "wf_tree r'"
      "tree_names l' \<subseteq> fst ` set funcs" "tree_names r' \<subseteq> fst ` set funcs"
      by (auto split: option.splits)
    from "1.IH"(1) [OF True lr(1,3,5)] obtain x where x: "addRule funcs empty_tree l' = Some x" by auto
    show ?thesis
    proof (cases x)
      case (Inr lt)
      with "1.IH"(2) [OF True lr(1) x Inr lr(2,4,6)] True lr x show ?thesis by (auto split: sum.splits)
    qed (use True lr x in auto)
  next
    case False
    with "1.prems" have "map_of funcs mt \<noteq> None" by (auto simp: map_of_eq_None_iff)
    with False show ?thesis by (auto simp: add_leaf_def split: sum.splits option.splits)
  qed
qed

section \<open>The syntactic meaning and the interpreter's\<close>

lemma evaluateExpr_VString:
  assumes "evaluateExpr L (NewParser ms) e = Ok (VString s)"
  shows "\<exists>t. e = BasicLit STRING t \<and> Unquote L t = Ok s"
proof (cases e)
  case (BasicLit k t)
  with assms show ?thesis by (cases k) (auto simp: map_sum_def split: sum.splits)
next
  case (CallExpr fn args)
  with assms show ?thesis
    by (auto simp: getFunction_def NewParser_def call_matcher_fn split: sum.splits option.splits if_splits)
qed (use assms in \<open>auto simp: NewParser_def split: sum.splits\<close>)

lemma evaluateArguments_strings:
  "evaluateArguments L (NewParser ms) args = Ok (map VString vs) \<Longrightarrow> string_args L args = Some vs"
proof (induction args arbitrary: vs)
  case (Cons a as)
  then obtain s ss where "vs = s # ss" "evaluateExpr L (NewParser ms) a = Ok (VString s)"
    "evaluateArguments L (NewParser ms) as = Ok (map VString ss)"
    by (auto split: sum.splits)
  with Cons.IH [of ss] evaluateExpr_VString [of L ms a s] show ?case by auto
qed auto

lemma getIdentifier_plain:
  assumes "getIdentifier fn = Ok n" "CHR ''.'' \<notin> set n"
  shows "fn = Ident n"
  using assms by (cases fn rule: getIdentifier.cases) (auto split: expr.splits)

lemma names_plain: "n \<in> set (map fst (httpFuncs re)) \<Longrightarrow> CHR ''.'' \<notin> set n \<and> n \<noteq> ''and'' \<and> n \<noteq> ''or''"
  unfolding httpFuncs_names by auto

lemma call_meaning:
  assumes "evaluateExpr L (NewParser (map fst (httpFuncs re))) (CallExpr fn args) = Ok (VPred p)"
  shows "builder_sem (request_atom re) p req \<longleftrightarrow> rule_meaning L re (CallExpr fn args) req"
proof -
  from assms obtain n vs where n: "getIdentifier fn = Ok n" "n \<in> set (map fst (httpFuncs re))"
    and vs: "evaluateArguments L (NewParser (map fst (httpFuncs re))) args = Ok (map VString vs)"
    and p: "p = leaf_builder n vs"
    by (auto simp: getFunction_def NewParser_def call_matcher_fn simp del: set_map
        split: sum.splits option.splits if_splits)
  from n names_plain have "fn = Ident n" by (blast intro: getIdentifier_plain)
  with vs p names_plain [OF n(2)] evaluateArguments_strings [OF vs] show ?thesis
    by (simp add: builder_sem_def leaf_builder_def)
qed

lemma bool_meaning_rule:
  "parse L (NewParser (map fst (httpFuncs re))) e = Ok (VPred p) \<Longrightarrow>
     bool_meaning (NewParser (map fst (httpFuncs re))) (builder_sem (request_atom re)) L e req
       \<longleftrightarrow> rule_meaning L re e req"
proof (induction e arbitrary: p)
  case (BinaryExpr x op y)
  let ?d = "NewParser (map fst (httpFuncs re))"
  from BinaryExpr.prems obtain vx vy f where v: "parse L ?d x = Ok vx" "parse L ?d y = Ok vy"
    and f: "getJoinFunction ?d op = Ok f" and c: "callFunction f [vx, vy] = Ok (VPred p)"
    by (auto simp: joinPredicates_def split: sum.splits)
  from rules.getJoinFunction_cases [OF f] c have "op = LAND \<or> op = LOR"
    by (auto simp: NewParser_def call_unary_fn)
  moreover from rules.getJoinFunction_cases [OF f] c obtain a b where "vx = VPred a" "vy = VPred b"
    by (auto simp: NewParser_def call_binary_fn call_unary_fn)
  ultimately show ?case using BinaryExpr.IH v by auto
next
  case (UnaryExpr op x)
  let ?d = "NewParser (map fst (httpFuncs re))"
  from UnaryExpr.prems obtain vx f where v: "parse L ?d x = Ok vx" and f: "getJoinFunction ?d op = Ok f"
    and c: "callFunction f [vx] = Ok (VPred p)"
    by (auto split: sum.splits)
  from rules.getJoinFunction_cases [OF f] c obtain a where "vx = VPred a"
    by (auto simp: NewParser_def call_binary_fn call_unary_fn)
  with UnaryExpr.IH v show ?case by auto
next
  case (CallExpr fn args)
  then have "evaluateExpr L (NewParser (map fst (httpFuncs re))) (CallExpr fn args) = Ok (VPred p)" by simp
  with call_meaning [OF this] show ?case by (simp del: evaluateExpr.simps rule_meaning.simps)
next
  case (BasicLit k t)
  then show ?case by (cases k) (auto simp: map_sum_def split: sum.splits)
qed (auto simp: NewParser_def split: sum.splits)

lemma addRule_top:
  assumes "good_builder (set (map fst (httpFuncs re))) p"
  obtains t where "p = Some t" "addRule (httpFuncs re) empty_tree t \<noteq> None"
  using assms addRule_no_panic [of _ "httpFuncs re" empty_tree] by (auto simp: good_builder_def)

section \<open>Properties\<close>

text \<open>
  C24. a bypass rule that is accepted at startup matches exactly the requests its boolean
  expression describes. Negation pushed to the leaves, the compilation to matchers and
  the operators of the interpreter do not change its meaning.
\<close>

theorem ParseRequestCondition_meaning:
  assumes "ParseRequestCondition PE L re rule = Some (Ok cond)"
  shows "\<exists>e. PE rule = Ok e \<and> (\<forall>req. cond req \<longleftrightarrow> rule_meaning L re e req)"
proof -
  let ?d = "NewParser (map fst (httpFuncs re))"
  from assms obtain e t m where e: "PE rule = Ok e" and p: "parse L ?d e = Ok (VPred (Some t))"
    and a: "addRule (httpFuncs re) empty_tree t = Some (Ok m)" and c: "cond = match (Some m)"
    by (auto simp: ParseRequestCondition_def Parse_def Let_def
        split: sum.splits val.splits option.splits)
  have "cond req \<longleftrightarrow> rule_meaning L re e req" for req
  proof -
    have "cond req \<longleftrightarrow> tree_sem (request_atom re) t req"
      using addRule_match [OF a] c by (simp add: empty_tree_def)
    also have "\<dots> \<longleftrightarrow> bool_meaning ?d (builder_sem (request_atom re)) L e req"
      using rules.parse_meaning [OF p, of "request_atom re"] by (simp add: builder_sem_def)
    also have "\<dots> \<longleftrightarrow> rule_meaning L re e req"
      by (rule bool_meaning_rule [OF p])
    finally show ?thesis .
  qed
  with e show ?thesis by blast
qed

text \<open>
  The rule \<open>PathPrefix(`/pub`) && !Method(`POST`)\<close> as the expression parser returns it,
  with literals unquoted by dropping the back quotes.
\<close>

definition demo_literals :: literals where
  "demo_literals = \<lparr>ParseFloat = (\<lambda>s. Ok s), Unquote = (\<lambda>s. Ok (butlast (tl s)))\<rparr>"

definition demo_ParseExpr :: "string \<Rightarrow> expr result" where
  "demo_ParseExpr s =
     Ok (BinaryExpr (CallExpr (Ident ''PathPrefix'') [BasicLit STRING ''`/pub`'']) LAND
       (UnaryExpr NOT (CallExpr (Ident ''Method'') [BasicLit STRING ''`POST`''])))"

lemma demo_rule_loads:
  "case ParseRequestCondition demo_ParseExpr demo_literals (\<lambda>_. Err []) ''r'' of Some (Inr c) \<Rightarrow> True | _ \<Rightarrow> False"
  by code_simp

theorem ParseRequestCondition_meaning_witness:
  "\<exists>cond e. ParseRequestCondition demo_ParseExpr demo_literals (\<lambda>_. Err []) ''r'' = Some (Ok cond)
     \<and> demo_ParseExpr ''r'' = Ok e
     \<and> (\<forall>req. cond req \<longleftrightarrow> rule_meaning demo_literals (\<lambda>_. Err []) e req)"
proof -
  obtain cond where c: "ParseRequestCondition demo_ParseExpr demo_literals (\<lambda>_. Err []) ''r'' = Some (Ok cond)"
    using demo_rule_loads by (auto split: option.splits sum.splits)
  with ParseRequestCondition_meaning [OF c] show ?thesis by blast
qed

lemma rule_parser_total: "ParseRequestCondition PE L re rule \<noteq> None"
proof
  let ?d = "NewParser (map fst (httpFuncs re))"
  assume none: "ParseRequestCondition PE L re rule = None"
  then obtain e p where p: "parse L ?d e = Ok (VPred p)" 
    and n: "p = None \<or> (\<exists>t. p = Some t \<and> addRule (httpFuncs re) empty_tree t = None)"
    by (auto simp: ParseRequestCondition_def Parse_def Let_def
        split: sum.splits val.splits option.splits)
  from rules.parse_meaning [OF p] have "good_builder (set (map fst (httpFuncs re))) p" by simp
  then obtain t where "p = Some t" "addRule (httpFuncs re) empty_tree t \<noteq> None"
    by (rule addRule_top)
  with n show False by simp
qed

text \<open>
  C40. No rule text makes the parser panic. Whatever the rule, loading it returns a
  condition or an error; no nil child is dereferenced and no nil matcher function called.
\<close>

theorem ParseRequestCondition_no_panic: "ParseRequestCondition PE L re rule \<noteq> None"
  by (rule rule_parser_total)

end
