(* ===== verification/Instance.thy ===== *)
theory Instance
  imports Callback Rules
begin

text \<open>
  \<open>New\<close> of \<open>src/config.go\<close>: from a decoded configuration to a middleware instance. The
  configuration is expanded from the environment, migrated, validated and completed; every
  error return and every dereference of a nil pointer is a branch. A panic is \<open>None\<close>.

  The TLS pool and the HTTP client are not modelled beyond the errors of reading a CA
  bundle. Warnings are left out.
\<close>

section \<open>A configuration as it is decoded\<close>

text \<open>
  The pointers of \<open>config.Config\<close> that \<open>New\<close> or the request path dereference. The plain
  fields, and the two pointers that the request path tests for nil, are those of \<open>Ptr_Config\<close>.
\<close>

record config_ptrs =
  Ptr_Config :: Config
  Ptr_Provider :: "ProviderConfig option"
  Ptr_SessionCookie :: "SessionCookieConfig option"
  Ptr_Authorization :: "AuthorizationConfig option"
  Ptr_ErrorPages :: "(ErrorPageConfig option \<times> ErrorPageConfig option) option"

definition ptrs_of :: "Config \<Rightarrow> config_ptrs" where
  "ptrs_of c = \<lparr>Ptr_Config = c, Ptr_Provider = Some (Provider c), Ptr_SessionCookie = Some (SessionCookie c),
     Ptr_Authorization = Some (Authorization c),
     Ptr_ErrorPages = Some (Some (Unauthenticated (ErrorPages c)), Some (Unauthorized (ErrorPages c)))\<rparr>"

definition deref :: "config_ptrs \<Rightarrow> Config" where
  "deref p = (Ptr_Config p)\<lparr>
     Provider := (case Ptr_Provider p of Some v \<Rightarrow> v | None \<Rightarrow> Provider (Ptr_Config p)),
     SessionCookie := (case Ptr_SessionCookie p of Some v \<Rightarrow> v | None \<Rightarrow> SessionCookie (Ptr_Config p)),
     Authorization := (case Ptr_Authorization p of Some v \<Rightarrow> v | None \<Rightarrow> Authorization (Ptr_Config p)),
     ErrorPages := (case Ptr_ErrorPages p of
                      Some (Some a, Some b) \<Rightarrow> \<lparr>Unauthenticated = a, Unauthorized = b\<rparr>
                    | _ \<Rightarrow> ErrorPages (Ptr_Config p))\<rparr>"

text \<open>What the libraries and the operating system supply.\<close>

record sys =
  Os :: os
  Sys_Url :: url_ops
  ParseCIDR :: "string \<Rightarrow> IPNet result"
  ParseRSAPrivateKeyFromPEM :: "string \<Rightarrow> string result"
  Sys_Sha256 :: "string \<Rightarrow> string"
  Sys_TplParse :: "string \<Rightarrow> error option"
  ParseExpr :: "string \<Rightarrow> expr result"
  Literals :: literals
  Regexps :: regexp

section \<open>Expansion\<close>

definition and_then :: "'a result \<Rightarrow> ('a \<Rightarrow> 'b result) \<Rightarrow> 'b result" where
  "and_then r f = (case r of Inl e \<Rightarrow> Err e | Inr x \<Rightarrow> f x)"

definition expand_bool ::
  "os \<Rightarrow> (ProviderConfig \<Rightarrow> string) \<Rightarrow> (ProviderConfig \<Rightarrow> bool) \<Rightarrow> ((bool \<Rightarrow> bool) \<Rightarrow> ProviderConfig \<Rightarrow> ProviderConfig)
     \<Rightarrow> ProviderConfig \<Rightarrow> ProviderConfig result" where
  "expand_bool os txt flag upd p =
     and_then (ExpandEnvironmentVariableBoolean os (txt p) (flag p)) (\<lambda>b. Ok (upd (\<lambda>_. b) p))"

definition expand_uris :: "os \<Rightarrow> Config \<Rightarrow> Config" where
  "expand_uris os c =
     (let x = ExpandEnvironmentVariableString os;
          c1 = c\<lparr>Secret := x (Secret c), CallbackUri := x (CallbackUri c), LoginUri := x (LoginUri c),
            PostLoginRedirectUri := x (PostLoginRedirectUri c), LogoutUri := x (LogoutUri c),
            PostLogoutRedirectUri := x (PostLogoutRedirectUri c), FrontChannelLogoutUri := x (FrontChannelLogoutUri c),
            CookieNamePrefix := x (CookieNamePrefix c), UnauthenticatedBehavior := x (UnauthenticatedBehavior c),
            UnauthorizedBehavior := x (UnauthorizedBehavior c)\<rparr>;
          c2 = migrateAuthBehaviors c1
      in c2\<lparr>BypassAuthenticationRuleText := x (BypassAuthenticationRuleText c2)\<rparr>)"

definition expand_names :: "os \<Rightarrow> ProviderConfig \<Rightarrow> ProviderConfig" where
  "expand_names os p =
     (let x = ExpandEnvironmentVariableString os
      in p\<lparr>Provider_Url := x (Provider_Url p), ClientId := x (ClientId p), ClientSecret := x (ClientSecret p),
           ClientJwtPrivateKeyId := x (ClientJwtPrivateKeyId p), ClientJwtPrivateKey_Pem := x (ClientJwtPrivateKey_Pem p)\<rparr>)"

definition expand_flags :: "os \<Rightarrow> ProviderConfig \<Rightarrow> ProviderConfig result" where
  "expand_flags os p =
     (let x = ExpandEnvironmentVariableString os
      in and_then (expand_bool os UsePkce UsePkceBool UsePkceBool_update p) (\<lambda>p.
         and_then (expand_bool os UseClaimsFromUserInfo UseClaimsFromUserInfoBool UseClaimsFromUserInfoBool_update p) (\<lambda>p.
         and_then (expand_bool os ValidateIssuer ValidateIssuerBool ValidateIssuerBool_update p) (\<lambda>p.
         and_then (expand_bool os ValidateAudience ValidateAudienceBool ValidateAudienceBool_update
           (p\<lparr>ValidIssuer := x (ValidIssuer p)\<rparr>)) (\<lambda>p.
         and_then (expand_bool os ValidateNonce ValidateNonceBool ValidateNonceBool_update
           (p\<lparr>ValidAudience := x (ValidAudience p)\<rparr>)) (\<lambda>p.
         expand_bool os InsecureSkipVerify InsecureSkipVerifyBool InsecureSkipVerifyBool_update
           (if TokenClockSkewSeconds p < 0 then p\<lparr>TokenClockSkewSeconds := 60\<rparr> else p)))))))"

definition client_key :: "sys \<Rightarrow> ProviderConfig \<Rightarrow> string option result" where
  "client_key S p =
     (if ClientJwtPrivateKey_Pem p \<noteq> [] \<and> ClientJwtPrivateKeyId p \<noteq> []
      then and_then (ParseRSAPrivateKeyFromPEM S (ClientJwtPrivateKey_Pem p)) (\<lambda>k. Ok (Some k))
      else Ok None)"

definition expand_rest :: "os \<Rightarrow> ProviderConfig \<Rightarrow> ProviderConfig result" where
  "expand_rest os p =
     (let x = ExpandEnvironmentVariableString os
      in expand_bool os RevokeTokensOnLogout RevokeTokensOnLogoutBool RevokeTokensOnLogoutBool_update
           (p\<lparr>CABundle := x (CABundle p), CABundleFile := x (CABundleFile p), TokenValidation := x (TokenValidation p),
              RevokeTokensOnLogout := x (RevokeTokensOnLogout p)\<rparr>))"

definition expand_provider :: "sys \<Rightarrow> ProviderConfig \<Rightarrow> (ProviderConfig \<times> string option) result" where
  "expand_provider S p =
     and_then (expand_flags (Os S) (expand_names (Os S) p)) (\<lambda>p1.
     and_then (client_key S p1) (\<lambda>key.
     and_then (expand_rest (Os S) p1) (\<lambda>p2. Ok (p2, key))))"

fun proxy_nets :: "sys \<Rightarrow> string list \<Rightarrow> IPNet list result" where
  "proxy_nets S [] = Ok []"
| "proxy_nets S (proxy0 # proxies) =
     (let proxy = ExpandEnvironmentVariableString (Os S) proxy0
      in if proxy = [] then proxy_nets S proxies
         else case ParseCIDR S proxy of
                Inl e \<Rightarrow> Err (''invalid trustedProxies entry '' @ proxy @ '': '' @ e)
              | Inr network \<Rightarrow> and_then (proxy_nets S proxies) (\<lambda>ns. Ok (network # ns)))"

definition expand_page :: "os \<Rightarrow> ErrorPageConfig \<Rightarrow> ErrorPageConfig" where
  "expand_page os page = \<lparr>FilePath = ExpandEnvironmentVariableString os (FilePath page),
     RedirectTo = ExpandEnvironmentVariableString os (RedirectTo page)\<rparr>"

section \<open>Validation\<close>

text \<open>
  The three bounds are ranged over in a map, in no fixed order: when several are negative the
  error names one of them, here the first.
\<close>

definition negative_bound :: "Config \<Rightarrow> string option" where
  "negative_bound c =
     (if MaxSessionLifetimeSeconds c < 0 then Some ''max_session_lifetime_seconds''
      else if SessionIdleTimeoutSeconds c < 0 then Some ''session_idle_timeout_seconds''
      else if MaxAuthAgeSeconds (Provider c) < 0 then Some ''provider.max_auth_age_seconds''
      else None)"

definition default_timeout :: "Config \<Rightarrow> Config" where
  "default_timeout c =
     (if OidcTimeoutSeconds (Provider c) \<le> 0 then c\<lparr>Provider := (Provider c)\<lparr>OidcTimeoutSeconds := 30\<rparr>\<rparr> else c)"

definition default_prefix :: "sys \<Rightarrow> Config \<Rightarrow> Config" where
  "default_prefix S c =
     (if CookieNamePrefix c = []
      then c\<lparr>CookieNamePrefix := ''TraefikOidcAuth.'' @ hex_encode (take 4 (Sys_Sha256 S (ClientId (Provider c))))\<rparr> else c)"

text \<open>From the secret to the cookie prefix: the completed configuration and the two URLs.\<close>

definition check_settings :: "sys \<Rightarrow> Config \<Rightarrow> (Config \<times> url \<times> url) result" where
  "check_settings S c0 =
     (if Secret c0 = DefaultSecret then Err ''default secret is not allowed''
      else if length (Secret c0) \<noteq> 32 then Err ''invalid secret''
      else if CABundle (Provider c0) \<noteq> [] \<and> CABundleFile (Provider c0) \<noteq> []
      then Err ''you can only use an inline CABundle OR CABundleFile, not both''
      else
        (let c = (if Scopes c0 = [] then c0\<lparr>Scopes := [''openid'', ''profile'', ''email'']\<rparr> else c0); p = Provider c
         in and_then (ParseUrl (Sys_Url S) (Provider_Url p)) (\<lambda>parsedURL.
            and_then (UrlParse (Sys_Url S) (CallbackUri c)) (\<lambda>parsedCallbackURL.
              if float_less (TokenRenewalThreshold p) (Fin (1 / 2)) \<or> float_less (Fin 1) (TokenRenewalThreshold p) then Err ''invalid TokenRenewalThreshold''
              else if TokenValidation p \<notin> {''AccessToken'', ''IdToken'', ''Introspection''}
              then Err (''invalid provider.verification_token '' @ TokenValidation p)
              else if SessionStorageType c \<noteq> [] \<and> SessionStorageType c \<noteq> SessionStorageTypeCookie
              then Err (''invalid session_storage_type '' @ SessionStorageType c)
              else case negative_bound c of
                     Some name \<Rightarrow> Err (''invalid '' @ name)
                   | None \<Rightarrow> Ok (default_prefix S (default_timeout c), parsedURL, parsedCallbackURL)))))"

definition reserved_param :: "Config \<Rightarrow> string option" where
  "reserved_param c = find (\<lambda>k. k \<in> set reservedAuthorizationParams) (map fst (AuthorizationParams c))"

definition load_ca :: "sys \<Rightarrow> ProviderConfig \<Rightarrow> error option" where
  "load_ca S p =
     (if CABundle p \<noteq> []
      then (if HasPrefix (CABundle p) ''base64:'' \<and> StdEncoding_Decode (TrimPrefix (CABundle p) ''base64:'') = None
            then Some ''illegal base64 data'' else None)
      else if CABundleFile p \<noteq> []
      then (if ReadFile (Os S) (CABundleFile p) = None then Some ''open CA bundle'' else None)
      else None)"

fun check_headers :: "sys \<Rightarrow> HeaderConfig list \<Rightarrow> error option" where
  "check_headers S [] = None"
| "check_headers S (h # hs) =
     (if Header_Value h \<noteq> [] \<and> Header_Values h \<noteq> [] then Some ''invalid Header''
      else if Header_Value h \<noteq> []
      then (case Sys_TplParse S (Header_Value h) of
              Some e \<Rightarrow> Some (''invalid template in header '' @ Header_Name h @ '': '' @ e) | None \<Rightarrow> check_headers S hs)
      else if Header_Values h \<noteq> []
      then (case Sys_TplParse S (Header_Values h) of
              Some e \<Rightarrow> Some (''invalid template in header '' @ Header_Name h @ '': '' @ e) | None \<Rightarrow> check_headers S hs)
      else check_headers S hs)"

definition wildcards_enabled :: "os \<Rightarrow> bool result" where
  "wildcards_enabled os =
     ExpandEnvironmentVariableBoolean os
       (case LookupEnv os ''TOA_ENABLE_REDIRECT_URI_WILDCARDS'' of None \<Rightarrow> [] | Some v \<Rightarrow> v) False"

definition load_rule :: "sys \<Rightarrow> Config \<Rightarrow> (request \<Rightarrow> bool) option result option" where
  "load_rule S c =
     (if BypassAuthenticationRuleText c = [] then Some (Ok None)
      else case ParseRequestCondition (ParseExpr S) (Literals S) (Regexps S) (BypassAuthenticationRuleText c) of
             None \<Rightarrow> None
           | Some r \<Rightarrow> Some (and_then r (\<lambda>rule. Ok (Some rule))))"

section \<open>Construction\<close>

text \<open>
  \<open>CatalogStub\<close> is the instance without a configuration that the plugin catalog's test data
  gets. \<open>New\<close> also returns the configuration, which it changes in place.
\<close>

record instance_fields =
  Inst_ProviderURL :: url
  Inst_ClientKey :: "string option"
  Inst_CallbackURL :: url
  Inst_Config :: config_ptrs
  Inst_Bypass :: "(request \<Rightarrow> bool) option"
  Inst_Wildcards :: bool

datatype middleware = CatalogStub | Instance instance_fields

definition write_back :: "config_ptrs \<Rightarrow> Config \<Rightarrow> config_ptrs" where
  "write_back p c = p\<lparr>Ptr_Config := c, Ptr_Provider := map_option (\<lambda>_. Provider c) (Ptr_Provider p),
     Ptr_ErrorPages := map_option (\<lambda>(a, b). (map_option (\<lambda>_. Unauthenticated (ErrorPages c)) a,
       map_option (\<lambda>_. Unauthorized (ErrorPages c)) b)) (Ptr_ErrorPages p)\<rparr>"

definition finish_instance ::
  "sys \<Rightarrow> config_ptrs \<Rightarrow> string option \<Rightarrow> Config \<Rightarrow> url \<Rightarrow> url \<Rightarrow> (middleware \<times> config_ptrs) result option" where
  "finish_instance S p key c parsedURL parsedCallbackURL =
     (case snd (parseCookieSameSiteChecked (SC_SameSite (SessionCookie c))) of
        Some e \<Rightarrow> Some (Err e)
      | None \<Rightarrow>
          (case reserved_param c of
             Some k \<Rightarrow> Some (Err (''reserved authorizationParams key '' @ k))
           | None \<Rightarrow>
               (case load_rule S c of
                  None \<Rightarrow> None
                | Some (Inl e) \<Rightarrow> Some (Err e)
                | Some (Inr rule) \<Rightarrow>
                    (case load_ca S (Provider c) of
                       Some e \<Rightarrow> Some (Err e)
                     | None \<Rightarrow>
                         (case check_headers S (Headers c) of
                            Some e \<Rightarrow> Some (Err e)
                          | None \<Rightarrow>
                              Some (and_then (wildcards_enabled (Os S)) (\<lambda>wild.
                                Ok (Instance \<lparr>Inst_ProviderURL = parsedURL, Inst_ClientKey = key,
                                      Inst_CallbackURL = parsedCallbackURL, Inst_Config = write_back p c,
                                      Inst_Bypass = rule, Inst_Wildcards = wild\<rparr>,
                                    write_back p c))))))))"

definition New :: "sys \<Rightarrow> config_ptrs \<Rightarrow> (middleware \<times> config_ptrs) result option" where
  "New S p =
     (let c0 = deref p; c1 = c0\<lparr>LogLevel := ExpandEnvironmentVariableString (Os S) (LogLevel c0)\<rparr>
      in if Ptr_Provider p = None then Some (Err ''missing provider configuration'')
         else if Provider_Url (Provider c1) = ''https://...'' then Some (Ok (CatalogStub, write_back p c1))
         else
           (let c2 = expand_uris (Os S) c1
            in case expand_provider S (Provider c2) of
                 Inl e \<Rightarrow> Some (Err e)
               | Inr (provider, key) \<Rightarrow>
                   (case proxy_nets S (TrustedProxies c2) of
                      Inl e \<Rightarrow> Some (Err e)
                    | Inr nets \<Rightarrow>
                        (case Ptr_ErrorPages p of
                           Some (Some unauthenticated, Some unauthorized) \<Rightarrow>
                             (let c3 = c2\<lparr>Provider := provider, TrustedProxyNets := TrustedProxyNets c2 @ nets,
                                  ErrorPages := \<lparr>Unauthenticated = expand_page (Os S) unauthenticated,
                                    Unauthorized = expand_page (Os S) unauthorized\<rparr>\<rparr>
                              in case check_settings S c3 of
                                   Inl e \<Rightarrow> Some (Err e)
                                 | Inr (c4, parsedURL, parsedCallbackURL) \<Rightarrow>
                                     if Ptr_SessionCookie p = None then None
                                     else finish_instance S p key c4 parsedURL parsedCallbackURL)
                         | _ \<Rightarrow> None))))"

section \<open>What a configuration has to be\<close>

definition header_ok :: "(string \<Rightarrow> error option) \<Rightarrow> HeaderConfig \<Rightarrow> bool" where
  "header_ok tpl h \<longleftrightarrow> (Header_Value h = [] \<or> Header_Values h = [])
     \<and> (Header_Value h = [] \<or> tpl (Header_Value h) = None) \<and> (Header_Values h = [] \<or> tpl (Header_Values h) = None)"

text \<open>The range test of \<open>New\<close> bounds every threshold but the one that is not a number.\<close>

definition threshold_ok :: "float64 \<Rightarrow> bool" where
  "threshold_ok x \<longleftrightarrow> (case x of Fin q \<Rightarrow> 1 / 2 \<le> q \<and> q \<le> 1 | NaN \<Rightarrow> True | _ \<Rightarrow> False)"

lemma threshold_ok_iff:
  "threshold_ok x \<longleftrightarrow> \<not> (float_less x (Fin (1 / 2)) \<or> float_less (Fin 1) x)"
  by (cases x) (auto simp: threshold_ok_def)

definition settings_ok :: "sys \<Rightarrow> Config \<Rightarrow> bool" where
  "settings_ok S c \<longleftrightarrow>
     length (Secret c) = 32 \<and> Secret c \<noteq> DefaultSecret
     \<and> TokenValidation (Provider c) \<in> {''AccessToken'', ''IdToken'', ''Introspection''}
     \<and> threshold_ok (TokenRenewalThreshold (Provider c))
     \<and> 0 \<le> MaxSessionLifetimeSeconds c \<and> 0 \<le> SessionIdleTimeoutSeconds c \<and> 0 \<le> MaxAuthAgeSeconds (Provider c)
     \<and> 0 < OidcTimeoutSeconds (Provider c) \<and> 0 \<le> TokenClockSkewSeconds (Provider c)
     \<and> CookieNamePrefix c \<noteq> [] \<and> Scopes c \<noteq> []
     \<and> UnauthenticatedBehavior c \<noteq> [] \<and> UnauthorizedBehavior c \<noteq> []
     \<and> list_all (\<lambda>kv. fst kv \<notin> set reservedAuthorizationParams) (AuthorizationParams c)
     \<and> list_all (header_ok (Sys_TplParse S)) (Headers c)"

lemma and_then_Ok: "and_then r f = Ok y \<longleftrightarrow> (\<exists>x. r = Ok x \<and> f x = Ok y)"
  by (cases r) (simp_all add: and_then_def)

lemma migrated_nonempty:
  "UnauthenticatedBehavior (migrateAuthBehaviors c) \<noteq> []" "UnauthorizedBehavior (migrateAuthBehaviors c) \<noteq> []"
  by (simp_all add: migrateAuthBehaviors_def Let_def)

lemma expand_uris_behaviors:
  "UnauthenticatedBehavior (expand_uris os c) \<noteq> []" "UnauthorizedBehavior (expand_uris os c) \<noteq> []"
  using migrated_nonempty by (simp_all add: expand_uris_def Let_def)

lemma expand_flags_skew: "expand_flags os p = Ok p' \<Longrightarrow> 0 \<le> TokenClockSkewSeconds p'"
  by (auto simp: expand_flags_def Let_def and_then_Ok expand_bool_def)

lemma expand_provider_skew: "expand_provider S p = Ok (p', key) \<Longrightarrow> 0 \<le> TokenClockSkewSeconds p'"
  by (auto simp: expand_provider_def and_then_Ok expand_rest_def Let_def expand_bool_def dest!: expand_flags_skew)

lemma check_headers_ok: "check_headers S hs = None \<Longrightarrow> list_all (header_ok (Sys_TplParse S)) hs"
  by (induction S hs rule: check_headers.induct) (auto simp: header_ok_def split: if_splits option.splits)

lemma negative_bound_None:
  "negative_bound c = None \<Longrightarrow> 0 \<le> MaxSessionLifetimeSeconds c \<and> 0 \<le> SessionIdleTimeoutSeconds c \<and> 0 \<le> MaxAuthAgeSeconds (Provider c)"
  by (simp add: negative_bound_def split: if_splits)

text \<open>The last two defaults, and what they leave alone.\<close>

lemma defaults_keep:
  "Secret (default_prefix S (default_timeout c)) = Secret c" "Scopes (default_prefix S (default_timeout c)) = Scopes c"
  "TokenValidation (Provider (default_prefix S (default_timeout c))) = TokenValidation (Provider c)"
  "TokenRenewalThreshold (Provider (default_prefix S (default_timeout c))) = TokenRenewalThreshold (Provider c)"
  "TokenClockSkewSeconds (Provider (default_prefix S (default_timeout c))) = TokenClockSkewSeconds (Provider c)"
  "MaxAuthAgeSeconds (Provider (default_prefix S (default_timeout c))) = MaxAuthAgeSeconds (Provider c)"
  "MaxSessionLifetimeSeconds (default_prefix S (default_timeout c)) = MaxSessionLifetimeSeconds c"
  "SessionIdleTimeoutSeconds (default_prefix S (default_timeout c)) = SessionIdleTimeoutSeconds c"
  "UnauthenticatedBehavior (default_prefix S (default_timeout c)) = UnauthenticatedBehavior c"
  "UnauthorizedBehavior (default_prefix S (default_timeout c)) = UnauthorizedBehavior c"
  "SessionCookie (default_prefix S (default_timeout c)) = SessionCookie c"
  "Authorization (default_prefix S (default_timeout c)) = Authorization c"
  by (simp_all add: default_prefix_def default_timeout_def)

lemma defaults_set:
  "CookieNamePrefix (default_prefix S c) \<noteq> []" "0 < OidcTimeoutSeconds (Provider (default_prefix S (default_timeout c)))"
  by (simp_all add: default_prefix_def default_timeout_def)

text \<open>What passes the checks, apart from the authorization parameters and the headers.\<close>

lemma check_settings_Ok:
  assumes "check_settings S c0 = Ok (c, u, v)"
  shows "length (Secret c) = 32 \<and> Secret c \<noteq> DefaultSecret"
    "TokenValidation (Provider c) \<in> {''AccessToken'', ''IdToken'', ''Introspection''}"
    "threshold_ok (TokenRenewalThreshold (Provider c))"
    "0 \<le> MaxSessionLifetimeSeconds c \<and> 0 \<le> SessionIdleTimeoutSeconds c \<and> 0 \<le> MaxAuthAgeSeconds (Provider c)"
    "0 < OidcTimeoutSeconds (Provider c)" "CookieNamePrefix c \<noteq> []" "Scopes c \<noteq> []"
    "TokenClockSkewSeconds (Provider c) = TokenClockSkewSeconds (Provider c0)"
    "UnauthenticatedBehavior c = UnauthenticatedBehavior c0" "UnauthorizedBehavior c = UnauthorizedBehavior c0"
    "SessionCookie c = SessionCookie c0" "Authorization c = Authorization c0"
proof -
  define c1 where "c1 = (if Scopes c0 = [] then c0\<lparr>Scopes := [''openid'', ''profile'', ''email'']\<rparr> else c0)"
  have same: "Scopes c1 \<noteq> []" "Secret c1 = Secret c0" "Provider c1 = Provider c0"
    "UnauthenticatedBehavior c1 = UnauthenticatedBehavior c0" "UnauthorizedBehavior c1 = UnauthorizedBehavior c0"
    "SessionCookie c1 = SessionCookie c0" "Authorization c1 = Authorization c0" by (simp_all add: c1_def)
  from assms have sec: "Secret c0 \<noteq> DefaultSecret" "length (Secret c0) = 32"
    and p: "threshold_ok (TokenRenewalThreshold (Provider c1))"
      "TokenValidation (Provider c1) \<in> {''AccessToken'', ''IdToken'', ''Introspection''}"
    and n: "negative_bound c1 = None" and c: "c = default_prefix S (default_timeout c1)"
    unfolding check_settings_def c1_def [symmetric] Let_def and_then_Ok
    by (auto simp: and_then_Ok threshold_ok_iff split: if_splits option.splits)
  note d = defaults_keep [of S c1, folded c] defaults_set [of S, folded c]
  show "length (Secret c) = 32 \<and> Secret c \<noteq> DefaultSecret" using sec by (simp add: d same)
  show "TokenValidation (Provider c) \<in> {''AccessToken'', ''IdToken'', ''Introspection''}" using p by (simp only: d)
  show "threshold_ok (TokenRenewalThreshold (Provider c))" using p by (simp add: d)
  show "0 \<le> MaxSessionLifetimeSeconds c \<and> 0 \<le> SessionIdleTimeoutSeconds c \<and> 0 \<le> MaxAuthAgeSeconds (Provider c)"
    using negative_bound_None [OF n] by (simp add: d)
  show "0 < OidcTimeoutSeconds (Provider c)" "CookieNamePrefix c \<noteq> []" unfolding c by (rule defaults_set)+
  show "Scopes c \<noteq> []" "TokenClockSkewSeconds (Provider c) = TokenClockSkewSeconds (Provider c0)"
    "UnauthenticatedBehavior c = UnauthenticatedBehavior c0" "UnauthorizedBehavior c = UnauthorizedBehavior c0"
    "SessionCookie c = SessionCookie c0" "Authorization c = Authorization c0"
    by (simp_all add: d same)
qed

text \<open>
  The hole in the range test: a configuration that passes the checks also passes them with a
  threshold that is not a number (and then never renews early, \<open>nan_never_renews\<close>).
\<close>

lemma nan_threshold_accepted:
  assumes "check_settings S c0 = Ok (c, u, v)"
  shows "\<exists>c'. check_settings S (c0\<lparr>Provider := (Provider c0)\<lparr>TokenRenewalThreshold := NaN\<rparr>\<rparr>) = Ok (c', u, v)
    \<and> TokenRenewalThreshold (Provider c') = NaN"
  using assms
  by (auto simp: check_settings_def Let_def and_then_Ok and_then_def defaults_keep negative_bound_def
      split: if_splits option.splits sum.splits)

lemma finish_instance_Ok:
  assumes "finish_instance S p key c u v = Some (Ok (m, p'))"
  shows "p' = write_back p c" "\<exists>i. m = Instance i \<and> Inst_Config i = p'"
    "list_all (\<lambda>kv. fst kv \<notin> set reservedAuthorizationParams) (AuthorizationParams c)"
    "list_all (header_ok (Sys_TplParse S)) (Headers c)"
proof -
  from assms obtain w where r: "reserved_param c = None" and h: "check_headers S (Headers c) = None"
    and m: "m = Instance w" "Inst_Config w = write_back p c" and p': "p' = write_back p c"
    by (auto simp: finish_instance_def and_then_Ok split: option.splits sum.splits)
  show "p' = write_back p c" by (rule p')
  show "\<exists>i. m = Instance i \<and> Inst_Config i = p'" using m p' by simp
  show "list_all (\<lambda>kv. fst kv \<notin> set reservedAuthorizationParams) (AuthorizationParams c)"
    using r by (auto simp: reserved_param_def find_None_iff list_all_iff)
  show "list_all (header_ok (Sys_TplParse S)) (Headers c)" by (rule check_headers_ok [OF h])
qed

lemma deref_write_back:
  assumes "Ptr_Provider p \<noteq> None" "Ptr_ErrorPages p = Some (Some a, Some b)"
    and "SessionCookie c = SessionCookie (deref p)" "Authorization c = Authorization (deref p)"
  shows "deref (write_back p c) = c"
  using assms by (auto simp: deref_def write_back_def split: option.splits)

lemma expand_uris_keeps:
  "SessionCookie (expand_uris os c) = SessionCookie c" "Authorization (expand_uris os c) = Authorization c"
  by (simp_all add: expand_uris_def Let_def migrateAuthBehaviors_def)

lemma New_Ok:
  assumes "New S p = Some (Ok (Instance i, p'))"
  shows "Inst_Config i = p'" "settings_ok S (deref p')"
proof -
  define c1 where "c1 = (deref p)\<lparr>LogLevel := ExpandEnvironmentVariableString (Os S) (LogLevel (deref p))\<rparr>"
  define c2 where "c2 = expand_uris (Os S) c1"
  from assms obtain provider key nets a b where x: "expand_provider S (Provider c2) = Ok (provider, key)"
    and e: "Ptr_ErrorPages p = Some (Some a, Some b)" "Ptr_Provider p \<noteq> None"
    and s: "(case check_settings S (c2\<lparr>Provider := provider, TrustedProxyNets := TrustedProxyNets c2 @ nets,
        ErrorPages := \<lparr>Unauthenticated = expand_page (Os S) a, Unauthorized = expand_page (Os S) b\<rparr>\<rparr>) of
          Inl e \<Rightarrow> Some (Err e)
        | Inr (c4, u, v) \<Rightarrow> if Ptr_SessionCookie p = None then None else finish_instance S p key c4 u v)
      = Some (Ok (Instance i, p'))"
    unfolding New_def Let_def c1_def [symmetric] c2_def [symmetric]
    by (auto split: if_splits sum.splits option.splits prod.splits)
  let ?c3 = "c2\<lparr>Provider := provider, TrustedProxyNets := TrustedProxyNets c2 @ nets,
        ErrorPages := \<lparr>Unauthenticated = expand_page (Os S) a, Unauthorized = expand_page (Os S) b\<rparr>\<rparr>"
  from s obtain c u v where k: "check_settings S ?c3 = Ok (c, u, v)" and f: "finish_instance S p key c u v = Some (Ok (Instance i, p'))"
    by (auto split: sum.splits if_splits)
  note k' = check_settings_Ok [OF k] and f' = finish_instance_Ok [OF f]
  have same: "SessionCookie c = SessionCookie (deref p)" "Authorization c = Authorization (deref p)"
    using k'(11,12) by (simp_all add: c2_def c1_def expand_uris_keeps)
  have d: "deref p' = c" unfolding f'(1) by (rule deref_write_back [OF e(2,1) same])
  show "Inst_Config i = p'" using f'(2) by simp
  have "UnauthenticatedBehavior c \<noteq> []" "UnauthorizedBehavior c \<noteq> []"
    using k'(9,10) by (simp_all add: c2_def expand_uris_behaviors)
  moreover have "0 \<le> TokenClockSkewSeconds (Provider c)" using k'(8) expand_provider_skew [OF x] by simp
  ultimately show "settings_ok S (deref p')"
    unfolding d settings_ok_def using k'(1-7) f'(3,4) by simp
qed

text \<open>The error branches of the handlers that a validated configuration closes.\<close>

lemma settings_token:
  "settings_ok S c \<Longrightarrow> callback_token (Provider c) t \<noteq> None \<and> is_ok (token_of (Provider c) v)"
  by (auto simp: settings_ok_def callback_token_def token_of_def)

lemma settings_key: "settings_ok S c \<Longrightarrow> aes_key_ok (Secret c)"
  by (simp add: settings_ok_def aes_key_ok_def)

lemma attach_one_total:
  "header_ok (TplParse E) hc \<Longrightarrow> is_ok (attach_one E ctx hc h)"
  by (auto simp: header_ok_def attach_one_def Let_def split: prod.split option.split)

lemma attach_loop_total:
  "list_all (header_ok (TplParse E)) hcs \<Longrightarrow> snd (attach_loop E ctx pub auth hcs h) = None"
proof (induction hcs arbitrary: h)
  case (Cons hc hcs)
  then have "is_ok (attach_one E ctx hc h)" by (simp add: attach_one_total)
  with Cons show ?case by (cases "attach_one E ctx hc h") auto
qed simp

text \<open>
  C19. A configuration that \<open>New\<close> accepts is usable: the secret is an AES key and not the
  published default, the bounds are in range, the renewal threshold lies between one half and
  one or is the not-a-number that YAML writes \<open>.nan\<close> and the range test lets through, the
  cookie prefix is not empty, no reserved authorization parameter is configured and every
  header template parses. The handlers' error branches for an unknown token kind and for a
  failing header template are then dead.
\<close>

theorem New_wellformed:
  assumes "New S p = Some (Ok (Instance i, p'))"
  shows "settings_ok S (deref (Inst_Config i)) \<and> aes_key_ok (Secret (deref (Inst_Config i)))
    \<and> (\<forall>t v. callback_token (Provider (deref (Inst_Config i))) t \<noteq> None \<and> is_ok (token_of (Provider (deref (Inst_Config i))) v))
    \<and> (\<forall>E ctx pub auth h. TplParse E = Sys_TplParse S \<longrightarrow>
         snd (attach_loop (E :: 'w env) ctx pub auth (Headers (deref (Inst_Config i))) h) = None)"
proof -
  from New_Ok [OF assms] have ok: "settings_ok S (deref (Inst_Config i))" by simp
  then have h: "list_all (header_ok (Sys_TplParse S)) (Headers (deref (Inst_Config i)))" by (simp add: settings_ok_def)
  show ?thesis
    using ok settings_key [OF ok] settings_token [OF ok] attach_loop_total h by (metis (no_types))
qed

text \<open>A machine without environment variables and with one file, and a minimal configuration for it.\<close>

definition demo_sys :: sys where
  "demo_sys = \<lparr>Os = \<lparr>LookupEnv = (\<lambda>_. None), ReadFile = (\<lambda>p. if p = ''config.yaml'' then Some ''ab'' else None)\<rparr>,
     Sys_Url = \<lparr>UrlParse = (\<lambda>s. Ok \<lparr>Scheme = ''https'', UHost = ''idp.example'', Path = s, RawQuery = []\<rparr>),
       UrlString = Path, UrlRequestURI = Path\<rparr>,
     ParseCIDR = (\<lambda>_. Err ''invalid CIDR address''), ParseRSAPrivateKeyFromPEM = (\<lambda>_. Err ''bad key''), Sys_Sha256 = (\<lambda>s. s),
     Sys_TplParse = (\<lambda>_. None), ParseExpr = demo_ParseExpr, Literals = demo_literals, Regexps = (\<lambda>_. Err [])\<rparr>"

definition demo_config :: "char \<Rightarrow> Config" where
  "demo_config k = CreateConfig\<lparr>Secret := replicate 32 k, CookieNamePrefix := [k],
     Provider := (Provider CreateConfig)\<lparr>Provider_Url := ''https://idp.example''\<rparr>\<rparr>"

lemma expand_plain: "\<not> HasPrefix s ''${'' \<Longrightarrow> ExpandEnvironmentVariableString os s = s"
  by (simp add: ExpandEnvironmentVariableString_def CutPrefix_def)

lemma expand_repeated [simp]: "ExpandEnvironmentVariableString os (replicate n k) = replicate n k"
proof (rule expand_plain)
  show "\<not> HasPrefix (replicate n k) ''${''"
    by (cases n; cases "n - 1") (auto simp: HasPrefix_def)
qed

lemma expand_empty_bool [simp]: "ExpandEnvironmentVariableBoolean os [] b = Ok b"
  by (simp add: ExpandEnvironmentVariableBoolean_def CutPrefix_def HasPrefix_def)

definition demo_provider :: ProviderConfig where
  "demo_provider = (Provider CreateConfig)\<lparr>Provider_Url := ''https://idp.example''\<rparr>"

definition demo_migrated :: "char \<Rightarrow> Config" where
  "demo_migrated k = migrateAuthBehaviors (demo_config k)"

lemma demo_migrated_fields:
  "Provider (demo_migrated k) = demo_provider" "TrustedProxies (demo_migrated k) = []" "Secret (demo_migrated k) = replicate 32 k"
  "Scopes (demo_migrated k) = []" "SessionStorageType (demo_migrated k) = []" "MaxSessionLifetimeSeconds (demo_migrated k) = 0"
  "SessionIdleTimeoutSeconds (demo_migrated k) = 0" "SC_SameSite (SessionCookie (demo_migrated k)) = ''lax''"
  "AuthorizationParams (demo_migrated k) = []" "BypassAuthenticationRuleText (demo_migrated k) = []" "Headers (demo_migrated k) = []"
  "CallbackUri (demo_migrated k) = ''/oidc/callback''" "CookieNamePrefix (demo_migrated k) = [k]"
  "TokenRenewalThreshold demo_provider = Fin (3 / 4)" "TokenValidation demo_provider = ''IdToken''" "CABundle demo_provider = []"
  "CABundleFile demo_provider = []" "MaxAuthAgeSeconds demo_provider = 0" "OidcTimeoutSeconds demo_provider = 30"
  "Provider_Url demo_provider = ''https://idp.example''"
  by (simp_all add: demo_migrated_def migrateAuthBehaviors_def Let_def demo_config_def CreateConfig_def demo_provider_def)

lemma demo_expanded:
  "deref (ptrs_of (demo_config k)) = demo_config k" "expand_uris (Os demo_sys) (demo_config k) = demo_migrated k"
  "expand_provider demo_sys demo_provider = Ok (demo_provider, None)" "Provider_Url (Provider (demo_config k)) = ''https://idp.example''"
  "(demo_config k)\<lparr>LogLevel := ExpandEnvironmentVariableString (Os demo_sys) (LogLevel (demo_config k))\<rparr> = demo_config k"
  by (simp_all add: expand_plain HasPrefix_def migrateAuthBehaviors_def deref_def ptrs_of_def expand_uris_def demo_migrated_def expand_provider_def expand_names_def expand_flags_def
      expand_rest_def client_key_def expand_bool_def and_then_def Let_def demo_provider_def CreateConfig_def demo_config_def)

lemma demo_finish:
  assumes "SessionCookie c = SessionCookie (demo_migrated k)" "AuthorizationParams c = []" "BypassAuthenticationRuleText c = []"
    "Headers c = []" "Provider c = demo_provider" "Secret c = replicate 32 k"
  shows "\<exists>i p'. finish_instance demo_sys p None c u v = Some (Ok (Instance i, p')) \<and> Ptr_Config p' = c
    \<and> Inst_Bypass i = None \<and> Inst_CallbackURL i = v"
proof -
  have "LookupEnv (Os demo_sys) x = None" for x by (simp add: demo_sys_def)
  then have w: "wildcards_enabled (Os demo_sys) = Ok False" by (simp add: wildcards_enabled_def)
  show ?thesis
    by (simp add: finish_instance_def assms demo_migrated_fields parseCookieSameSiteChecked_def reserved_param_def load_rule_def
        load_ca_def w and_then_def write_back_def)
qed

text \<open>The fields of the instance that routes and lookups of a session depend on.\<close>

definition demo_routes :: "instance_fields \<Rightarrow> Config \<Rightarrow> bool" where
  "demo_routes i c \<longleftrightarrow> Inst_Bypass i = None \<and> Path (Inst_CallbackURL i) = ''/oidc/callback'' \<and> LoginUri c = []
     \<and> FrontChannelLogoutUri c = ''/frontchannel-logout'' \<and> AuthorizationHeader c = Some [] \<and> AuthorizationCookie c = Some []"

lemma demo_New:
  "\<exists>i p'. New demo_sys (ptrs_of (demo_config k)) = Some (Ok (Instance i, p')) \<and> Secret (Ptr_Config p') = replicate 32 k
     \<and> demo_routes i (Ptr_Config p')"
proof -
  have sec: "replicate 32 k \<noteq> DefaultSecret" by (simp add: DefaultSecret_def numeral_eq_Suc)
  obtain url where u: "ParseUrl (Sys_Url demo_sys) ''https://idp.example'' = Ok url"
    by (simp add: ParseUrl_def demo_sys_def HasPrefix_def)
  obtain cb where cb: "UrlParse (Sys_Url demo_sys) ''/oidc/callback'' = Ok cb" "Path cb = ''/oidc/callback''"
    by (simp add: demo_sys_def)
  define c3 where "c3 = (demo_migrated k)\<lparr>Provider := demo_provider, TrustedProxyNets := TrustedProxyNets (demo_migrated k) @ [],
      ErrorPages := \<lparr>Unauthenticated = expand_page (Os demo_sys) (Unauthenticated (ErrorPages (demo_config k))),
        Unauthorized = expand_page (Os demo_sys) (Unauthorized (ErrorPages (demo_config k)))\<rparr>\<rparr>"
  define c4 where "c4 = c3\<lparr>Scopes := [''openid'', ''profile'', ''email'']\<rparr>"
  have s: "check_settings demo_sys c3 = Ok (c4, url, cb)"
    by (simp add: check_settings_def c3_def c4_def demo_migrated_fields sec Let_def u cb and_then_def negative_bound_def
        default_timeout_def default_prefix_def)
  have ptr: "Ptr_Provider (ptrs_of (demo_config k)) \<noteq> None" "Ptr_SessionCookie (ptrs_of (demo_config k)) \<noteq> None"
    "Ptr_ErrorPages (ptrs_of (demo_config k)) = Some (Some (Unauthenticated (ErrorPages (demo_config k))), Some (Unauthorized (ErrorPages (demo_config k))))"
    by (simp_all add: ptrs_of_def)
  have "\<exists>i p'. finish_instance demo_sys (ptrs_of (demo_config k)) None c4 url cb = Some (Ok (Instance i, p')) \<and> Ptr_Config p' = c4
      \<and> Inst_Bypass i = None \<and> Inst_CallbackURL i = cb"
    by (rule demo_finish) (simp_all add: c4_def c3_def demo_migrated_fields)
  moreover have "Secret c4 = replicate 32 k \<and> LoginUri c4 = [] \<and> FrontChannelLogoutUri c4 = ''/frontchannel-logout''
      \<and> AuthorizationHeader c4 = Some [] \<and> AuthorizationCookie c4 = Some []"
    by (simp add: c4_def c3_def demo_migrated_fields) (simp add: demo_migrated_def migrateAuthBehaviors_def Let_def demo_config_def CreateConfig_def)
  ultimately have "\<exists>i p'. finish_instance demo_sys (ptrs_of (demo_config k)) None c4 url cb = Some (Ok (Instance i, p'))
      \<and> Secret (Ptr_Config p') = replicate 32 k \<and> demo_routes i (Ptr_Config p')"
    using cb(2) unfolding demo_routes_def by blast
  then show ?thesis
    by (simp add: New_def Let_def demo_expanded demo_migrated_fields ptr) (use ptr in \<open>simp add: c3_def [simplified, symmetric] s\<close>)
qed

lemma demo_New_panics: "New demo_sys ((ptrs_of (demo_config k))\<lparr>Ptr_ErrorPages := None\<rparr>) = None"
proof -
  let ?p = "(ptrs_of (demo_config k))\<lparr>Ptr_ErrorPages := None\<rparr>"
  have d: "deref ?p = demo_config k" by (simp add: deref_def ptrs_of_def)
  have "Ptr_Provider ?p \<noteq> None" by (simp add: ptrs_of_def)
  then show ?thesis by (simp add: New_def Let_def d demo_expanded demo_migrated_fields)
qed

theorem New_wellformed_witness:
  "\<exists>i p'. New demo_sys (ptrs_of (demo_config CHR ''k'')) = Some (Ok (Instance i, p')) \<and> aes_key_ok (Secret (deref (Inst_Config i)))"
  using demo_New [of "CHR ''k''"] New_wellformed [where 'w = unit] by blast

lemma New_total:
  assumes "Ptr_SessionCookie p \<noteq> None" "Ptr_ErrorPages p = Some (Some a, Some b)"
  shows "New S p \<noteq> None"
proof -
  have rule: "load_rule S c \<noteq> None" for c
    using rule_parser_total [of "ParseExpr S" "Literals S" "Regexps S" "BypassAuthenticationRuleText c"]
    by (auto simp: load_rule_def split: option.splits)
  have "finish_instance S p key c u v \<noteq> None" for key c u v
    using rule [of c] by (auto simp: finish_instance_def split: option.splits sum.splits)
  with assms show ?thesis by (auto simp: New_def Let_def split: sum.splits prod.splits if_splits)
qed

end
