(* ===== verification/Tenants.thy ===== *)
theory Tenants
  imports Instance
begin

text \<open>
  The multi-client side of \<open>cmd/extauth-server\<close>: the configuration file with its clients
  (\<open>config_multi.go\<close>), the routing of hosts to clients (\<open>router.go\<close>), and loading and reloading
  (\<open>reload.go\<close>, \<open>doReload\<close> in \<open>watch.go\<close>).

  The YAML library is a parameter. Handlers are values of any type \<open>'h\<close>, and the factory that
  makes them is a parameter as it is in the code; \<open>New\<close> is the one the server uses. A panic
  is \<open>None\<close>. A Go map that is ranged over is an association list with distinct keys, in
  any order. The text of an error is shortened; what it names (client, host, file) is
  kept.
\<close>

section \<open>The configuration file\<close>

record clientEntry =
  ID :: string
  Hosts :: "string list"
  ClientConfig :: config_ptrs

record 'n yaml_ops =
  Unmarshal :: "string \<Rightarrow> 'n list result"
  DecodeMeta :: "'n \<Rightarrow> (string \<times> string list) result"
  DecodeConfig :: "'n \<Rightarrow> config_ptrs \<Rightarrow> config_ptrs result"

definition normalizeHost :: "string \<Rightarrow> string" where
  "normalizeHost host0 =
     (let host = TrimSpace (ToLower host0)
      in TrimSuffix (case SplitHostPort host of Some (h, _) \<Rightarrow> h | None \<Rightarrow> host) ''.'')"

definition rejectNilSubStructs :: "config_ptrs \<Rightarrow> error option" where
  "rejectNilSubStructs cfg =
     (if Ptr_Provider cfg = None then Some ''provider must not be null''
      else if Ptr_SessionCookie cfg = None then Some ''sessionCookie must not be null (omit the key to accept its defaults)''
      else if AuthorizationHeader (Ptr_Config cfg) = None
      then Some ''authorizationHeader must not be null (omit the key to accept its defaults)''
      else if AuthorizationCookie (Ptr_Config cfg) = None
      then Some ''authorizationCookie must not be null (omit the key to accept its defaults)''
      else if Ptr_Authorization cfg = None then Some ''authorization must not be null (omit the key to accept its defaults)''
      else case Ptr_ErrorPages cfg of
             None \<Rightarrow> Some ''errorPages must not be null (omit the key to accept its defaults)''
           | Some (None, _) \<Rightarrow> Some ''errorPages.unauthenticated must not be null (omit the key to accept its defaults)''
           | Some (Some _, None) \<Rightarrow> Some ''errorPages.unauthorized must not be null (omit the key to accept its defaults)''
           | Some (Some _, Some _) \<Rightarrow> None)"

definition client_error :: "nat \<Rightarrow> string \<Rightarrow> error \<Rightarrow> error" where
  "client_error i who e = ''clients['' @ Itoa (int i) @ '']'' @ (if who = [] then [] else '' ('' @ who @ '')'') @ '': '' @ e"

definition parse_client :: "'n yaml_ops \<Rightarrow> nat \<Rightarrow> 'n \<Rightarrow> clientEntry result" where
  "parse_client Y i node =
     (case DecodeMeta Y node of
        Inl e \<Rightarrow> Err (client_error i [] e)
      | Inr (cid, hosts) \<Rightarrow>
          if cid = [] then Err (client_error i [] ''id is required'')
          else if hosts = [] then Err (client_error i cid ''hosts must be non-empty'')
          else case DecodeConfig Y node (ptrs_of CreateConfig) of
                 Inl e \<Rightarrow> Err (client_error i cid e)
               | Inr cfg \<Rightarrow>
                   (case rejectNilSubStructs cfg of
                      Some e \<Rightarrow> Err (client_error i cid e)
                    | None \<Rightarrow> Ok \<lparr>ID = cid, Hosts = hosts, ClientConfig = cfg\<rparr>))"

fun parse_clients :: "'n yaml_ops \<Rightarrow> nat \<Rightarrow> 'n list \<Rightarrow> clientEntry list result" where
  "parse_clients Y i [] = Ok []"
| "parse_clients Y i (node # nodes) =
     and_then (parse_client Y i node) (\<lambda>c. and_then (parse_clients Y (Suc i) nodes) (\<lambda>cs. Ok (c # cs)))"

section \<open>Routing\<close>

definition validateHostPattern :: "string \<Rightarrow> error option" where
  "validateHostPattern n =
     (if \<not> Contains n ''*'' then None
      else if n = ''*'' then Some (''host '' @ n @ '' matches nothing'')
      else if \<not> HasPrefix n ''*.'' then Some (''invalid wildcard host '' @ n)
      else if \<not> Contains (drop 2 n) ''.'' then Some (''invalid wildcard host '' @ n)
      else None)"

text \<open>The patterns of one client: those it listed before are skipped, those of others are errors.\<close>

fun check_hosts :: "string \<Rightarrow> string list \<Rightarrow> string list \<Rightarrow> (string \<rightharpoonup> string) \<Rightarrow> (string \<rightharpoonup> string) result" where
  "check_hosts cid [] seen hosts = Ok hosts"
| "check_hosts cid (h # hs) seen hosts =
     (let n = normalizeHost h
      in if n = [] then Err (''client '' @ cid @ '': empty host'')
         else case validateHostPattern n of
                Some e \<Rightarrow> Err (''client '' @ cid @ '': '' @ e)
              | None \<Rightarrow>
                  if n \<in> set seen then check_hosts cid hs seen hosts
                  else (case hosts n of
                          Some prev \<Rightarrow> Err (''duplicate host '' @ n @ '' for clients '' @ prev @ '' and '' @ cid)
                        | None \<Rightarrow> check_hosts cid hs (n # seen) (hosts(n \<mapsto> cid))))"

fun validate_clients ::
  "clientEntry list \<Rightarrow> string list \<Rightarrow> (string \<rightharpoonup> string) \<Rightarrow> (string \<rightharpoonup> string) \<Rightarrow> (string \<rightharpoonup> string) \<Rightarrow> error option" where
  "validate_clients [] ids used secrets hosts = None"
| "validate_clients (c # cs) ids used secrets hosts =
     (let cfg = Ptr_Config (ClientConfig c)
      in if ID c \<in> set ids then Some (''duplicate id '' @ ID c)
         else case used (CookieNamePrefix cfg) of
                Some prev \<Rightarrow> Some (''duplicate cookieNamePrefix for clients '' @ prev @ '' and '' @ ID c)
              | None \<Rightarrow>
                  (case secrets (Secret cfg) of
                     Some prev \<Rightarrow> Some (''duplicate secret for clients '' @ prev @ '' and '' @ ID c)
                   | None \<Rightarrow>
                       (case check_hosts (ID c) (Hosts c) [] hosts of
                          Inl e \<Rightarrow> Some e
                        | Inr hosts' \<Rightarrow>
                            validate_clients cs (ID c # ids) (used(CookieNamePrefix cfg \<mapsto> ID c))
                              (secrets(Secret cfg \<mapsto> ID c)) hosts')))"

definition validateMultiConfig :: "clientEntry list \<Rightarrow> error option" where
  "validateMultiConfig clients = validate_clients clients [] Map.empty Map.empty Map.empty"

definition parseMultiConfig :: "'n yaml_ops \<Rightarrow> string \<Rightarrow> clientEntry list result" where
  "parseMultiConfig Y data =
     and_then (case Unmarshal Y data of Inl e \<Rightarrow> Err (''parsing yaml: '' @ e) | Inr nodes \<Rightarrow> Ok nodes) (\<lambda>nodes.
       if nodes = [] then Err ''clients: must contain at least one client''
       else and_then (parse_clients Y 0 nodes) (\<lambda>clients.
              case validateMultiConfig clients of Some e \<Rightarrow> Err e | None \<Rightarrow> Ok clients))"

definition parseMultiConfigFile :: "os \<Rightarrow> 'n yaml_ops \<Rightarrow> string \<Rightarrow> clientEntry list result" where
  "parseMultiConfigFile os Y path =
     (case ReadFile os path of None \<Rightarrow> Err (''reading '' @ path) | Some data \<Rightarrow> parseMultiConfig Y data)"

definition covers :: "string \<Rightarrow> string \<Rightarrow> bool" where
  "covers host pattern \<longleftrightarrow> HasPrefix pattern ''*.'' \<and> HasSuffix host (tl pattern) \<and> length (tl pattern) < length host"

fun best_wildcard :: "string \<Rightarrow> (string \<times> 'h) list \<Rightarrow> string \<Rightarrow> 'h option \<Rightarrow> string \<times> 'h option" where
  "best_wildcard host [] best bestH = (best, bestH)"
| "best_wildcard host ((pattern, h) # m) best bestH =
     (if \<not> covers host pattern then best_wildcard host m best bestH
      else if length best \<le> length pattern then best_wildcard host m pattern (Some h)
      else best_wildcard host m best bestH)"

definition lookupHost :: "(string \<times> 'h) list \<Rightarrow> string \<Rightarrow> 'h option" where
  "lookupHost m host0 =
     (let host = normalizeHost host0
      in case map_of m host of
           Some h \<Rightarrow> Some h
         | None \<Rightarrow>
             (case best_wildcard host m [] None of (best, bestH) \<Rightarrow> if best = [] then None else bestH))"

text \<open>
  The router answers an unknown host itself and leaves everything else to the handler. A
  handler that panics gives \<open>None\<close>; the server then drops the connection.
\<close>

definition router_ServeHTTP ::
  "('h \<Rightarrow> request \<Rightarrow> rw \<Rightarrow> rw option) \<Rightarrow> (string \<times> 'h) list \<Rightarrow> request \<Rightarrow> rw \<Rightarrow> rw option" where
  "router_ServeHTTP serve m req rw =
     (case lookupHost m (Host req) of
        None \<Rightarrow> Some (rw @ [EvError ''unknown host'' 403])
      | Some h \<Rightarrow> serve h req rw)"

section \<open>Loading and reloading\<close>

type_synonym 'h factory = "config_ptrs \<Rightarrow> string \<Rightarrow> ('h \<times> config_ptrs) result option"

fun build_clients ::
  "'h factory \<Rightarrow> clientEntry list \<Rightarrow> (string \<rightharpoonup> string) \<Rightarrow> (string \<times> 'h) list \<Rightarrow> (string \<times> 'h) list result option" where
  "build_clients factory [] secrets out = Some (Ok out)"
| "build_clients factory (c # cs) secrets out =
     (case factory (ClientConfig c) (''extauth-server/'' @ ID c) of
        None \<Rightarrow> None
      | Some (Inl e) \<Rightarrow> Some (Err (''client '' @ ID c @ '': '' @ e))
      | Some (Inr (h, cfg)) \<Rightarrow>
          (case secrets (Secret (Ptr_Config cfg)) of
             Some prev \<Rightarrow> Some (Err (''duplicate secret after expand for clients '' @ prev @ '' and '' @ ID c))
           | None \<Rightarrow>
               build_clients factory cs (secrets(Secret (Ptr_Config cfg) \<mapsto> ID c))
                 (fold (\<lambda>host. AList.update (normalizeHost host) h) (Hosts c) out)))"

definition buildHostMap :: "'h factory \<Rightarrow> clientEntry list \<Rightarrow> (string \<times> 'h) list result option" where
  "buildHostMap factory clients = build_clients factory clients Map.empty []"

definition reloadFromFile :: "os \<Rightarrow> 'n yaml_ops \<Rightarrow> 'h factory \<Rightarrow> string \<Rightarrow> (string \<times> 'h) list result option" where
  "reloadFromFile os Y factory path =
     (case parseMultiConfigFile os Y path of
        Inl e \<Rightarrow> Some (Err e)
      | Inr clients \<Rightarrow> buildHostMap factory clients)"

text \<open>The recovered panic and the logged error both keep the map that is being served.\<close>

definition doReload :: "os \<Rightarrow> 'n yaml_ops \<Rightarrow> 'h factory \<Rightarrow> string \<Rightarrow> (string \<times> 'h) list \<Rightarrow> (string \<times> 'h) list" where
  "doReload os Y factory path router =
     (case reloadFromFile os Y factory path of
        Some (Inr m) \<Rightarrow> m
      | _ \<Rightarrow> router)"

definition newHostRouter :: "(string \<times> 'h) list" where
  "newHostRouter = []"

section \<open>The longest pattern wins\<close>

text \<open>
  The specification of the routing speaks of the map only, not of the order in which it is
  ranged over: the exact host, else the longest pattern that covers it.
\<close>

definition routes_to :: "(string \<rightharpoonup> 'h) \<Rightarrow> string \<Rightarrow> 'h \<Rightarrow> bool" where
  "routes_to m host h \<longleftrightarrow>
     m host = Some h
     \<or> m host = None
       \<and> (\<exists>p. covers host p \<and> m p = Some h \<and> (\<forall>q. covers host q \<and> m q \<noteq> None \<longrightarrow> length q \<le> length p))"

lemma covers_same_length: "covers host p \<Longrightarrow> covers host q \<Longrightarrow> length p = length q \<Longrightarrow> p = q"
proof -
  assume c: "covers host p" "covers host q" "length p = length q"
  then obtain u v where u: "p = CHR ''*'' # u" "q = CHR ''*'' # v" "suffix u host" "suffix v host" "length u = length v"
    by (auto simp: covers_def HasPrefix_def HasSuffix_def prefix_def)
  then have "u = v" by (auto simp: suffix_def)
  with u show "p = q" by simp
qed

lemma covers_nonempty: "covers host p \<Longrightarrow> p \<noteq> []"
  by (auto simp: covers_def HasPrefix_def)

lemma best_wildcard_result:
  assumes "best_wildcard host m b bh = (b', bh')"
  shows "b' = b \<and> bh' = bh \<and> (\<forall>(p, h) \<in> set m. covers host p \<longrightarrow> length p < length b)
    \<or> (\<exists>h. (b', h) \<in> set m \<and> bh' = Some h \<and> covers host b' \<and> length b \<le> length b'
        \<and> (\<forall>(p, h) \<in> set m. covers host p \<longrightarrow> length p \<le> length b'))"
  using assms
proof (induction m arbitrary: b bh)
  case (Cons e m)
  obtain p h where e: "e = (p, h)" by (cases e)
  show ?case
  proof (cases "covers host p \<and> length b \<le> length p")
    case True
    with Cons.prems e have "best_wildcard host m p (Some h) = (b', bh')" by simp
    from Cons.IH [OF this] True e show ?thesis by fastforce
  next
    case False
    with Cons.prems e have "best_wildcard host m b bh = (b', bh')" by (auto split: if_splits)
    from Cons.IH [OF this] False e show ?thesis by fastforce
  qed
qed simp

lemma lookupHost_routes:
  assumes "distinct (map fst m)"
  shows "lookupHost m host = Some h \<longleftrightarrow> routes_to (map_of m) (normalizeHost host) h"
proof (cases "map_of m (normalizeHost host)")
  case (Some x)
  then show ?thesis by (auto simp: lookupHost_def Let_def routes_to_def)
next
  case None
  let ?n = "normalizeHost host"
  obtain b bh where b: "best_wildcard ?n m [] None = (b, bh)" by (cases "best_wildcard ?n m [] None")
  have lk: "lookupHost m host = (if b = [] then None else bh)" by (simp add: lookupHost_def Let_def None b)
  have in_map: "map_of m p = Some y \<longleftrightarrow> (p, y) \<in> set m" for p y using assms by (simp add: map_of_eq_Some_iff)
  from best_wildcard_result [OF b]
  consider (no) "b = []" "bh = None" "\<forall>(p, h) \<in> set m. \<not> covers ?n p"
    | (best) y where "(b, y) \<in> set m" "bh = Some y" "covers ?n b" "\<forall>(p, h) \<in> set m. covers ?n p \<longrightarrow> length p \<le> length b"
    by auto
  then show ?thesis
  proof cases
    case no
    then show ?thesis using None lk by (auto simp: routes_to_def in_map)
  next
    case best
    have "y = h" if "covers ?n p" "map_of m p = Some h" "\<forall>q. covers ?n q \<and> map_of m q \<noteq> None \<longrightarrow> length q \<le> length p" for p
    proof -
      have "(p, h) \<in> set m" "map_of m b = Some y" using that(2) best(1) in_map by simp_all
      moreover from this have "length p \<le> length b" "length b \<le> length p" using best(3,4) that(1,3) by auto
      ultimately have "p = b" using covers_same_length [OF that(1) best(3)] by simp
      with that(2) \<open>map_of m b = Some y\<close> show "y = h" by simp
    qed
    moreover have "routes_to (map_of m) ?n y"
    proof -
      have "\<forall>q. covers ?n q \<and> map_of m q \<noteq> None \<longrightarrow> length q \<le> length b" using best(4) in_map by auto
      moreover have "map_of m b = Some y" using best(1) in_map by simp
      ultimately show ?thesis using None best(3) by (auto simp: routes_to_def)
    qed
    ultimately show ?thesis using lk best covers_nonempty [OF best(3)] None by (auto simp: routes_to_def)
  qed
qed

text \<open>
  Routing is deterministic: although the wildcard patterns are ranged over in no fixed
  order, the handler of a host is that of the exact entry or else of the longest pattern
  that covers it, which is unique.
\<close>

theorem lookupHost_longest:
  assumes "distinct (map fst m)"
  shows "lookupHost m host = Some h \<longleftrightarrow> routes_to (map_of m) (normalizeHost host) h"
  using assms by (rule lookupHost_routes)

theorem lookupHost_longest_witness:
  "lookupHost [(''*.example.com'', 1 :: nat), (''*.a.example.com'', 2)] ''X.a.example.com.:443'' = Some 2
   \<and> routes_to (map_of [(''*.example.com'', 1 :: nat), (''*.a.example.com'', 2)]) ''x.a.example.com'' 2"
proof -
  have n: "normalizeHost ''X.a.example.com.:443'' = ''x.a.example.com''" by code_simp
  have l: "lookupHost [(''*.example.com'', 1 :: nat), (''*.a.example.com'', 2)] ''X.a.example.com.:443'' = Some 2" by code_simp
  with lookupHost_longest [of "[(''*.example.com'', 1 :: nat), (''*.a.example.com'', 2)]" "''X.a.example.com.:443''" 2] n
  show ?thesis by simp
qed

section \<open>Who owns a host\<close>

definition client_hosts :: "clientEntry \<Rightarrow> string set" where
  "client_hosts c = normalizeHost ` set (Hosts c)"

definition made_for :: "'h factory \<Rightarrow> clientEntry \<Rightarrow> 'h \<Rightarrow> bool" where
  "made_for factory c h \<longleftrightarrow> (\<exists>p. factory (ClientConfig c) (''extauth-server/'' @ ID c) = Some (Ok (h, p)))"

lemma made_for_unique: "made_for f c h \<Longrightarrow> made_for f c h' \<Longrightarrow> h = h'"
  by (auto simp: made_for_def)

lemma check_hosts_Ok:
  assumes "check_hosts cid hs seen hosts = Ok hosts'" "set seen \<subseteq> dom hosts"
  shows "dom hosts' = dom hosts \<union> normalizeHost ` set hs \<and> normalizeHost ` set hs \<inter> (dom hosts - set seen) = {}"
  using assms
proof (induction hs arbitrary: seen hosts)
  case (Cons h hs)
  let ?n = "normalizeHost h"
  show ?case
  proof (cases "?n \<in> set seen")
    case True
    with Cons.prems have "check_hosts cid hs seen hosts = Ok hosts'"
      by (auto simp: Let_def split: if_splits option.splits)
    from Cons.IH [OF this Cons.prems(2)] True Cons.prems(2) show ?thesis by auto
  next
    case False
    with Cons.prems have r: "check_hosts cid hs (?n # seen) (hosts(?n \<mapsto> cid)) = Ok hosts'" and n: "hosts ?n = None"
      by (auto simp: Let_def split: if_splits option.splits)
    have d: "dom (hosts(?n \<mapsto> cid)) = insert ?n (dom hosts)" "?n \<notin> dom hosts" using n by auto
    have "set (?n # seen) \<subseteq> dom (hosts(?n \<mapsto> cid))" using Cons.prems(2) d by auto
    from Cons.IH [OF r this] have ih: "dom hosts' = insert ?n (dom hosts) \<union> normalizeHost ` set hs"
      "normalizeHost ` set hs \<inter> (insert ?n (dom hosts) - set (?n # seen)) = {}" unfolding d(1) by blast+
    have "x \<notin> dom hosts - set seen" if "x \<in> normalizeHost ` set (h # hs)" for x
    proof (cases "x = ?n")
      case False
      with that have "x \<in> normalizeHost ` set hs" by auto
      with ih(2) have "x \<notin> insert ?n (dom hosts) - set (?n # seen)" by blast
      with False show ?thesis by simp
    qed (use d(2) in simp)
    then have "normalizeHost ` set (h # hs) \<inter> (dom hosts - set seen) = {}" by blast
    with ih(1) show ?thesis by simp
  qed
qed simp

lemma validate_clients_disjoint:
  "validate_clients cs ids used secrets hosts = None \<Longrightarrow>
     (\<forall>c \<in> set cs. client_hosts c \<inter> dom hosts = {}) \<and> sorted_wrt (\<lambda>c d. client_hosts c \<inter> client_hosts d = {}) cs"
proof (induction cs ids used secrets hosts rule: validate_clients.induct)
  case (2 c cs ids used secrets hosts)
  let ?cfg = "Ptr_Config (ClientConfig c)"
  from "2.prems" obtain hosts' where h: "check_hosts (ID c) (Hosts c) [] hosts = Ok hosts'"
    and r: "validate_clients cs (ID c # ids) (used(CookieNamePrefix ?cfg \<mapsto> ID c)) (secrets(Secret ?cfg \<mapsto> ID c)) hosts' = None"
    and g: "ID c \<notin> set ids" "used (CookieNamePrefix ?cfg) = None" "secrets (Secret ?cfg) = None"
    by (auto simp: Let_def split: if_splits option.splits sum.splits)
  have ih: "\<forall>d \<in> set cs. client_hosts d \<inter> dom hosts' = {}" "sorted_wrt (\<lambda>c d. client_hosts c \<inter> client_hosts d = {}) cs"
    using "2.IH" [OF refl g(1) g(2) g(3) h r] by blast+
  have d: "dom hosts' = dom hosts \<union> client_hosts c" "client_hosts c \<inter> dom hosts = {}"
    using check_hosts_Ok [OF h] by (simp_all add: client_hosts_def)
  show ?case unfolding list.set sorted_wrt.simps using ih d by blast
qed simp

text \<open>What a client's hosts make of an incoming host, in the terms of the configuration.\<close>

definition owns :: "clientEntry list \<Rightarrow> clientEntry \<Rightarrow> string \<Rightarrow> bool" where
  "owns cs c n \<longleftrightarrow> c \<in> set cs
     \<and> (n \<in> client_hosts c
        \<or> (\<forall>d \<in> set cs. n \<notin> client_hosts d)
          \<and> (\<exists>p \<in> client_hosts c. covers n p \<and> (\<forall>d \<in> set cs. \<forall>q \<in> client_hosts d. covers n q \<longrightarrow> length q \<le> length p)))"

lemma map_of_updates:
  "map_of (fold (\<lambda>host. AList.update (normalizeHost host) h) hs out) n
     = (if n \<in> normalizeHost ` set hs then Some h else map_of out n)"
  by (induction hs arbitrary: out) (auto simp: update_conv')

lemma distinct_updates:
  "distinct (map fst out) \<Longrightarrow> distinct (map fst (fold (\<lambda>host. AList.update (normalizeHost host) h) hs out))"
  by (induction hs arbitrary: out) (auto intro: distinct_update)

lemma build_clients_step:
  assumes "build_clients f (c # cs) secrets out = Some (Ok m)"
  obtains h p where "f (ClientConfig c) (''extauth-server/'' @ ID c) = Some (Ok (h, p))"
    "secrets (Secret (Ptr_Config p)) = None" "made_for f c h"
    "build_clients f cs (secrets(Secret (Ptr_Config p) \<mapsto> ID c))
       (fold (\<lambda>host. AList.update (normalizeHost host) h) (Hosts c) out) = Some (Ok m)"
  using assms by (auto simp: made_for_def split: option.splits sum.splits)

lemma build_clients_distinct:
  "build_clients f cs secrets out = Some (Ok m) \<Longrightarrow> distinct (map fst out) \<Longrightarrow> distinct (map fst m)"
proof (induction cs arbitrary: secrets out)
  case (Cons c cs)
  from Cons.prems(1) obtain h' p where "f (ClientConfig c) (''extauth-server/'' @ ID c) = Some (Ok (h', p))"
    "secrets (Secret (Ptr_Config p)) = None" "made_for f c h'"
    and r: "build_clients f cs (secrets(Secret (Ptr_Config p) \<mapsto> ID c))
      (fold (\<lambda>host. AList.update (normalizeHost host) h') (Hosts c) out) = Some (Ok m)" by (rule build_clients_step)
  from Cons.IH [OF r distinct_updates [OF Cons.prems(2)]] show ?case .
qed simp

lemma build_clients_entries:
  assumes "build_clients f cs secrets out = Some (Ok m)" "sorted_wrt (\<lambda>c d. client_hosts c \<inter> client_hosts d = {}) cs"
  shows "map_of m n = Some h \<longleftrightarrow>
    (\<exists>c \<in> set cs. n \<in> client_hosts c \<and> made_for f c h) \<or> (\<forall>c \<in> set cs. n \<notin> client_hosts c) \<and> map_of out n = Some h"
  using assms
proof (induction cs arbitrary: secrets out)
  case (Cons c cs)
  from Cons.prems(1) obtain h' p where "f (ClientConfig c) (''extauth-server/'' @ ID c) = Some (Ok (h', p))"
    "secrets (Secret (Ptr_Config p)) = None" and mf: "made_for f c h'"
    and r: "build_clients f cs (secrets(Secret (Ptr_Config p) \<mapsto> ID c))
      (fold (\<lambda>host. AList.update (normalizeHost host) h') (Hosts c) out) = Some (Ok m)" by (rule build_clients_step)
  have ih: "map_of m n = Some h \<longleftrightarrow> (\<exists>c \<in> set cs. n \<in> client_hosts c \<and> made_for f c h)
      \<or> (\<forall>c \<in> set cs. n \<notin> client_hosts c) \<and> (if n \<in> client_hosts c then Some h' else map_of out n) = Some h"
    using Cons.IH [OF r] Cons.prems(2) unfolding map_of_updates client_hosts_def by simp
  have u: "made_for f c h \<longleftrightarrow> h' = h" using mf by (auto simp: made_for_def)
  show ?case
  proof (cases "n \<in> client_hosts c")
    case True
    with Cons.prems(2) have "\<forall>d \<in> set cs. n \<notin> client_hosts d" by auto
    with True ih u show ?thesis by auto
  next
    case False
    with ih show ?thesis by auto
  qed
qed simp

lemma build_clients_made:
  "build_clients f cs secrets out = Some (Ok m) \<Longrightarrow> c \<in> set cs \<Longrightarrow> \<exists>h. made_for f c h"
proof (induction cs arbitrary: secrets out)
  case (Cons d cs)
  from Cons.prems(1) obtain h' p where "f (ClientConfig d) (''extauth-server/'' @ ID d) = Some (Ok (h', p))"
    "secrets (Secret (Ptr_Config p)) = None" and mf: "made_for f d h'"
    and r: "build_clients f cs (secrets(Secret (Ptr_Config p) \<mapsto> ID d))
      (fold (\<lambda>host. AList.update (normalizeHost host) h') (Hosts d) out) = Some (Ok m)" by (rule build_clients_step)
  with Cons.IH [OF r] Cons.prems(2) show ?case by auto
qed simp

lemma buildHostMap_entries:
  assumes "validateMultiConfig cs = None" "buildHostMap f cs = Some (Ok m)"
  shows "distinct (map fst m)"
    "map_of m n = Some h \<longleftrightarrow> (\<exists>c \<in> set cs. n \<in> client_hosts c \<and> made_for f c h)"
    "map_of m n \<noteq> None \<longleftrightarrow> (\<exists>c \<in> set cs. n \<in> client_hosts c)"
proof -
  have s: "sorted_wrt (\<lambda>c d. client_hosts c \<inter> client_hosts d = {}) cs"
    using validate_clients_disjoint assms(1) unfolding validateMultiConfig_def by blast
  note b = assms(2) [unfolded buildHostMap_def]
  show "distinct (map fst m)" using build_clients_distinct [OF b] by simp
  show e: "map_of m n = Some h \<longleftrightarrow> (\<exists>c \<in> set cs. n \<in> client_hosts c \<and> made_for f c h)" for h
    using build_clients_entries [OF b s] by simp
  have "\<exists>h. made_for f c h" if "c \<in> set cs" for c using build_clients_made [OF b] that by blast
  then show "map_of m n \<noteq> None \<longleftrightarrow> (\<exists>c \<in> set cs. n \<in> client_hosts c)" using e by blast
qed

lemma lookup_built:
  assumes "validateMultiConfig cs = None" "buildHostMap f cs = Some (Ok m)"
  shows "lookupHost m host = Some h \<longleftrightarrow> routes_to (map_of m) (normalizeHost host) h"
  using buildHostMap_entries(1) [OF assms] by (rule lookupHost_routes)

lemma routes_to_owner:
  assumes "validateMultiConfig cs = None" "buildHostMap f cs = Some (Ok m)"
  shows "routes_to (map_of m) n h \<longleftrightarrow> (\<exists>c. owns cs c n \<and> made_for f c h)"
proof -
  note e = buildHostMap_entries(2) [OF assms]
  have some: "map_of m q \<noteq> None \<longleftrightarrow> (\<exists>c \<in> set cs. q \<in> client_hosts c)" for q by (rule buildHostMap_entries(3) [OF assms])
  then have none: "map_of m q = None \<longleftrightarrow> (\<forall>c \<in> set cs. q \<notin> client_hosts c)" for q by blast
  show ?thesis unfolding routes_to_def owns_def some none e by blast
qed

text \<open>
  C12. Requests reach the client that owns their host, and no other: a host is served by
  exactly the handler that was made for the client which lists it, or, when no client lists
  it, for the client with the longest wildcard pattern that covers it. A host that no client
  owns is answered with 403 by the router itself, without a handler.
\<close>

theorem tenant_routing:
  assumes "validateMultiConfig cs = None" "buildHostMap f cs = Some (Ok m)"
  shows "(lookupHost m host = Some h \<longleftrightarrow> (\<exists>c. owns cs c (normalizeHost host) \<and> made_for f c h))
    \<and> ((\<nexists>c. owns cs c (normalizeHost (Host req))) \<longrightarrow> router_ServeHTTP serve m req rw = Some (rw @ [EvError ''unknown host'' 403]))
    \<and> (\<forall>c. owns cs c (normalizeHost (Host req)) \<and> made_for f c h \<longrightarrow> router_ServeHTTP serve m req rw = serve h req rw)"
proof -
  have r: "lookupHost m x = Some y \<longleftrightarrow> (\<exists>c. owns cs c (normalizeHost x) \<and> made_for f c y)" for x y
    unfolding lookup_built [OF assms] by (rule routes_to_owner [OF assms])
  show ?thesis
  proof (intro conjI impI allI)
    show "lookupHost m host = Some h \<longleftrightarrow> (\<exists>c. owns cs c (normalizeHost host) \<and> made_for f c h)" by (rule r)
  next
    assume "\<nexists>c. owns cs c (normalizeHost (Host req))"
    then have "lookupHost m (Host req) = None" using r [of "Host req"] by (metis not_Some_eq)
    then show "router_ServeHTTP serve m req rw = Some (rw @ [EvError ''unknown host'' 403])" by (simp add: router_ServeHTTP_def)
  next
    fix c
    assume "owns cs c (normalizeHost (Host req)) \<and> made_for f c h"
    then have "lookupHost m (Host req) = Some h" using r [of "Host req" h] by blast
    then show "router_ServeHTTP serve m req rw = serve h req rw" by (simp add: router_ServeHTTP_def)
  qed
qed

text \<open>Two clients, one with a host and one with a pattern, and handlers that are numbers.\<close>

definition demo_clients :: "clientEntry list" where
  "demo_clients = [\<lparr>ID = ''a'', Hosts = [''App.example.com.''], ClientConfig = ptrs_of (demo_config CHR ''a'')\<rparr>,
     \<lparr>ID = ''b'', Hosts = [''*.example.com''], ClientConfig = ptrs_of (demo_config CHR ''b'')\<rparr>]"

definition demo_factory :: "nat factory" where
  "demo_factory = (\<lambda>cfg name. Some (Ok (if last name = CHR ''a'' then 1 else 2, cfg)))"

lemma demo_clients_built:
  "validateMultiConfig demo_clients = None"
  "buildHostMap demo_factory demo_clients = Some (Ok [(''app.example.com'', 1), (''*.example.com'', 2)])"
proof -
  have n: "normalizeHost ''App.example.com.'' = ''app.example.com''" "normalizeHost ''*.example.com'' = ''*.example.com''"
    by code_simp+
  have v: "validateHostPattern ''app.example.com'' = None" "validateHostPattern ''*.example.com'' = None" by code_simp+
  have s: "replicate 32 CHR ''a'' \<noteq> replicate 32 CHR ''b''" by (simp add: numeral_eq_Suc)
  show "validateMultiConfig demo_clients = None"
    using s by (simp add: validateMultiConfig_def demo_clients_def Let_def n v ptrs_of_def demo_config_def)
  show "buildHostMap demo_factory demo_clients = Some (Ok [(''app.example.com'', 1), (''*.example.com'', 2)])"
    using s by (simp add: buildHostMap_def demo_clients_def demo_factory_def n ptrs_of_def demo_config_def)
qed

theorem tenant_routing_witness:
  "lookupHost [(''app.example.com'', 1), (''*.example.com'', 2)] ''other.example.com:443'' = Some (2 :: nat)
   \<and> (\<exists>c. owns demo_clients c ''other.example.com'' \<and> made_for demo_factory c 2)"
proof -
  have l: "lookupHost [(''app.example.com'', 1), (''*.example.com'', 2)] ''other.example.com:443'' = Some (2 :: nat)" by code_simp
  have n: "normalizeHost ''other.example.com:443'' = ''other.example.com''" by code_simp
  from l tenant_routing [OF demo_clients_built, of "''other.example.com:443''" 2] show ?thesis unfolding n by blast
qed

section \<open>What a factory builds\<close>

text \<open>
  What the loader relies on: a handler that seals its cookies does so with the secret of the
  configuration that the factory gave back.
\<close>

locale tenant_factory =
  fixes make :: "'h factory"
    and seal_key :: "'h \<Rightarrow> string option"
  assumes seal_key_secret: "make p nm = Some (Ok (h, p')) \<Longrightarrow> seal_key h = Some k \<Longrightarrow> k = Secret (Ptr_Config p')"
begin

definition keyed :: "(string \<rightharpoonup> string) \<Rightarrow> (string \<times> 'h) list \<Rightarrow> bool" where
  "keyed secrets out \<longleftrightarrow>
     (\<forall>n h k. map_of out n = Some h \<and> seal_key h = Some k \<longrightarrow> secrets k \<noteq> None)
     \<and> (\<forall>a b h h' k. map_of out a = Some h \<and> map_of out b = Some h' \<and> seal_key h = Some k \<and> seal_key h' = Some k \<longrightarrow> h = h')"

lemma keyed_step:
  assumes "keyed secrets out" "make p nm = Some (Ok (h, p'))" "secrets (Secret (Ptr_Config p')) = None"
  shows "keyed (secrets(Secret (Ptr_Config p') \<mapsto> i)) (fold (\<lambda>host. AList.update (normalizeHost host) h) hs out)"
proof -
  have k: "k = Secret (Ptr_Config p')" if "seal_key h = Some k" for k using seal_key_secret [OF assms(2) that] .
  have new: "h' \<noteq> h \<longrightarrow> seal_key h' \<noteq> Some (Secret (Ptr_Config p'))" if "map_of out n = Some h'" for n h'
    using assms(1,3) that unfolding keyed_def by blast
  show ?thesis unfolding keyed_def map_of_updates
  proof (intro conjI allI impI)
    fix n h' x
    assume "(if n \<in> normalizeHost ` set hs then Some h else map_of out n) = Some h' \<and> seal_key h' = Some x"
    then show "(secrets(Secret (Ptr_Config p') \<mapsto> i)) x \<noteq> None"
      using assms(1) k [of x] unfolding keyed_def by (auto split: if_splits)
  next
    fix a b h1 h2 x
    assume "(if a \<in> normalizeHost ` set hs then Some h else map_of out a) = Some h1
      \<and> (if b \<in> normalizeHost ` set hs then Some h else map_of out b) = Some h2
      \<and> seal_key h1 = Some x \<and> seal_key h2 = Some x"
    then show "h1 = h2"
      using assms(1) k [of x] new [of a h1] new [of b h2] unfolding keyed_def by (auto split: if_splits)
  qed
qed

lemma build_clients_keyed:
  "build_clients make cs secrets out = Some (Ok m) \<Longrightarrow> keyed secrets out \<Longrightarrow> \<exists>secrets'. keyed secrets' m"
proof (induction cs arbitrary: secrets out)
  case (Cons c cs)
  from Cons.prems(1) obtain h p where f: "make (ClientConfig c) (''extauth-server/'' @ ID c) = Some (Ok (h, p))"
    and s: "secrets (Secret (Ptr_Config p)) = None" and "made_for make c h"
    and r: "build_clients make cs (secrets(Secret (Ptr_Config p) \<mapsto> ID c))
      (fold (\<lambda>host. AList.update (normalizeHost host) h) (Hosts c) out) = Some (Ok m)"
    by (rule build_clients_step)
  from Cons.IH [OF r keyed_step [OF Cons.prems(2) f s]] show ?case .
qed auto

text \<open>Two handlers of one map that seal with the same key are the same handler.\<close>

lemma buildHostMap_keys:
  assumes "buildHostMap make cs = Some (Ok m)" "map_of m a = Some h" "map_of m b = Some h'" "h \<noteq> h'"
    and "seal_key h = Some k" "seal_key h' = Some k'"
  shows "k \<noteq> k'"
proof -
  have "keyed Map.empty []" by (simp add: keyed_def)
  with build_clients_keyed assms(1) obtain s where "keyed s m" unfolding buildHostMap_def by blast
  with assms(2-6) show ?thesis unfolding keyed_def by blast
qed

end

section \<open>A server that is being reloaded\<close>

text \<open>
  The life of the served map: the first load has to succeed (\<open>main\<close> exits otherwise), then
  every signal or change of a watched file tries to load again. The history holds the state
  of the environment and of the files at each attempt, the latest first.
\<close>

inductive live :: "'n yaml_ops \<Rightarrow> (os \<Rightarrow> 'h factory) \<Rightarrow> string \<Rightarrow> os list \<Rightarrow> (string \<times> 'h) list \<Rightarrow> bool"
  for Y :: "'n yaml_ops" and F :: "os \<Rightarrow> 'h factory" and path :: string where
  start: "reloadFromFile os Y (F os) path = Some (Ok m) \<Longrightarrow> live Y F path [os] m"
| reload: "live Y F path hist m \<Longrightarrow> live Y F path (os # hist) (doReload os Y (F os) path m)"

inductive_simps live_Nil [simp]: "live Y F path [] m"

inductive_simps live_single: "live Y F path [os] m"

definition loads :: "'n yaml_ops \<Rightarrow> (os \<Rightarrow> 'h factory) \<Rightarrow> string \<Rightarrow> os \<Rightarrow> (string \<times> 'h) list option" where
  "loads Y F path os = (case reloadFromFile os Y (F os) path of Some (Inr m) \<Rightarrow> Some m | _ \<Rightarrow> None)"

lemma doReload_loads: "doReload os Y (F os) path m = (case loads Y F path os of Some m' \<Rightarrow> m' | None \<Rightarrow> m)"
  by (simp add: doReload_def loads_def split: option.split sum.split)

lemma loads_Some:
  "loads Y F path os = Some m \<longleftrightarrow>
     (\<exists>cs. parseMultiConfigFile os Y path = Ok cs \<and> buildHostMap (F os) cs = Some (Ok m))"
  by (auto simp: loads_def reloadFromFile_def split: option.splits sum.splits)

lemma parsed_valid: "parseMultiConfigFile os Y path = Ok cs \<Longrightarrow> validateMultiConfig cs = None"
  by (auto simp: parseMultiConfigFile_def parseMultiConfig_def and_then_def split: option.splits sum.splits if_splits)

lemma live_latest:
  "live Y F path hist m \<Longrightarrow>
     \<exists>later os earlier. hist = later @ os # earlier \<and> (\<forall>x \<in> set later. loads Y F path x = None) \<and> loads Y F path os = Some m"
proof (induction rule: live.induct)
  case (start os m)
  then have "loads Y F path os = Some m" by (simp add: loads_def)
  then show ?case by force
next
  case (reload hist m os)
  show ?case
  proof (cases "loads Y F path os")
    case None
    from reload.IH obtain later o' earlier where "hist = later @ o' # earlier" "\<forall>x \<in> set later. loads Y F path x = None"
      "loads Y F path o' = Some m" by blast
    then have "os # hist = (os # later) @ o' # earlier" "\<forall>x \<in> set (os # later). loads Y F path x = None" using None by auto
    with \<open>loads Y F path o' = Some m\<close> show ?thesis unfolding doReload_loads None option.case by blast
  next
    case (Some m')
    then have l: "doReload os Y (F os) path m = m'" by (simp add: doReload_loads)
    show ?thesis unfolding l
      by (rule exI [of _ "[]"], rule exI [of _ os], rule exI [of _ hist]) (simp add: Some)
  qed
qed

text \<open>
  C8. A bad reload keeps the previous map: the map that is being served is always the
  complete map of one configuration file, the latest one that parsed, passed the
  validation and gave a handler for each of its clients. Attempts after it, whether they
  fail with an error or panic, change nothing; no partly built map is ever served.
\<close>

theorem reload_keeps_good_map:
  assumes "live Y F path hist m"
  shows "\<exists>later os earlier cs. hist = later @ os # earlier
    \<and> parseMultiConfigFile os Y path = Ok cs \<and> validateMultiConfig cs = None
    \<and> (\<forall>c \<in> set cs. \<forall>n \<in> client_hosts c. \<exists>h. map_of m n = Some h \<and> made_for (F os) c h)
    \<and> (\<forall>n. map_of m n \<noteq> None \<longrightarrow> (\<exists>c \<in> set cs. n \<in> client_hosts c))
    \<and> (\<forall>x \<in> set later. \<forall>m'. reloadFromFile x Y (F x) path \<noteq> Some (Ok m'))"
proof -
  from live_latest [OF assms] obtain later os earlier where h: "hist = later @ os # earlier"
    and l: "\<forall>x \<in> set later. loads Y F path x = None" and "loads Y F path os = Some m" by blast
  from this(3) obtain cs where p: "parseMultiConfigFile os Y path = Ok cs" and b: "buildHostMap (F os) cs = Some (Ok m)"
    by (auto simp: loads_Some)
  note v = parsed_valid [OF p]
  have a: "\<forall>c \<in> set cs. \<forall>n \<in> client_hosts c. \<exists>h. map_of m n = Some h \<and> made_for (F os) c h"
  proof (intro ballI)
    fix c n assume c: "c \<in> set cs" "n \<in> client_hosts c"
    from build_clients_made [OF b [unfolded buildHostMap_def] c(1)] obtain h where "made_for (F os) c h" by blast
    with c buildHostMap_entries(2) [OF v b, of n h] show "\<exists>h. map_of m n = Some h \<and> made_for (F os) c h" by blast
  qed
  have o: "\<forall>n. map_of m n \<noteq> None \<longrightarrow> (\<exists>c \<in> set cs. n \<in> client_hosts c)" using buildHostMap_entries(3) [OF v b] by simp
  have n: "\<forall>x \<in> set later. \<forall>m'. reloadFromFile x Y (F x) path \<noteq> Some (Ok m')"
    using l by (auto simp: loads_def)
  show ?thesis by (rule exI [of _ later], rule exI [of _ os], rule exI [of _ earlier], rule exI [of _ cs], intro conjI) (fact h p v a o n)+
qed

section \<open>The factory of the server\<close>

text \<open>
  \<open>New\<close> is the factory; it does not use the name. An instance seals with the secret of its
  configuration, the catalog stub seals nothing.
\<close>

definition new_factory :: "sys \<Rightarrow> middleware factory" where
  "new_factory S = (\<lambda>cfg name. New S cfg)"

definition sealing_secret :: "middleware \<Rightarrow> string option" where
  "sealing_secret h = (case h of Instance i \<Rightarrow> Some (Secret (deref (Inst_Config i))) | CatalogStub \<Rightarrow> None)"

interpretation new_tenants: tenant_factory "new_factory S" sealing_secret for S
proof unfold_locales
  fix p nm h p' k
  assume "new_factory S p nm = Some (Ok (h, p'))" "sealing_secret h = Some k"
  then show "k = Secret (Ptr_Config p')"
    using New_Ok(1) by (cases h) (auto simp: new_factory_def sealing_secret_def deref_def)
qed

definition server_factory :: "sys \<Rightarrow> os \<Rightarrow> middleware factory" where
  "server_factory S os = new_factory (S\<lparr>Os := os\<rparr>)"

lemma lookup_entry: "lookupHost m host = Some h \<Longrightarrow> \<exists>n. map_of m n = Some h" if "distinct (map fst m)"
  using that by (auto simp: lookupHost_routes routes_to_def)

lemma live_secrets_differ:
  assumes "live Y (server_factory S) path hist m"
    and "lookupHost m a = Some (Instance i)" "lookupHost m b = Some (Instance j)" "i \<noteq> j"
  shows "Secret (deref (Inst_Config i)) \<noteq> Secret (deref (Inst_Config j))"
proof -
  from live_latest [OF assms(1)] obtain os cs where p: "parseMultiConfigFile os Y path = Ok cs"
    and b: "buildHostMap (server_factory S os) cs = Some (Ok m)" by (auto simp: loads_Some)
  have d: "distinct (map fst m)" by (rule buildHostMap_entries(1) [OF parsed_valid [OF p] b])
  obtain x y where xy: "map_of m x = Some (Instance i)" "map_of m y = Some (Instance j)"
    using lookup_entry [OF d assms(2)] lookup_entry [OF d assms(3)] by blast
  show ?thesis
    by (rule new_tenants.buildHostMap_keys [OF b [unfolded server_factory_def] xy])
      (use assms(4) in \<open>simp_all add: sealing_secret_def\<close>)
qed

text \<open>
  C7. Tenants cannot use each other's cookies: whatever reloads have happened, two different
  instances that are served at the same time seal with different secrets, although these
  may come from files and variables. So a session ticket or a login state that one of them
  issued is rejected by the other, legacy fallbacks included.
\<close>

theorem tenants_isolated:
  assumes "live Y (server_factory S) path hist m"
    and "lookupHost m a = Some (Instance i)" "lookupHost m b = Some (Instance j)" "i \<noteq> j"
    and "aead_binds A" "length n = NonceSize"
  shows "(\<forall>s s' ticket. StoreSession A J T now (Some n) (deref (Inst_Config i)) s = (s', Ok ticket) \<longrightarrow>
      (\<exists>e. TryGetSession A J T now' (deref (Inst_Config j)) ticket = Err e))
    \<and> (\<forall>st sealed. SealState A J T now (Some n) (Some st) (Secret (deref (Inst_Config i))) = Ok sealed \<longrightarrow>
      (\<exists>e. UnsealState A J T now' sealed (Secret (deref (Inst_Config j))) = Err e))"
  using foreign_ticket [OF assms(5,6) live_secrets_differ [OF assms(1-4)]]
    foreign_state [OF assms(5,6) _ live_secrets_differ [OF assms(1-4)]] by blast

text \<open>
  A configuration language in which each letter of the file is a client, named after it,
  and a server that has loaded the file \<open>ab\<close>.
\<close>

definition demo_yaml :: "char yaml_ops" where
  "demo_yaml = \<lparr>Unmarshal = Ok, DecodeMeta = (\<lambda>k. Ok ([k], [[k]])), DecodeConfig = (\<lambda>k cfg. Ok (ptrs_of (demo_config k)))\<rparr>"

lemma demo_parsed:
  "parseMultiConfigFile (Os demo_sys) demo_yaml ''config.yaml'' =
     Ok [\<lparr>ID = ''a'', Hosts = [''a''], ClientConfig = ptrs_of (demo_config CHR ''a'')\<rparr>,
         \<lparr>ID = ''b'', Hosts = [''b''], ClientConfig = ptrs_of (demo_config CHR ''b'')\<rparr>]"
proof -
  have n: "normalizeHost ''a'' = ''a''" "normalizeHost ''b'' = ''b''" "validateHostPattern ''a'' = None" "validateHostPattern ''b'' = None"
    by code_simp+
  have s: "replicate 32 CHR ''a'' \<noteq> replicate 32 CHR ''b''" by (simp add: numeral_eq_Suc)
  have r: "rejectNilSubStructs (ptrs_of (demo_config k)) = None" for k
    by (simp add: rejectNilSubStructs_def ptrs_of_def demo_config_def CreateConfig_def)
  have f: "ReadFile (Os demo_sys) ''config.yaml'' = Some ''ab''" by (simp add: demo_sys_def)
  have p: "parse_client demo_yaml i k = Ok \<lparr>ID = [k], Hosts = [[k]], ClientConfig = ptrs_of (demo_config k)\<rparr>" for i k
    by (simp add: parse_client_def demo_yaml_def r)
  have c: "parse_clients demo_yaml 0 ''ab'' =
     Ok [\<lparr>ID = ''a'', Hosts = [''a''], ClientConfig = ptrs_of (demo_config CHR ''a'')\<rparr>,
         \<lparr>ID = ''b'', Hosts = [''b''], ClientConfig = ptrs_of (demo_config CHR ''b'')\<rparr>]"
    by (simp add: p and_then_def)
  have u: "Unmarshal demo_yaml ''ab'' = Ok ''ab''" by (simp add: demo_yaml_def)
  have v: "validateMultiConfig [\<lparr>ID = ''a'', Hosts = [''a''], ClientConfig = ptrs_of (demo_config CHR ''a'')\<rparr>,
         \<lparr>ID = ''b'', Hosts = [''b''], ClientConfig = ptrs_of (demo_config CHR ''b'')\<rparr>] = None"
    using s by (simp add: validateMultiConfig_def Let_def n ptrs_of_def demo_config_def)
  show ?thesis by (simp add: parseMultiConfigFile_def f parseMultiConfig_def u c v and_then_def del: parse_clients.simps)
qed

lemma demo_live:
  "\<exists>i j. live demo_yaml (server_factory demo_sys) ''config.yaml'' [Os demo_sys] [(''a'', Instance i), (''b'', Instance j)]
     \<and> Secret (deref (Inst_Config i)) = replicate 32 CHR ''a'' \<and> Secret (deref (Inst_Config j)) = replicate 32 CHR ''b''"
proof -
  obtain i p where i: "New demo_sys (ptrs_of (demo_config CHR ''a'')) = Some (Ok (Instance i, p))"
    "Secret (Ptr_Config p) = replicate 32 CHR ''a''" using demo_New by blast
  obtain j q where j: "New demo_sys (ptrs_of (demo_config CHR ''b'')) = Some (Ok (Instance j, q))"
    "Secret (Ptr_Config q) = replicate 32 CHR ''b''" using demo_New by blast
  have n: "normalizeHost ''a'' = ''a''" "normalizeHost ''b'' = ''b''" by code_simp+
  have s: "replicate 32 CHR ''a'' \<noteq> replicate 32 CHR ''b''" by (simp add: numeral_eq_Suc)
  have f: "server_factory demo_sys (Os demo_sys) = new_factory demo_sys" by (simp add: server_factory_def)
  have "reloadFromFile (Os demo_sys) demo_yaml (server_factory demo_sys (Os demo_sys)) ''config.yaml''
      = Some (Ok [(''a'', Instance i), (''b'', Instance j)])"
    using s by (simp add: reloadFromFile_def demo_parsed buildHostMap_def f new_factory_def i j n)
  then have l: "live demo_yaml (server_factory demo_sys) ''config.yaml'' [Os demo_sys] [(''a'', Instance i), (''b'', Instance j)]"
    by (rule live.start)
  have "Secret (deref (Inst_Config i)) = replicate 32 CHR ''a''" "Secret (deref (Inst_Config j)) = replicate 32 CHR ''b''"
    using New_Ok(1) [OF i(1)] New_Ok(1) [OF j(1)] i(2) j(2) by (simp_all add: deref_def)
  with l show ?thesis by blast
qed

text \<open>The file disappears, and the map stays.\<close>

theorem reload_keeps_good_map_witness:
  "\<exists>m later os earlier cs. live demo_yaml (server_factory demo_sys) ''config.yaml''
       [\<lparr>LookupEnv = (\<lambda>_. None), ReadFile = (\<lambda>_. None)\<rparr>, Os demo_sys] m
     \<and> [\<lparr>LookupEnv = (\<lambda>_. None), ReadFile = (\<lambda>_. None)\<rparr>, Os demo_sys] = later @ os # earlier
     \<and> parseMultiConfigFile os demo_yaml ''config.yaml'' = Ok cs \<and> lookupHost m ''b'' \<noteq> None"
proof -
  let ?lost = "\<lparr>LookupEnv = (\<lambda>_. None), ReadFile = (\<lambda>_. None)\<rparr> :: os"
  obtain i j where l: "live demo_yaml (server_factory demo_sys) ''config.yaml'' [Os demo_sys] [(''a'', Instance i), (''b'', Instance j)]"
    using demo_live by blast
  have "doReload ?lost demo_yaml (server_factory demo_sys ?lost) ''config.yaml'' m = m" for m
    by (simp add: doReload_def reloadFromFile_def parseMultiConfigFile_def)
  with live.reload [OF l, of ?lost]
  have r: "live demo_yaml (server_factory demo_sys) ''config.yaml'' [?lost, Os demo_sys] [(''a'', Instance i), (''b'', Instance j)]" by simp
  have n: "normalizeHost ''b'' = ''b''" by code_simp
  have b: "lookupHost [(''a'', Instance i), (''b'', Instance j)] ''b'' \<noteq> None" by (simp add: lookupHost_def n)
  from reload_keeps_good_map [OF r] r b show ?thesis by blast
qed

theorem tenants_isolated_witness:
  "\<exists>i j m ticket e. live demo_yaml (server_factory demo_sys) ''config.yaml'' [Os demo_sys] m
     \<and> lookupHost m ''a'' = Some (Instance i) \<and> lookupHost m ''b'' = Some (Instance j)
     \<and> StoreSession ideal_aead sample_json unary_time 1 (Some (replicate 12 CHR ''n'')) (deref (Inst_Config i)) zero_session
         = (stamp_session 1 zero_session, Ok ticket)
     \<and> TryGetSession ideal_aead sample_json unary_time 2 (deref (Inst_Config j)) ticket = Err e"
proof -
  obtain i j where l: "live demo_yaml (server_factory demo_sys) ''config.yaml'' [Os demo_sys] [(''a'', Instance i), (''b'', Instance j)]"
    and k: "Secret (deref (Inst_Config i)) = replicate 32 CHR ''a''" "Secret (deref (Inst_Config j)) = replicate 32 CHR ''b''"
    using demo_live by blast
  have n: "normalizeHost ''a'' = ''a''" "normalizeHost ''b'' = ''b''" by code_simp+
  have lk: "lookupHost [(''a'', Instance i), (''b'', Instance j)] ''a'' = Some (Instance i)"
    "lookupHost [(''a'', Instance i), (''b'', Instance j)] ''b'' = Some (Instance j)" by (simp_all add: lookupHost_def n)
  have d: "i \<noteq> j" using k by (auto simp: numeral_eq_Suc)
  obtain ticket where t: "StoreSession ideal_aead sample_json unary_time 1 (Some (replicate 12 CHR ''n''))
      (deref (Inst_Config i)) zero_session = (stamp_session 1 zero_session, Ok ticket)"
    using sample_store [of "deref (Inst_Config i)"] k(1) by auto
  have "length (replicate 12 CHR ''n'') = NonceSize" by (simp add: NonceSize_def)
  from tenants_isolated [OF l lk d ideal_aead_binds this] t
  obtain e where "TryGetSession ideal_aead sample_json unary_time 2 (deref (Inst_Config j)) ticket = Err e" by blast
  with l lk t show ?thesis by blast
qed

lemma parsed_clients_ok: "parse_clients Y i nodes = Ok cs \<Longrightarrow> \<forall>c \<in> set cs. rejectNilSubStructs (ClientConfig c) = None"
proof (induction nodes arbitrary: i cs)
  case (Cons node nodes)
  then obtain c cs' where c: "parse_client Y i node = Ok c" "parse_clients Y (Suc i) nodes = Ok cs'" "cs = c # cs'"
    by (auto simp: and_then_Ok)
  have "rejectNilSubStructs (ClientConfig c) = None" using c(1)
    by (auto simp: parse_client_def split: sum.splits if_splits option.splits)
  with Cons.IH [OF c(2)] c(3) show ?case by simp
qed simp

lemma New_not_None: "rejectNilSubStructs p = None \<Longrightarrow> New S p \<noteq> None"
  by (rule New_total [of p "the (fst (the (Ptr_ErrorPages p)))" "the (snd (the (Ptr_ErrorPages p)))"])
    (auto simp: rejectNilSubStructs_def split: if_splits option.splits prod.splits)

lemma build_clients_total:
  "\<forall>c \<in> set cs. rejectNilSubStructs (ClientConfig c) = None \<Longrightarrow> build_clients (new_factory S) cs secrets out \<noteq> None"
proof (induction cs arbitrary: secrets out)
  case (Cons c cs)
  then have "New S (ClientConfig c) \<noteq> None" by (simp add: New_not_None)
  with Cons show ?case by (auto simp: new_factory_def split: option.splits sum.splits)
qed simp

text \<open>
  C28. No configuration file makes a load panic: whatever the file holds, loading it either
  gives a map or an error that is reported. The check for null sub-structures is what closes
  the panics that \<open>New\<close> has: without a section for the error pages \<open>New\<close> dereferences nil.
\<close>

theorem reload_never_panics:
  "reloadFromFile os Y (server_factory S os) path \<noteq> None
   \<and> New demo_sys ((ptrs_of (demo_config k))\<lparr>Ptr_ErrorPages := None\<rparr>) = None"
proof
  show "reloadFromFile os Y (server_factory S os) path \<noteq> None"
  proof (cases "parseMultiConfigFile os Y path")
    case (Inr cs)
    then obtain nodes where "parse_clients Y 0 nodes = Ok cs"
      by (auto simp: parseMultiConfigFile_def parseMultiConfig_def and_then_Ok split: option.splits if_splits)
    from build_clients_total [OF parsed_clients_ok [OF this]] Inr show ?thesis
      by (simp add: reloadFromFile_def buildHostMap_def server_factory_def)
  qed (simp add: reloadFromFile_def)
qed (rule demo_New_panics)

end
