(* ===== verification/Gateway.thy ===== *)
theory Gateway
  imports Tenants
begin

text \<open>
  How \<open>cmd/extauth-server\<close> is asked: the HTTP mode (\<open>main.go\<close>), where the original request
  comes in forwarding headers of a trusted gateway, and the gRPC mode (\<open>grpc.go\<close>), where it
  comes in the attributes of a \<open>CheckRequest\<close>.

  \<open>net.ParseIP\<close>, \<open>net.ParseCIDR\<close>, \<open>url.Parse\<close> and \<open>url.ParseRequestURI\<close> are parameters. A Go
  map that is ranged over is an association list with distinct keys, in any order. A
  handler that panics gives \<open>None\<close>.
\<close>

section \<open>Trusted peers\<close>

definition peerIsTrusted :: "(string \<Rightarrow> ip option) \<Rightarrow> string \<Rightarrow> IPNet list \<Rightarrow> bool" where
  "peerIsTrusted parseIP remoteAddr trustedProxies =
     (if trustedProxies = [] then False
      else
        (let host = (case SplitHostPort remoteAddr of Some (h, _) \<Rightarrow> h | None \<Rightarrow> remoteAddr)
         in case parseIP host of
              None \<Rightarrow> False
            | Some ip \<Rightarrow> list_ex (\<lambda>n. IPNet_Contains n ip) trustedProxies))"

definition proxy_entry :: "(string \<Rightarrow> ip option) \<Rightarrow> (string \<Rightarrow> IPNet result) \<Rightarrow> string \<Rightarrow> IPNet result" where
  "proxy_entry parseIP parseCIDR entry =
     (let cidr = (if Contains entry ''/'' then Ok entry
                  else case parseIP entry of
                         None \<Rightarrow> Err (''invalid IP or CIDR: '' @ entry)
                       | Some ip \<Rightarrow> Ok (entry @ ''/'' @ Itoa (if To4 ip = None then 128 else 32)))
      in and_then cidr (\<lambda>e.
           case parseCIDR e of Inl err \<Rightarrow> Err (''invalid IP or CIDR: '' @ e @ '': '' @ err) | Inr n \<Rightarrow> Ok n))"

fun proxy_entries :: "(string \<Rightarrow> ip option) \<Rightarrow> (string \<Rightarrow> IPNet result) \<Rightarrow> string list \<Rightarrow> IPNet list result" where
  "proxy_entries parseIP parseCIDR [] = Ok []"
| "proxy_entries parseIP parseCIDR (e # es) =
     (let entry = TrimSpace e
      in if entry = [] then proxy_entries parseIP parseCIDR es
         else and_then (proxy_entry parseIP parseCIDR entry)
                (\<lambda>n. and_then (proxy_entries parseIP parseCIDR es) (\<lambda>ns. Ok (n # ns))))"

definition parseTrustedProxies :: "(string \<Rightarrow> ip option) \<Rightarrow> (string \<Rightarrow> IPNet result) \<Rightarrow> string \<Rightarrow> IPNet list result" where
  "parseTrustedProxies parseIP parseCIDR v = proxy_entries parseIP parseCIDR (SplitChar CHR '','' v)"

section \<open>The HTTP mode\<close>

definition ext_lastForwardedValue :: "string \<Rightarrow> string" where
  "ext_lastForwardedValue v =
     TrimSpace (case LastIndexChar v CHR '','' of Some i \<Rightarrow> drop (i + 1) v | None \<Rightarrow> v)"

definition ext_validForwardedProto :: "string \<Rightarrow> bool" where
  "ext_validForwardedProto proto \<longleftrightarrow> proto \<in> {''http'', ''https'', ''ws'', ''wss''}"

record gateway_ops =
  Gw_ParseIP :: "string \<Rightarrow> ip option"
  ParseRequestURI :: "string \<Rightarrow> url result"
  Gw_RequestURI :: "url \<Rightarrow> string"

text \<open>The request that the forwarding headers describe; an error for an invalid URI.\<close>

definition rewritten :: "gateway_ops \<Rightarrow> request \<Rightarrow> request result" where
  "rewritten G req =
     (let h = Header req;
          req1 = (if Header_Get h ''X-Forwarded-Method'' \<noteq> [] then req\<lparr>Method := Header_Get h ''X-Forwarded-Method''\<rparr> else req);
          uri = (if Header_Get h ''X-Forwarded-Uri'' = [] then Gw_RequestURI G (URL req) else Header_Get h ''X-Forwarded-Uri'')
      in case ParseRequestURI G uri of
           Inl e \<Rightarrow> Err e
         | Inr u \<Rightarrow>
             (let host = ext_lastForwardedValue (Header_Get h ''X-Forwarded-Host'');
                  proto = ext_lastForwardedValue (Header_Get h ''X-Forwarded-Proto'');
                  req2 = (if host \<noteq> [] then req1\<lparr>Host := host\<rparr> else req1);
                  u2 = (if host \<noteq> [] then u\<lparr>UHost := host\<rparr> else u);
                  u3 = (if proto \<noteq> [] \<and> ext_validForwardedProto proto then u2\<lparr>Scheme := proto\<rparr> else u2)
              in Ok (req2\<lparr>URL := u3, RequestURI := uri\<rparr>)))"

definition forwardedRequest ::
  "gateway_ops \<Rightarrow> IPNet list \<Rightarrow> (request \<Rightarrow> rw \<Rightarrow> rw option) \<Rightarrow> request \<Rightarrow> rw \<Rightarrow> rw option" where
  "forwardedRequest G trustedProxies next req rw =
     (if \<not> peerIsTrusted (Gw_ParseIP G) (RemoteAddr req) trustedProxies then next req rw
      else case rewritten G req of
             Inl e \<Rightarrow> Some (rw @ [EvError ''invalid X-Forwarded-Uri'' 400])
           | Inr req' \<Rightarrow> next req' rw)"

text \<open>The last handler of the server: it echoes the headers of the request it gets.\<close>

type_synonym header_list = "(string \<times> string list) list"

record recorded =
  StatusCode :: int
  ResultHeader :: header_list
  RecBody :: string

definition header_of :: "header_list \<Rightarrow> header" where
  "header_of hs = (\<lambda>k. case map_of hs k of None \<Rightarrow> [] | Some vs \<Rightarrow> vs)"

definition allow :: "header_list \<Rightarrow> header \<Rightarrow> header \<times> nat" where
  "allow reqHeader rwHeader =
     (fold (\<lambda>(name, vs). fold (Header_Add name) vs) reqHeader rwHeader, 200)"

section \<open>The gRPC mode\<close>

record check_request =
  Attr_Method :: string
  Attr_Scheme :: string
  Attr_Host :: string
  Attr_Path :: string
  Attr_Headers :: "(string \<times> string) list"

datatype append_action = APPEND_IF_EXISTS_OR_ADD | ADD_IF_ABSENT | OVERWRITE_IF_EXISTS_OR_ADD | OVERWRITE_IF_EXISTS

record header_value_option =
  Key :: string
  HeaderValue :: string
  AppendAction :: append_action

text \<open>The fields of \<open>OkHttpResponse\<close> that bear on headers, and those of \<open>DeniedHttpResponse\<close>.\<close>

datatype http_response =
    OkResponse (ok_headers: "header_value_option list") (headers_to_remove: "string list")
      (response_headers_to_add: "header_value_option list")
  | DeniedResponse int "header_value_option list" string

datatype grpc_code = OK | InvalidArgument | PermissionDenied

record check_response =
  RespStatus :: grpc_code
  HttpResponse :: http_response

text \<open>
  \<open>http.NewRequestWithContext\<close>: the default method, the check of the method, the parsed URL
  without an empty port, no headers, no peer and no TLS state.
\<close>

definition hasPort :: "string \<Rightarrow> bool" where
  "hasPort s = (case LastIndexChar s CHR '':'' of
      None \<Rightarrow> False
    | Some i \<Rightarrow> (case LastIndexChar s CHR '']'' of None \<Rightarrow> True | Some j \<Rightarrow> j < i))"

definition removeEmptyPort :: "string \<Rightarrow> string" where
  "removeEmptyPort host = (if hasPort host then TrimSuffix host '':'' else host)"

definition NewRequest :: "(string \<Rightarrow> url result) \<Rightarrow> string \<Rightarrow> string \<Rightarrow> request result" where
  "NewRequest parseURL meth0 rawurl =
     (let meth = (if meth0 = [] then ''GET'' else meth0)
      in if \<not> list_all token_char meth then Err (''net/http: invalid method '' @ meth)
         else and_then (parseURL rawurl) (\<lambda>u0.
           let u = u0\<lparr>UHost := removeEmptyPort (UHost u0)\<rparr>
           in Ok \<lparr>Method = meth, URL = u, Host = UHost u, Header = (\<lambda>_. []), RemoteAddr = [], TLS = False, RequestURI = []\<rparr>))"

definition add_attribute :: "string \<times> string \<Rightarrow> header \<Rightarrow> header" where
  "add_attribute kv h =
     (case kv of (key, v) \<Rightarrow>
        if key \<in> {'':authority'', '':method'', '':path'', '':scheme''} then h
        else fold (\<lambda>x. Header_Add key (TrimSpace x)) (SplitChar CHR '','' v) h)"

definition buildHTTPRequest :: "(string \<Rightarrow> url result) \<Rightarrow> check_request \<Rightarrow> request result" where
  "buildHTTPRequest parseURL req =
     (let scheme = (if Attr_Scheme req = [] then ''https'' else Attr_Scheme req)
      in and_then (NewRequest parseURL (Attr_Method req) (scheme @ ''://'' @ Attr_Host req @ Attr_Path req)) (\<lambda>r.
           Ok (r\<lparr>Host := Attr_Host req, RequestURI := Attr_Path req,
                Header := fold add_attribute (Attr_Headers req) (Header r)\<rparr>)))"

definition headerValueOptions :: "header_list \<Rightarrow> header_value_option list" where
  "headerValueOptions h =
     concat (map (\<lambda>(name, vs). map (\<lambda>v. \<lparr>Key = name, HeaderValue = v, AppendAction = APPEND_IF_EXISTS_OR_ADD\<rparr>) vs) h)"

definition Check :: "(string \<Rightarrow> url result) \<Rightarrow> (request \<Rightarrow> recorded option) \<Rightarrow> check_request \<Rightarrow> check_response option" where
  "Check parseURL next req =
     (case buildHTTPRequest parseURL req of
        Inl err \<Rightarrow> Some \<lparr>RespStatus = InvalidArgument, HttpResponse = DeniedResponse 400 [] err\<rparr>
      | Inr httpReq \<Rightarrow>
          (case next httpReq of
             None \<Rightarrow> None
           | Some rec \<Rightarrow>
               if 200 \<le> StatusCode rec \<and> StatusCode rec < 300
               then Some \<lparr>RespStatus = OK, HttpResponse = OkResponse (headerValueOptions (ResultHeader rec)) [] []\<rparr>
               else Some \<lparr>RespStatus = PermissionDenied,
                      HttpResponse = DeniedResponse
                        (if StatusCode rec < 100 \<or> 599 < StatusCode rec then 500 else StatusCode rec)
                        (headerValueOptions (ResultHeader rec)) (RecBody rec)\<rparr>))"

definition recoveryInterceptor :: "check_response option \<Rightarrow> check_response result" where
  "recoveryInterceptor handled = (case handled of None \<Rightarrow> Err ''internal error'' | Some resp \<Rightarrow> Ok resp)"

section \<open>Two readings of a forwarding header\<close>

definition trim_right :: "string \<Rightarrow> string" where
  "trim_right s = rev (dropWhile is_space (rev s))"

lemma TrimSpace_right: "TrimSpace s = trim_right (dropWhile is_space s)"
  by (simp add: TrimSpace_def trim_right_def)

lemma trim_right_append:
  "trim_right (u @ v) = (if \<forall>c \<in> set v. is_space c then trim_right u else u @ trim_right v)"
  by (auto simp: trim_right_def dropWhile_append)

lemma trim_right_Cons: "\<not> is_space c \<Longrightarrow> trim_right (c # v) = c # trim_right v"
  by (auto simp: trim_right_def dropWhile_append)

lemma trim_right_idem: "trim_right (trim_right s) = trim_right s"
  by (simp add: trim_right_def dropWhile_idem)

lemma trim_right_spaces: "\<forall>c \<in> set s. is_space c \<Longrightarrow> trim_right s = []"
  by (simp add: trim_right_def)

lemma set_trim_right: "set (trim_right s) \<subseteq> set s"
  by (auto simp: trim_right_def dest: set_dropWhileD)

lemma trim_right_skips: "TrimSpace (trim_right s) = TrimSpace s"
proof (induction s)
  case (Cons c s)
  show ?case
  proof (cases "is_space c")
    case True
    show ?thesis
    proof (cases "\<forall>x \<in> set s. is_space x")
      case True
      with \<open>is_space c\<close> have "\<forall>x \<in> set (c # s). is_space x" by simp
      then have "trim_right (c # s) = []" and "dropWhile is_space (c # s) = []"
        by (rule trim_right_spaces) (use \<open>\<forall>x \<in> set (c # s). is_space x\<close> in \<open>simp only: dropWhile_eq_Nil_conv\<close>)
      then show ?thesis by (simp only: TrimSpace_right dropWhile.simps)
    next
      case False
      then have "trim_right (c # s) = c # trim_right s" using trim_right_append [of "[c]" s] by auto
      with Cons \<open>is_space c\<close> show ?thesis by (simp add: TrimSpace_right)
    qed
  next
    case False
    then show ?thesis by (simp add: TrimSpace_right trim_right_Cons trim_right_idem)
  qed
qed (simp add: trim_right_def)

lemma dropWhile_comma: "\<not> is_space c \<Longrightarrow> dropWhile is_space (u @ c # v) = dropWhile is_space u @ c # v"
  by (simp add: dropWhile_append)

text \<open>
  The server and the plugin read a forwarding header alike: the two implementations of
  \<open>lastForwardedValue\<close>, of which only one trims before it looks for the last comma, and of
  \<open>validForwardedProto\<close> are the same functions. So the host that a request is routed by in
  HTTP mode is the host that the plugin then uses in absolute URLs.
\<close>

theorem forwarded_values_agree:
  "ext_lastForwardedValue = lastForwardedValue \<and> ext_validForwardedProto = validForwardedProto"
proof
  have sp: "\<not> is_space CHR '',''" by (simp add: is_space_def)
  have "ext_lastForwardedValue v = lastForwardedValue v" for v
  proof (cases "CHR '','' \<in> set v")
    case False
    then have "CHR '','' \<notin> set (TrimSpace v)" using set_TrimSpace by blast
    with False show ?thesis
      by (simp add: ext_lastForwardedValue_def lastForwardedValue_def Let_def LastIndexChar_None [THEN iffD2])
  next
    case True
    then obtain u w where v: "v = u @ CHR '','' # w" "CHR '','' \<notin> set w" by (meson split_list_last)
    then have "CHR '','' \<notin> set (trim_right w)" using set_trim_right by blast
    moreover have "TrimSpace v = dropWhile is_space u @ CHR '','' # trim_right w"
      using trim_right_append [of "dropWhile is_space u" "CHR '','' # w"] sp
      by (simp add: v TrimSpace_right dropWhile_comma trim_right_Cons)
    ultimately show ?thesis
      using v by (simp add: ext_lastForwardedValue_def lastForwardedValue_def Let_def LastIndexChar_append trim_right_skips)
  qed
  then show "ext_lastForwardedValue = lastForwardedValue" by blast
  show "ext_validForwardedProto = validForwardedProto"
    by (intro ext) (simp add: ext_validForwardedProto_def validForwardedProto_def)
qed

text \<open>The last entry of a list that is separated by commas, stated without a search.\<close>

definition is_last_entry :: "string \<Rightarrow> string \<Rightarrow> bool" where
  "is_last_entry v e \<longleftrightarrow> CHR '','' \<notin> set e \<and> (v = e \<or> (\<exists>front. v = front @ CHR '','' # e))"

lemma ext_lastForwardedValue_last: "is_last_entry v e \<Longrightarrow> ext_lastForwardedValue v = TrimSpace e"
  by (auto simp: is_last_entry_def ext_lastForwardedValue_def LastIndexChar_append LastIndexChar_None [THEN iffD2])

section \<open>The HTTP mode\<close>

lemma rewritten_Ok:
  assumes "rewritten G req = Ok req'"
  shows "Header req' = Header req" "RemoteAddr req' = RemoteAddr req" "TLS req' = TLS req"
    "Host req' = (let h = ext_lastForwardedValue (Header_Get (Header req) ''X-Forwarded-Host'') in if h = [] then Host req else h)"
  using assms
  by (auto simp: rewritten_def Let_def split: sum.splits if_splits)

text \<open>
  C20. Forwarding headers only work for a trusted gateway. A peer outside the trusted networks,
  and every peer when none is configured, has its request served as it came. For a trusted
  peer the URI is that of \<open>X-Forwarded-Uri\<close>, or the request's own. If it does not parse, and
  only then, the answer is 400 and no handler runs. Otherwise the handler gets the request
  with this URI, the path and query it parses to, the forwarded method, and as host the
  last entry of \<open>X-Forwarded-Host\<close>, without blanks, unless that is empty; the scheme is the
  last entry of \<open>X-Forwarded-Proto\<close> if that is a web scheme. Headers, peer address and TLS
  state stay, so what is trusted later is decided on the real connection.
\<close>

theorem forwardedRequest_trust:
  "(if peerIsTrusted (Gw_ParseIP G) (RemoteAddr req) nets
    then (let uri = (if Header_Get (Header req) ''X-Forwarded-Uri'' \<noteq> [] then Header_Get (Header req) ''X-Forwarded-Uri''
                     else Gw_RequestURI G (URL req))
          in case ParseRequestURI G uri of
               Inl e \<Rightarrow> forwardedRequest G nets next req rw = Some (rw @ [EvError ''invalid X-Forwarded-Uri'' 400])
             | Inr u \<Rightarrow> (\<exists>req'. forwardedRequest G nets next req rw = next req' rw
                 \<and> Header req' = Header req \<and> RemoteAddr req' = RemoteAddr req \<and> TLS req' = TLS req
                 \<and> RequestURI req' = uri \<and> Path (URL req') = Path u \<and> RawQuery (URL req') = RawQuery u
                 \<and> Method req' = (if Header_Get (Header req) ''X-Forwarded-Method'' = [] then Method req
                                   else Header_Get (Header req) ''X-Forwarded-Method'')
                 \<and> (\<forall>e. is_last_entry (Header_Get (Header req) ''X-Forwarded-Host'') e \<longrightarrow>
                      Host req' = (if TrimSpace e = [] then Host req else TrimSpace e)
                      \<and> UHost (URL req') = (if TrimSpace e = [] then UHost u else TrimSpace e))
                 \<and> (\<forall>e. is_last_entry (Header_Get (Header req) ''X-Forwarded-Proto'') e \<longrightarrow>
                      Scheme (URL req') = (if TrimSpace e \<in> {''http'', ''https'', ''ws'', ''wss''} then TrimSpace e else Scheme u))))
    else forwardedRequest G nets next req rw = next req rw)
   \<and> \<not> peerIsTrusted (Gw_ParseIP G) (RemoteAddr req) []"
proof -
  let ?h = "Header req"
  let ?uri = "if Header_Get ?h ''X-Forwarded-Uri'' \<noteq> [] then Header_Get ?h ''X-Forwarded-Uri'' else Gw_RequestURI G (URL req)"
  show ?thesis
  proof (cases "ParseRequestURI G ?uri")
    case (Inl e)
    then have "rewritten G req = Err e" by (auto simp: rewritten_def Let_def split: if_splits)
    with Inl show ?thesis by (simp add: forwardedRequest_def peerIsTrusted_def Let_def)
  next
    case (Inr u)
    then obtain req' where q: "rewritten G req = Ok req'" by (auto simp: rewritten_def Let_def split: if_splits)
    have f: "RequestURI req' = ?uri" "Path (URL req') = Path u" "RawQuery (URL req') = RawQuery u"
      "Method req' = (if Header_Get ?h ''X-Forwarded-Method'' = [] then Method req else Header_Get ?h ''X-Forwarded-Method'')"
      using q Inr by (auto simp: rewritten_def Let_def split: if_splits)
    have host: "Host req' = (if TrimSpace e = [] then Host req else TrimSpace e)
        \<and> UHost (URL req') = (if TrimSpace e = [] then UHost u else TrimSpace e)"
      if "is_last_entry (Header_Get ?h ''X-Forwarded-Host'') e" for e
      using q Inr ext_lastForwardedValue_last [OF that] by (auto simp: rewritten_def Let_def split: if_splits)
    have proto: "Scheme (URL req') = (if TrimSpace e \<in> {''http'', ''https'', ''ws'', ''wss''} then TrimSpace e else Scheme u)"
      if "is_last_entry (Header_Get ?h ''X-Forwarded-Proto'') e" for e
      using q Inr ext_lastForwardedValue_last [OF that]
      by (auto simp: rewritten_def Let_def ext_validForwardedProto_def split: if_splits)
    from rewritten_Ok(1-3) [OF q] f host proto Inr q show ?thesis
      unfolding Let_def by (auto simp: forwardedRequest_def peerIsTrusted_def intro!: exI [of _ req'])
  qed
qed

definition demo_gateway :: gateway_ops where
  "demo_gateway = \<lparr>Gw_ParseIP = ParseIP proxy_env,
     ParseRequestURI = (\<lambda>s. Ok \<lparr>Scheme = [], UHost = [], Path = s, RawQuery = []\<rparr>), Gw_RequestURI = Path\<rparr>"

lemma demo_gateway_trusts:
  "peerIsTrusted (Gw_ParseIP demo_gateway) ''10.0.0.1:4711'' (TrustedProxyNets proxy_config)"
  by (simp add: peerIsTrusted_def demo_gateway_def proxy_config_def proxy_env_def SplitHostPort_def IPNet_Contains_def
      networkNumberAndMask_def To4_def upt_conv_Cons)

theorem forwardedRequest_trust_witness:
  "\<exists>req'. forwardedRequest demo_gateway (TrustedProxyNets proxy_config) (\<lambda>r rw. Some (rw @ [EvForward r]))
        (html_request\<lparr>RemoteAddr := ''10.0.0.1:4711'', Header := (\<lambda>_. [])(''X-Forwarded-Host'' := [''evil.example, app.example''],
           ''X-Forwarded-Uri'' := [''/x''])\<rparr>) []
      = Some [EvForward req'] \<and> Host req' = ''app.example'' \<and> RequestURI req' = ''/x''"
proof -
  let ?req = "html_request\<lparr>RemoteAddr := ''10.0.0.1:4711'', Header := (\<lambda>_. [])(''X-Forwarded-Host'' := [''evil.example, app.example''],
      ''X-Forwarded-Uri'' := [''/x''])\<rparr>"
  let ?nets = "TrustedProxyNets proxy_config" and ?next = "\<lambda>r rw. Some (rw @ [EvForward r])"
  have p: "peerIsTrusted (Gw_ParseIP demo_gateway) (RemoteAddr ?req) ?nets" using demo_gateway_trusts by simp
  have "CanonicalHeaderKey ''X-Forwarded-Host'' = ''X-Forwarded-Host''" "CanonicalHeaderKey ''X-Forwarded-Uri'' = ''X-Forwarded-Uri''"
    by code_simp+
  then have h: "Header_Get (Header ?req) ''X-Forwarded-Host'' = ''evil.example, app.example''"
    "Header_Get (Header ?req) ''X-Forwarded-Uri'' = ''/x''" by (simp_all add: Header_Get_def)
  have l: "is_last_entry ''evil.example, app.example'' '' app.example''"
    unfolding is_last_entry_def by (intro conjI disjI2 exI [of _ "''evil.example''"]) simp_all
  have tr: "TrimSpace '' app.example'' = ''app.example''" by code_simp
  obtain u where u: "ParseRequestURI demo_gateway ''/x'' = Ok u" by (simp add: demo_gateway_def)
  have uri: "(if ''/x'' \<noteq> [] then ''/x'' else y) = ''/x''" for y :: string by simp
  note T = forwardedRequest_trust [of demo_gateway ?req ?nets ?next "[]", THEN conjunct1, unfolded if_P [OF p] Let_def h uri u sum.case]
  from T obtain req' where "forwardedRequest demo_gateway ?nets ?next ?req [] = ?next req' []" "RequestURI req' = ''/x''"
    and "\<forall>e. is_last_entry ''evil.example, app.example'' e \<longrightarrow> Host req' = (if TrimSpace e = [] then Host ?req else TrimSpace e)
          \<and> UHost (URL req') = (if TrimSpace e = [] then UHost u else TrimSpace e)" by (elim exE conjE) blast
  with l tr show ?thesis by fastforce
qed

section \<open>The gRPC mode\<close>

lemma buildHTTPRequest_Ok:
  assumes "buildHTTPRequest parseURL req = Ok r"
  shows "Host r = Attr_Host req" "RemoteAddr r = []" "TLS r = False" "RequestURI r = Attr_Path req"
    "Header r = fold add_attribute (Attr_Headers req) (\<lambda>_. [])"
  using assms by (auto simp: buildHTTPRequest_def NewRequest_def Let_def and_then_Ok split: if_splits)

text \<open>
  C21. The gRPC mode fails closed. The call ends with an error, and without an answer, exactly
  if the request could be rebuilt and the handler panicked on it. It allows the request exactly
  if the request could be rebuilt and the handler answered it with a 2xx status. Every other
  answer is a denial: 400 for a request that cannot be rebuilt, else the status of the handler
  (500 if HTTP does not know it) with its headers and its body.
\<close>

theorem Check_fails_closed:
  "((\<exists>e. recoveryInterceptor (Check parseURL next req) = Err e) \<longleftrightarrow> (\<exists>r. buildHTTPRequest parseURL req = Ok r \<and> next r = None))
   \<and> (\<forall>resp. recoveryInterceptor (Check parseURL next req) = Ok resp \<longrightarrow>
        (RespStatus resp = OK \<longleftrightarrow>
           (\<exists>r rec. buildHTTPRequest parseURL req = Ok r \<and> next r = Some rec \<and> StatusCode rec div 100 = 2))
        \<and> (case HttpResponse resp of
             OkResponse hs rm add \<Rightarrow> RespStatus resp = OK
           | DeniedResponse code hs b \<Rightarrow> RespStatus resp \<noteq> OK
               \<and> (\<forall>err. buildHTTPRequest parseURL req = Err err \<longrightarrow> code = 400 \<and> hs = [] \<and> b = err)
               \<and> (\<forall>r rec. buildHTTPRequest parseURL req = Ok r \<and> next r = Some rec \<longrightarrow>
                    b = RecBody rec \<and> hs = headerValueOptions (ResultHeader rec)
                    \<and> code = (if StatusCode rec \<in> {100..599} then StatusCode rec else 500))))"
proof -
  have two: "200 \<le> n \<and> n < 300 \<longleftrightarrow> n div 100 = 2" for n :: int by presburger
  show ?thesis
    by (auto simp: recoveryInterceptor_def Check_def two split: sum.splits option.splits)
qed

definition demo_check :: check_request where
  "demo_check = \<lparr>Attr_Method = ''GET'', Attr_Scheme = ''https'', Attr_Host = ''app.example'', Attr_Path = ''/'',
     Attr_Headers = [('':scheme'', ''https''), (''x-forwarded-proto'', ''https''), (''x-forwarded-user'', ''root'')]\<rparr>"

definition demo_parse :: "string \<Rightarrow> url result" where
  "demo_parse s = Ok \<lparr>Scheme = ''https'', UHost = ''app.example'', Path = ''/'', RawQuery = []\<rparr>"

lemma demo_built: "\<exists>r. buildHTTPRequest demo_parse demo_check = Ok r"
  by (simp add: buildHTTPRequest_def NewRequest_def demo_check_def demo_parse_def Let_def and_then_def token_char_def)

theorem Check_fails_closed_witness:
  "\<exists>resp. recoveryInterceptor (Check demo_parse (\<lambda>r. Some \<lparr>StatusCode = 204, ResultHeader = [], RecBody = []\<rparr>) demo_check) = Ok resp
     \<and> RespStatus resp = OK"
proof -
  obtain r where r: "buildHTTPRequest demo_parse demo_check = Ok r" using demo_built by blast
  let ?next = "\<lambda>r. Some \<lparr>StatusCode = 204, ResultHeader = [], RecBody = []\<rparr>"
  obtain resp where s: "recoveryInterceptor (Check demo_parse ?next demo_check) = Ok resp"
    by (simp add: recoveryInterceptor_def Check_def r)
  with Check_fails_closed [of demo_parse ?next demo_check] r show ?thesis by simp
qed

text \<open>
  In gRPC mode the scheme of the client's request is lost: a rebuilt request has no peer
  and no TLS state, so no forwarding header of it is trusted, and the absolute URLs that the
  middleware derives from it, the callback URL for the identity provider among them, start
  with \<open>http\<close> whatever scheme the attributes or the headers say.
\<close>

theorem grpc_scheme_lost:
  assumes "buildHTTPRequest parseURL req = Ok r"
  shows "requestScheme E cfg r = ''http'' \<and> requestHost E cfg r = Attr_Host req
    \<and> fullHost E cfg r = ''http://'' @ Attr_Host req
    \<and> (\<not> UrlIsAbsolute cb \<longrightarrow> Scheme (GetAbsoluteCallbackURL E cfg cb r) = ''http'')"
proof -
  have "\<not> requestFromTrustedProxy E cfg r"
    using buildHTTPRequest_Ok(2) [OF assms] by (auto simp: requestFromTrustedProxy_def peerIP_def split: if_splits)
  then show ?thesis
    using buildHTTPRequest_Ok [OF assms]
    by (simp add: requestScheme_def requestHost_def fullHost_def GetAbsoluteCallbackURL_def)
qed

theorem grpc_scheme_lost_witness:
  "\<exists>r. buildHTTPRequest demo_parse demo_check = Ok r \<and> Attr_Scheme demo_check = ''https''
     \<and> fullHost dead_env CreateConfig r = ''http://app.example''"
  using demo_built grpc_scheme_lost [where E = dead_env and cfg = CreateConfig] by (auto simp: demo_check_def)

section \<open>Headers in gRPC mode\<close>

lemma Header_Add_values: "fold (\<lambda>x. Header_Add k (f x)) xs h = h(CanonicalHeaderKey k := h (CanonicalHeaderKey k) @ map f xs)"
  by (induction xs arbitrary: h) (auto simp: Header_Add_def fun_eq_iff)

definition pseudo_header :: "string \<Rightarrow> bool" where
  "pseudo_header k \<longleftrightarrow> k \<in> {'':authority'', '':method'', '':path'', '':scheme''}"

lemma add_attributes:
  "fold add_attribute kvs h k = h k @ concat (map (\<lambda>(key, v).
     if \<not> pseudo_header key \<and> CanonicalHeaderKey key = k then map TrimSpace (SplitChar CHR '','' v) else []) kvs)"
proof (induction kvs arbitrary: h)
  case (Cons kv kvs)
  obtain key v where kv: "kv = (key, v)" by (cases kv)
  have a: "add_attribute (key, v) h = (if pseudo_header key then h
      else h(CanonicalHeaderKey key := h (CanonicalHeaderKey key) @ map TrimSpace (SplitChar CHR '','' v)))"
    by (simp add: add_attribute_def pseudo_header_def Header_Add_values)
  show ?case by (simp add: kv a Cons)
qed simp

lemma concat_single: "distinct (map g xs) \<Longrightarrow> x \<in> set xs \<Longrightarrow> concat (map (\<lambda>y. if g y = g x then f y else []) xs) = f x"
proof (induction xs)
  case (Cons y ys)
  have none: "concat (map (\<lambda>y. if g y = g x then f y else []) zs) = []" if "g x \<notin> g ` set zs" for zs
    using that by (auto simp: image_iff)
  show ?case
  proof (cases "y = x")
    case True
    with Cons.prems none [of ys] show ?thesis by simp
  next
    case False
    with Cons.prems have "g y \<noteq> g x" by (auto simp: image_iff)
    with False Cons show ?thesis by simp
  qed
qed simp

text \<open>
  What a header of the \<open>CheckRequest\<close> becomes: its value is split at every comma, and
  the middleware sees the pieces as separate values. A value without a comma arrives as it
  is, apart from surrounding blanks; of any other value \<open>Header.Get\<close> returns the first piece
  only. The pseudo headers do not arrive.
\<close>

theorem buildHTTPRequest_headers:
  assumes "buildHTTPRequest parseURL req = Ok r" "distinct (map (CanonicalHeaderKey \<circ> fst) (Attr_Headers req))"
    and "(key, v) \<in> set (Attr_Headers req)" "\<not> pseudo_header key"
  shows "Header r (CanonicalHeaderKey key) = map TrimSpace (SplitChar CHR '','' v)
    \<and> Header_Get (Header r) key = TrimSpace (takeWhile (\<lambda>c. c \<noteq> CHR '','') v)
    \<and> (\<forall>k. k \<notin> (CanonicalHeaderKey \<circ> fst) ` set (filter (\<lambda>kv. \<not> pseudo_header (fst kv)) (Attr_Headers req)) \<longrightarrow> Header r k = [])"
proof -
  note h = buildHTTPRequest_Ok(5) [OF assms(1)]
  let ?f = "\<lambda>(key, v). if pseudo_header key then [] else map TrimSpace (SplitChar CHR '','' v)"
  have eq: "(\<lambda>(key', v). if \<not> pseudo_header key' \<and> CanonicalHeaderKey key' = CanonicalHeaderKey key then map TrimSpace (SplitChar CHR '','' v) else [])
      = (\<lambda>y. if (CanonicalHeaderKey \<circ> fst) y = (CanonicalHeaderKey \<circ> fst) (key, v) then ?f y else [])"
    by (auto simp: fun_eq_iff)
  have r: "Header r (CanonicalHeaderKey key) = map TrimSpace (SplitChar CHR '','' v)"
    using concat_single [OF assms(2,3), of ?f] assms(4) unfolding h add_attributes eq by simp
  have s: "\<exists>ps. SplitChar c s = takeWhile (\<lambda>x. x \<noteq> c) s # ps" for c s
    by (induction s) (auto split: list.splits)
  obtain ps where "SplitChar CHR '','' v = takeWhile (\<lambda>c. c \<noteq> CHR '','') v # ps" using s by blast
  then have g: "Header_Get (Header r) key = TrimSpace (takeWhile (\<lambda>c. c \<noteq> CHR '','') v)" by (simp add: Header_Get_def r)
  have "Header r k = []" if "k \<notin> (CanonicalHeaderKey \<circ> fst) ` set (filter (\<lambda>kv. \<not> pseudo_header (fst kv)) (Attr_Headers req))" for k
    using that unfolding h add_attributes by (force simp: image_iff)
  with r g show ?thesis by blast
qed

theorem buildHTTPRequest_headers_witness:
  "\<exists>r. buildHTTPRequest demo_parse demo_check = Ok r \<and> Header_Get (Header r) ''x-forwarded-user'' = ''root''"
proof -
  obtain r where r: "buildHTTPRequest demo_parse demo_check = Ok r" using demo_built by blast
  have d: "distinct (map (CanonicalHeaderKey \<circ> fst) (Attr_Headers demo_check))" by code_simp
  have i: "(''x-forwarded-user'', ''root'') \<in> set (Attr_Headers demo_check)" by (simp add: demo_check_def)
  have p: "\<not> pseudo_header ''x-forwarded-user''" by (simp add: pseudo_header_def)
  have w: "TrimSpace (takeWhile (\<lambda>c. c \<noteq> CHR '','') ''root'') = ''root''" by code_simp
  from buildHTTPRequest_headers [OF r d i p] r w show ?thesis by simp
qed

text \<open>The \<open>allow\<close> handler passes the headers of the request on as they are.\<close>

lemma allow_header:
  assumes "distinct (map fst hs)" "list_all (\<lambda>(k, _). CanonicalHeaderKey k = k) hs"
  shows "allow hs w = (\<lambda>k. w k @ header_of hs k, 200)"
proof -
  have "fold (\<lambda>(name, vs). fold (Header_Add name) vs) hs w = (\<lambda>k. w k @ header_of hs k)"
    using assms
  proof (induction hs arbitrary: w)
    case (Cons kv hs)
    obtain k vs where kv: "kv = (k, vs)" by (cases kv)
    with Cons.prems have c: "CanonicalHeaderKey k = k" "map_of hs k = None" by (auto simp: map_of_eq_None_iff)
    have "fold (Header_Add k) vs w = w(k := w k @ vs)"
      using Header_Add_values [of k "\<lambda>x. x" vs w] c by simp
    with Cons kv c show ?case by (auto simp: header_of_def fun_eq_iff)
  qed (simp add: header_of_def)
  then show ?thesis by (simp add: allow_def)
qed

section \<open>What the protocols rely on\<close>

text \<open>
  The contract of the handler behind the server: it answers with a 2xx status only what may
  pass. Both modes then tell the gateway to admit only such requests.
\<close>

locale verdict_handler =
  fixes run :: "request \<Rightarrow> recorded option"
    and may_pass :: "request \<Rightarrow> bool"
  assumes verdict: "run r = Some rec \<Longrightarrow> StatusCode rec div 100 = 2 \<Longrightarrow> may_pass r"
begin

lemma Check_admits:
  assumes "Check parseURL run req = Some resp" "RespStatus resp = OK"
  shows "\<exists>r. buildHTTPRequest parseURL req = Ok r \<and> may_pass r"
proof -
  from assms obtain r rec where r: "buildHTTPRequest parseURL req = Ok r" "run r = Some rec"
    and "200 \<le> StatusCode rec" "StatusCode rec < 300"
    by (auto simp: Check_def split: sum.splits option.splits if_splits)
  then have "StatusCode rec div 100 = 2" by presburger
  with r verdict show ?thesis by blast
qed

text \<open>In HTTP mode the request that passed the handler is the one the gateway described.\<close>

lemma forwarded_admits:
  assumes "peerIsTrusted (Gw_ParseIP G) (RemoteAddr req) nets" "rewritten G req = Ok r"
    and "run r = Some rec" "StatusCode rec div 100 = 2"
  shows "may_pass r \<and> Host r = (let h = ext_lastForwardedValue (Header_Get (Header req) ''X-Forwarded-Host'') in if h = [] then Host req else h)"
  using verdict [OF assms(3,4)] rewritten_Ok(4) [OF assms(2)] by simp

end

end
