(* ===== verification/ExtAuthz.thy ===== *)
theory ExtAuthz
  imports Gateway
begin

text \<open>
  The middleware behind the external authorization protocol: what the gateway makes of the
  answers of \<open>ServeHTTP\<close>. Both modes take the status as the verdict, so this theory follows
  the status of every answer that the handlers of \<open>src/main.go\<close> write. The gRPC mode answers
  with headers as well; the last part is about those that the middleware removed.
\<close>

section \<open>The status of an answer\<close>

text \<open>
  The first event that commits the response decides its status. The wrapped handler is the
  \<open>allow\<close> handler of the server, which answers 200; so does the recorder when nothing is
  written.
\<close>

fun event_status :: "rw_event \<Rightarrow> nat option" where
  "event_status (EvError _ code) = Some code"
| "event_status (EvRedirect _ code) = Some code"
| "event_status (EvPage code _) = Some code"
| "event_status (EvProblem code _ _ _) = Some code"
| "event_status (EvForward _) = Some (snd (allow [] (\<lambda>_. [])))"
| "event_status _ = None"

fun rw_status :: "rw \<Rightarrow> nat" where
  "rw_status [] = 200"
| "rw_status (e # es) = (case event_status e of Some code \<Rightarrow> code | None \<Rightarrow> rw_status es)"

definition success :: "nat \<Rightarrow> bool" where
  "success code \<longleftrightarrow> 200 \<le> code \<and> code < 300"

text \<open>The events with which the handlers refuse, redirect or hand on a request; they set two headers only.\<close>

definition ordinary :: "rw_event \<Rightarrow> bool" where
  "ordinary e \<longleftrightarrow> (forwards e \<or> (case event_status e of Some code \<Rightarrow> \<not> success code | None \<Rightarrow> True))
     \<and> (\<forall>k v. e = EvSetHeader k v \<longrightarrow> k \<in> {''Content-Type'', ''Cache-Control''})"

lemma ordinary_simps [simp]:
  "ordinary (EvForward r)" "ordinary (EvSetCookie c)"
  "ordinary (EvSetHeader k v) \<longleftrightarrow> k = ''Content-Type'' \<or> k = ''Cache-Control''"
  "ordinary (EvError msg code) \<longleftrightarrow> \<not> success code" "ordinary (EvRedirect u code) \<longleftrightarrow> \<not> success code"
  "ordinary (EvPage code html) \<longleftrightarrow> \<not> success code" "ordinary (EvProblem code x y z) \<longleftrightarrow> \<not> success code"
  by (simp_all add: ordinary_def)

lemma success_codes [simp]:
  "\<not> success 302" "\<not> success 400" "\<not> success 401" "\<not> success 403" "\<not> success 500" "success 200"
  by (simp_all add: success_def)

lemma ordinary_WriteError: "\<not> success (statusCode d) \<Longrightarrow> appends ordinary (WriteError E page d)"
  unfolding WriteError_def by (intro hoare emit_events) simp_all

lemma ordinary_pages [hoare]:
  "appends ordinary (writeUnauthenticatedError E)" "appends ordinary (writeUnauthorizedError E)"
  "appends ordinary unavailable" "appends ordinary (internalError msg)"
  unfolding writeUnauthenticatedError_def writeUnauthorizedError_def unavailable_def internalError_def
  by (intro hoare emit_events ordinary_WriteError; simp)+

lemma ordinary_redirects [hoare]:
  "appends ordinary (seal_and_redirect E u v st)" "appends ordinary (redirectToProvider E r ch)"
  "appends ordinary (doubleRedirectToProvider E r ch)"
proof -
  show seal: "appends ordinary (seal_and_redirect E u v st)" for u v st
    unfolding seal_and_redirect_def by (intro hoare) simp_all
  show "appends ordinary (redirectToProvider E r ch)"
    unfolding redirectToProvider_def by (intro hoare seal) simp_all
  show "appends ordinary (doubleRedirectToProvider E r ch)"
    unfolding doubleRedirectToProvider_def by (intro hoare) simp_all
qed

lemma ordinary_forward [hoare]: "appends ordinary next_ServeHTTP" "appends ordinary forwardToUpstream"
  unfolding next_ServeHTTP_def forwardToUpstream_def sanitize_def by (intro hoare emit_events; simp)+

lemma ordinary_login [hoare]:
  "appends ordinary (handleLogin E ch o')" "appends ordinary (handleUnauthenticated E)"
  "appends ordinary (handleUnauthorized E sess o')"
proof -
  show l: "appends ordinary (handleLogin E ch o')" for ch o'
    unfolding handleLogin_def by (intro hoare) simp_all
  show "appends ordinary (handleUnauthenticated E)" "appends ordinary (handleUnauthorized E sess o')"
    unfolding handleUnauthenticated_def handleUnauthorized_def by (intro hoare l; simp)+
qed

lemma ordinary_store [hoare]: "appends ordinary (store_if_due E sess upd)"
  unfolding store_if_due_def storeSessionAndAttachCookie_def by (intro hoare) simp_all

lemma ordinary_session [hoare]:
  "appends ordinary (clear_session_cookie E)" "appends ordinary (handleLogout E sess)"
  "appends ordinary (forward_session E pub sess c upd)"
  unfolding clear_session_cookie_def handleLogout_def forward_session_def sanitize_def attachHeaders_def Let_def
  by (intro hoare; simp)+

lemma ordinary_callback [hoare]: "appends ordinary (handleCallback E)"
proof -
  have fin: "appends ordinary (finish_login E st sess)" for st sess
    unfolding finish_login_def by (intro hoare) (auto intro: sets_cookies_if sets_cookies_id cookie_writers)
  have val: "appends ordinary (validateCallbackToken E token st)" for token st
    unfolding validateCallbackToken_def by (intro hoare) simp_all
  have est: "appends ordinary (establishSession E token c st)" for token c st
    unfolding establishSession_def storeSessionAndAttachCookie_def Let_def by (intro hoare) simp_all
  have log: "appends ordinary (callback_login E st)" for st
    unfolding callback_login_def complete_login_def by (intro hoare fin val est) simp_all
  show ?thesis
    unfolding handleCallback_def callback_action_def by (intro hoare log) simp_all
qed

section \<open>Which answers admit a request\<close>

text \<open>On the front-channel route every event is possible, elsewhere the ordinary ones only.\<close>

definition admits :: "Config \<Rightarrow> request \<Rightarrow> rw_event \<Rightarrow> bool" where
  "admits cfg req e \<longleftrightarrow> ordinary e \<or> pathMatchesConfiguredRoute req (FrontChannelLogoutUri cfg)"

lemma adds_ordinary: "appends ordinary m \<Longrightarrow> adds I (admits cfg req) m"
  by (rule adds_appends, erule appends_mono) (simp add: admits_def)

lemma adds_on_route:
  "pathMatchesConfiguredRoute req (FrontChannelLogoutUri cfg) \<Longrightarrow> appends B m \<Longrightarrow> adds I (admits cfg req) m"
  by (rule adds_appends, erule appends_mono) (simp add: admits_def)

lemma admits_serve_session: "adds (serving cfg req) (admits cfg req) (serve_session E pub sess c upd)"
  unfolding serve_session_def Let_def
  by (intro adds_ask_serving adds_branch)
    (rule adds_ordinary [OF ordinary_session(2)] adds_on_route [OF _ quiet_logouts(2)] adds_ordinary [OF ordinary_login(3)]
       adds_ordinary [OF ordinary_session(3)]; assumption?)+

lemma admits_serve_anonymous: "adds (serving cfg req) (admits cfg req) (serve_anonymous E pub err)"
proof -
  have logout: "adds (serving cfg req) (admits cfg req) (do { writeSuccessfulLogout E; return Served })"
    if "pathMatchesConfiguredRoute req (FrontChannelLogoutUri cfg)"
    by (rule adds_then_served, rule adds_on_route [OF that no_forward_pages(3)])
  have rest: "appends ordinary (do { clear_session_cookie E; handleUnauthenticated E; return Served })"
    "appends ordinary (do { forwardToUpstream; return Served })" "appends ordinary (return Panicked :: ('a, outcome) m)"
    by (intro hoare)+
  show ?thesis unfolding serve_anonymous_def
    by (intro adds_ask_serving adds_branch adds_ordinary rest logout)
qed

lemma admits_authenticate: "adds (serving cfg req) (admits cfg req) (authenticate E pub)"
  unfolding authenticate_def
proof (rule adds_inner_bind [OF inner_getSessionForRequest])
  fix x :: "SessionState option \<times> claims \<times> bool \<times> error option"
  obtain so c u err where x: "x = (so, c, u, err)" by (cases x)
  show "adds (serving cfg req) (admits cfg req) (case x of
      (Some sess, claims, updateSession, None) \<Rightarrow> do { serve_session E pub sess claims updateSession; return Served }
    | (_, _, _, err) \<Rightarrow> serve_anonymous E pub err)"
    by (cases so; cases err) (simp_all add: x admits_serve_anonymous adds_then_served admits_serve_session)
qed

lemma ServeHTTP_admits:
  assumes "run_state (ServeHTTP E) s = (out, s')" "Rw s = []"
  shows "list_all (admits (Config s) (Req s)) (Rw s')"
proof -
  let ?A = "admits (Config s) (Req s)"
  let ?pub = "case BypassRule E of None \<Rightarrow> False | Some rule \<Rightarrow> rule (Req s)"
  obtain e s1 where d: "run_state (EnsureOidcDiscovery E) s = (e, s1)" by (cases "run_state (EnsureOidcDiscovery E) s")
  obtain iss aud where f: "Req s1 = Req s" "Rw s1 = Rw s"
    "Config s1 = (Config s)\<lparr>Provider := (Provider (Config s))\<lparr>ValidIssuer := iss, ValidAudience := aud\<rparr>\<rparr>"
    by (rule discovery_frame [OF d])
  have same: "admits (Config s1) (Req s1) = ?A" by (intro ext) (simp add: admits_def f)
  have run: "\<exists>evs. Rw s2 = Rw s0 @ evs \<and> list_all ?A evs"
    if "adds (serving (Config s0) (Req s0)) ?A m" "run_state m s0 = (x, s2)" for m :: "('a, 'b) m" and s0 x s2
    using adds_run [OF that(1) _ that(2)] by (force simp: serving_def)
  have plain: "\<exists>evs. Rw s2 = Rw s0 @ evs \<and> list_all ?A evs"
    if "run_state m s0 = (x, s2)" "appends ordinary m" for m :: "('a, 'b) m" and s0 x s2
    by (rule run [OF adds_ordinary [OF that(2)] that(1)])
  consider (login) "run_state (case e of Some err \<Rightarrow> unavailable | None \<Rightarrow> handleCallback E) s1 = ((), s')"
    | (err) "run_state unavailable s1 = ((), s')"
    | (route) "run_state (handleLogin E False []) s1 = ((), s')"
    | (public) "run_state forwardToUpstream s = ((), s')"
    | (auth) "run_state (authenticate E ?pub) s1 = (out, s')"
    using assms(1) d by (auto simp: ServeHTTP_def Let_def split: if_splits option.splits prod.splits)
  then have "\<exists>evs. Rw s' = Rw s1 @ evs \<and> list_all ?A evs"
  proof cases
    case auth
    from run [OF _ this] admits_authenticate [of "Config s1" "Req s1"] show ?thesis unfolding same by blast
  next
    case public
    from plain [OF this ordinary_forward(2)] show ?thesis by (simp add: f)
  qed (erule plain, intro hoare)+
  with f(2) assms(2) show ?thesis by simp
qed

lemma rw_status_event:
  "commit_count w \<noteq> 0 \<Longrightarrow> \<exists>e \<in> set w. event_status e = Some (rw_status w)"
proof (induction w)
  case (Cons e w)
  show ?case
  proof (cases "event_status e")
    case None
    then have "\<not> commits e" by (cases e) auto
    with Cons None show ?thesis by (auto simp: commit_count_def)
  qed auto
qed (simp add: commit_count_def)

lemma ordinary_success: "ordinary e \<Longrightarrow> event_status e = Some code \<Longrightarrow> success code \<Longrightarrow> \<exists>r. e = EvForward r"
  by (cases e rule: event_status.cases) auto

lemma admitted_answer:
  assumes "run_state (ServeHTTP E) s = (Served, s')" "Rw s = []" "success (rw_status (Rw s'))"
  shows "pathMatchesConfiguredRoute (Req s) (FrontChannelLogoutUri (Config s)) \<or> (\<exists>r. EvForward r \<in> set (Rw s'))"
proof -
  have "commit_count (Rw s') \<noteq> 0" using answers_once [where E = E and s = s] assms(1) by simp
  then obtain e where e: "e \<in> set (Rw s')" "event_status e = Some (rw_status (Rw s'))" using rw_status_event by blast
  then have "admits (Config s) (Req s) e" using ServeHTTP_admits [OF assms(1,2)] by (simp add: list_all_iff)
  with ordinary_success [OF _ e(2) assms(3)] e(1) show ?thesis unfolding admits_def by blast
qed

section \<open>The server with an instance behind it\<close>

text \<open>
  The recorder's view of one request at an instance. Cookies and bodies are not followed:
  \<open>render\<close> is what the recorder makes of the events.
\<close>

definition serve_recorded :: "'w env \<Rightarrow> (rw \<Rightarrow> header_list \<times> string) \<Rightarrow> 'w toa \<Rightarrow> request \<Rightarrow> recorded option" where
  "serve_recorded E render s r =
     (case run_state (ServeHTTP E) (s\<lparr>Req := r, Rw := []\<rparr>) of
        (Panicked, _) \<Rightarrow> None
      | (Served, s') \<Rightarrow> Some \<lparr>StatusCode = int (rw_status (Rw s')), ResultHeader = fst (render (Rw s')), RecBody = snd (render (Rw s'))\<rparr>)"

lemma Check_serve_recorded:
  assumes "buildHTTPRequest parseURL cr = Ok r" "run_state (ServeHTTP E) (s\<lparr>Req := r, Rw := []\<rparr>) = (Served, s')"
  shows "\<exists>resp. Check parseURL (serve_recorded E render s) cr = Some resp \<and> (RespStatus resp = OK \<longleftrightarrow> success (rw_status (Rw s')))"
  by (simp add: Check_def assms serve_recorded_def success_def)

text \<open>Who may pass an instance, as far as its handlers decide it.\<close>

definition may_pass :: "'w env \<Rightarrow> 'w toa \<Rightarrow> request \<Rightarrow> bool" where
  "may_pass E s r \<longleftrightarrow>
     bypassed E r \<or> UnauthenticatedBehavior (Config s) = ''Forward'' \<or> (\<exists>sess c. admitted E (s\<lparr>Req := r, Rw := []\<rparr>) sess c)
     \<or> pathMatchesConfiguredRoute r (FrontChannelLogoutUri (Config s))"

lemma serve_recorded_verdict:
  assumes "serve_recorded E render s r = Some rec" "StatusCode rec div 100 = 2"
  shows "may_pass E s r"
proof -
  from assms(1) obtain s' where run: "run_state (ServeHTTP E) (s\<lparr>Req := r, Rw := []\<rparr>) = (Served, s')"
    and c: "StatusCode rec = int (rw_status (Rw s'))"
    by (auto simp: serve_recorded_def split: prod.splits outcome.splits)
  have ok: "success (rw_status (Rw s'))" using assms(2) c unfolding success_def by linarith
  from admitted_answer [OF run _ ok] consider "pathMatchesConfiguredRoute r (FrontChannelLogoutUri (Config s))"
    | r' where "EvForward r' \<in> set (Rw s')" by auto
  then show ?thesis
  proof cases
    case 2
    from forwards_only [OF run _ this] show ?thesis by (auto simp: may_pass_def)
  qed (simp add: may_pass_def)
qed

interpretation instance_gate: verdict_handler "serve_recorded E render s" "may_pass E s" for E :: "'w env" and render s
  by unfold_locales (rule serve_recorded_verdict)

text \<open>A request without headers, and instances that serve it.\<close>

definition bare_check :: "string \<Rightarrow> check_request" where
  "bare_check path = \<lparr>Attr_Method = ''GET'', Attr_Scheme = ''https'', Attr_Host = ''app.example'', Attr_Path = path, Attr_Headers = []\<rparr>"

definition bare_parse :: "string \<Rightarrow> string \<Rightarrow> url result" where
  "bare_parse path s = Ok \<lparr>Scheme = ''https'', UHost = ''app.example'', Path = path, RawQuery = []\<rparr>"

definition bare_request :: "string \<Rightarrow> request" where
  "bare_request path = \<lparr>Method = ''GET'', URL = \<lparr>Scheme = ''https'', UHost = ''app.example'', Path = path, RawQuery = []\<rparr>,
     Host = ''app.example'', Header = (\<lambda>_. []), RemoteAddr = [], TLS = False, RequestURI = path\<rparr>"

definition ready_toa :: "unit toa" where
  "ready_toa = sample_toa\<lparr>DiscoveryDocument := Some sample_discovery\<rparr>"

definition open_env :: "unit env" where
  "open_env = dead_env\<lparr>BypassRule := Some (\<lambda>r. True)\<rparr>"

lemma bare_built: "buildHTTPRequest (bare_parse path) (bare_check path) = Ok (bare_request path)"
  by (simp add: buildHTTPRequest_def NewRequest_def bare_check_def bare_parse_def bare_request_def Let_def and_then_def
      token_char_def removeEmptyPort_def hasPort_def)

lemma bare_no_cookie: "Cookie (bare_request path) n = None" "Header_Get (Header (bare_request path)) n = []"
  by (simp_all add: Cookie_def Cookies_def readCookies_def bare_request_def Header_Get_def)

lemma bare_no_session:
  "readChunkedCookie (bare_request path) n = Err ErrNoCookie"
  by (simp add: readChunkedCookie_def getChunkedCookieCount_def bare_no_cookie)

lemma ready_config:
  "AuthorizationHeader (Config ready_toa) = Some []" "AuthorizationCookie (Config ready_toa) = Some []"
  "FrontChannelLogoutUri (Config ready_toa) = ''/frontchannel-logout''" "LoginUri (Config ready_toa) = []"
  "Path (CallbackURL ready_toa) = ''/oidc/callback''" "DiscoveryDocument ready_toa = Some sample_discovery"
  by (simp_all add: ready_toa_def sample_toa_def migrateAuthBehaviors_def CreateConfig_def Let_def)

lemma bare_routes:
  "\<not> isCallbackRequest E cfg (CallbackURL ready_toa) (bare_request ''/'')"
  "\<not> isCallbackRequest E cfg (CallbackURL ready_toa) (bare_request ''/frontchannel-logout/admin'')"
  "pathMatchesConfiguredRoute (bare_request ''/frontchannel-logout/admin'') ''/frontchannel-logout''"
  "\<not> pathMatchesConfiguredRoute r []"
  by (simp_all add: isCallbackRequest_def pathMatchesConfiguredRoute_def pathMatchesRoute_def ready_config bare_request_def
      TrimSuffix_def HasSuffix_def HasPrefix_def suffix_def)

text \<open>
  What the external authorization server lets through: a request that it allows was
  handed on by the middleware, so it matches the bypass rule, or unauthenticated requests
  are to be forwarded, or it has a session that was validated and is authorized. The one
  exception is the front-channel logout route.
\<close>

theorem ext_authz_admits:
  assumes "Check parseURL (serve_recorded E render s) cr = Some resp" "RespStatus resp = OK"
  shows "\<exists>r. buildHTTPRequest parseURL cr = Ok r
    \<and> (bypassed E r \<or> UnauthenticatedBehavior (Config s) = ''Forward'' \<or> (\<exists>sess c. admitted E (s\<lparr>Req := r, Rw := []\<rparr>) sess c)
       \<or> pathMatchesConfiguredRoute r (FrontChannelLogoutUri (Config s)))"
  using instance_gate.Check_admits [OF assms] unfolding may_pass_def .

theorem ext_authz_admits_witness:
  "\<exists>resp r. Check (bare_parse ''/'') (serve_recorded open_env (\<lambda>_. ([], [])) ready_toa) (bare_check ''/'') = Some resp
     \<and> RespStatus resp = OK \<and> buildHTTPRequest (bare_parse ''/'') (bare_check ''/'') = Ok r
     \<and> (bypassed open_env r \<or> (\<exists>sess c. admitted open_env (ready_toa\<lparr>Req := r, Rw := []\<rparr>) sess c)
        \<or> UnauthenticatedBehavior (Config ready_toa) = ''Forward''
        \<or> pathMatchesConfiguredRoute r (FrontChannelLogoutUri (Config ready_toa)))"
proof -
  let ?s = "ready_toa\<lparr>Req := bare_request ''/'', Rw := []\<rparr>"
  have b: "BypassRule open_env = Some (\<lambda>r. True)" by (simp add: open_env_def)
  have h: "\<not> hasSessionMaterial (Config ready_toa) (bare_request ''/'')"
    by (simp add: hasSessionMaterial_def ready_config bare_no_session)
  obtain s' where s: "run_state (ServeHTTP open_env) ?s = (Served, s')" "\<exists>r. Rw s' = [EvForward r]"
    by (simp add: ServeHTTP_def Let_def b bare_routes h forwardToUpstream_def sanitize_def next_ServeHTTP_def)
  from Check_serve_recorded [OF bare_built s(1), of "\<lambda>_. ([], [])"] s(2) obtain resp
    where r: "Check (bare_parse ''/'') (serve_recorded open_env (\<lambda>_. ([], [])) ready_toa) (bare_check ''/'') = Some resp" "RespStatus resp = OK"
    by (auto simp: allow_def)
  from ext_authz_admits [OF r] r show ?thesis by blast
qed

text \<open>The page that confirms a logout, as HTML or as a problem document.\<close>

definition logout_page :: "rw_event \<Rightarrow> bool" where
  "logout_page e \<longleftrightarrow> (\<exists>html. e = EvPage 200 html)
     \<or> e = EvProblem 200 ''about:blank'' ''Logged out'' ''You have been logged out successfully.''"

lemma logout_answer:
  assumes "\<forall>context. is_ok (HtmlPage E (DefaultTemplate E) context)"
  shows "\<exists>ct page. run_state (writeSuccessfulLogout E) s
      = ((), s\<lparr>Rw := Rw s @ [EvSetHeader ''Cache-Control'' ''no-cache, no-store, must-revalidate'', EvSetHeader ''Content-Type'' ct, page]\<rparr>)
    \<and> logout_page page"
proof -
  let ?d = "\<lparr>statusType = ''about:blank'', statusCode = 200, statusName = ''Logged out'',
    description = ''You have been logged out successfully.'', buttons = login_button E (Config s) (Req s) ''Log back in'' []\<rparr>"
  have "is_ok (renderPage E \<lparr>FilePath = [], RedirectTo = []\<rparr> ?d)" using assms by (simp add: renderPage_def)
  then obtain html where "renderPage E \<lparr>FilePath = [], RedirectTo = []\<rparr> ?d = Ok html"
    by (cases "renderPage E \<lparr>FilePath = [], RedirectTo = []\<rparr> ?d") auto
  then show ?thesis
    by (cases "IsHtmlRequest (MimeOps E) (Req s)") (auto simp: writeSuccessfulLogout_def WriteError_def logout_page_def)
qed

text \<open>
  C11. The exception is real: a request on the front-channel route, or below it, that has no
  session is answered with the page that confirms the logout, as HTML or as a problem
  document. Its status is 200, so the external authorization server allows the request and the
  gateway passes it to the upstream, although nobody was authenticated and nothing was handed
  on. This holds for every request that the route is for: one that no bypass rule matches, that
  is not on the callback or the login route, and that comes when discovery succeeds; and the
  built-in page template renders, as it has to.
\<close>

theorem logout_route_open:
  assumes "buildHTTPRequest parseURL cr = Ok r" "s = s0\<lparr>Req := r, Rw := []\<rparr>"
    and "run_state (EnsureOidcDiscovery E) s = (None, s1)" "run_state (getSessionForRequest E) s1 = ((None, c, u, err), s2)"
    and "pathMatchesConfiguredRoute r (FrontChannelLogoutUri (Config s))" "\<not> isCallbackRequest E (Config s) (CallbackURL s) r"
    and "\<not> bypassed E r" "\<not> pathMatchesConfiguredRoute r (LoginUri (Config s))"
    and "\<forall>context. is_ok (HtmlPage E (DefaultTemplate E) context)"
  shows "\<exists>resp s'. Check parseURL (serve_recorded E render s0) cr = Some resp \<and> RespStatus resp = OK
    \<and> run_state (ServeHTTP E) s = (Served, s') \<and> logout_page (last (Rw s')) \<and> (\<forall>r'. EvForward r' \<notin> set (Rw s'))"
proof -
  obtain iss aud where f: "Req s1 = Req s" "Rw s1 = Rw s"
    "Config s1 = (Config s)\<lparr>Provider := (Provider (Config s))\<lparr>ValidIssuer := iss, ValidAudience := aud\<rparr>\<rparr>"
    by (rule discovery_frame [OF assms(3)])
  have s: "Req s = r" "Rw s = []" by (simp_all add: assms(2))
  from inner_run [OF inner_getSessionForRequest assms(4)] obtain w h where s2: "s2 = s1\<lparr>World := w, Jwks := h\<rparr>" by blast
  have pub: "(case BypassRule E of None \<Rightarrow> False | Some rule \<Rightarrow> rule (Req s)) = False"
    using assms(7) unfolding s(1) by (simp add: bypassed_def)
  obtain ct page where w: "run_state (writeSuccessfulLogout E) s2 = ((), s2\<lparr>Rw := Rw s2 @
      [EvSetHeader ''Cache-Control'' ''no-cache, no-store, must-revalidate'', EvSetHeader ''Content-Type'' ct, page]\<rparr>)"
    and page: "logout_page page" using logout_answer [OF assms(9)] by blast
  let ?t = "s2\<lparr>Rw := [EvSetHeader ''Cache-Control'' ''no-cache, no-store, must-revalidate'', EvSetHeader ''Content-Type'' ct, page]\<rparr>"
  have "run_state (serve_anonymous E False err) s2 = (Served, ?t)"
    using assms(5) w by (simp add: serve_anonymous_def s2 f s)
  then have run: "run_state (ServeHTTP E) s = (Served, ?t)"
    using assms(6,8) by (simp add: ServeHTTP_def Let_def s pub assms(3) authenticate_def assms(4))
  have "rw_status (Rw ?t) = 200" "\<forall>r'. EvForward r' \<notin> set (Rw ?t)" using page by (auto simp: logout_page_def)
  with Check_serve_recorded [OF assms(1) run [unfolded assms(2)], of render] run page show ?thesis by auto
qed

theorem logout_route_open_witness:
  "\<exists>resp s'. Check (bare_parse ''/frontchannel-logout/admin'') (serve_recorded dead_env (\<lambda>_. ([], [])) ready_toa)
       (bare_check ''/frontchannel-logout/admin'') = Some resp \<and> RespStatus resp = OK
     \<and> run_state (ServeHTTP dead_env) (ready_toa\<lparr>Req := bare_request ''/frontchannel-logout/admin'', Rw := []\<rparr>) = (Served, s')
     \<and> logout_page (last (Rw s'))"
proof -
  let ?r = "bare_request ''/frontchannel-logout/admin''"
  let ?s = "ready_toa\<lparr>Req := ?r, Rw := []\<rparr>"
  have d: "run_state (EnsureOidcDiscovery dead_env) ?s = (None, ?s)" by (simp add: EnsureOidcDiscovery_def ready_config)
  have g: "run_state (getSessionForRequest dead_env) ?s
      = ((None, [], False, Some (''unable to read session cookie: '' @ TrimPrefix ErrNoCookie ''http: '')), ?s)"
    by (simp add: getSessionForRequest_def external_header_def external_cookie_def ready_config cookie_session_def bare_no_session)
  have p: "\<not> bypassed dead_env ?r" by (simp add: bypassed_def dead_env_def)
  have m: "\<forall>context. is_ok (HtmlPage dead_env (DefaultTemplate dead_env) context)" by (simp add: dead_env_def)
  have "FrontChannelLogoutUri (Config ?s) = ''/frontchannel-logout''" "LoginUri (Config ?s) = []" "CallbackURL ?s = CallbackURL ready_toa"
    by (simp_all add: ready_config)
  note c = this
  from logout_route_open [OF bare_built refl d g _ _ p _ m, of "\<lambda>_. ([], [])", unfolded c, OF bare_routes(3,2,4)]
  show ?thesis by blast
qed

section \<open>Headers in gRPC mode\<close>

text \<open>
  What the recorder holds: the headers that the events write. The \<open>allow\<close> handler copies those of
  the request that it gets; \<open>http.Error\<close>, redirects and pages set their own.
\<close>

fun writes :: "rw_event \<Rightarrow> string \<Rightarrow> bool" where
  "writes (EvSetCookie _) k \<longleftrightarrow> k = ''Set-Cookie''"
| "writes (EvSetHeader k' _) k \<longleftrightarrow> k = CanonicalHeaderKey k'"
| "writes (EvForward r) k \<longleftrightarrow> Header r k \<noteq> []"
| "writes (EvRedirect _ _) k \<longleftrightarrow> k = ''Location'' \<or> k = ''Content-Type''"
| "writes (EvError _ _) k \<longleftrightarrow> k = ''Content-Type'' \<or> k = ''X-Content-Type-Options''"
| "writes (EvPage _ _) k \<longleftrightarrow> k = ''Content-Type''"
| "writes (EvProblem _ _ _ _) k \<longleftrightarrow> k = ''Content-Type''"

definition recorder :: "(rw \<Rightarrow> header_list \<times> string) \<Rightarrow> bool" where
  "recorder render \<longleftrightarrow>
     (\<forall>rw k vs. (k, vs) \<in> set (fst (render rw)) \<and> vs \<noteq> [] \<longrightarrow> (\<exists>e \<in> set rw. writes e k))"

text \<open>
  What Envoy does with an \<open>OkHttpResponse\<close>, as far as it is needed: a header of the client that
  neither \<open>headers\<close> nor \<open>headers_to_remove\<close> names goes to the upstream as the client sent it.
\<close>

definition envoy_keeps :: "(http_response \<Rightarrow> header \<Rightarrow> header) \<Rightarrow> bool" where
  "envoy_keeps envoy \<longleftrightarrow>
     (\<forall>hs rm add h k. k \<notin> set rm \<and> (\<forall>x \<in> set hs. Key x \<noteq> k) \<longrightarrow> envoy (OkResponse hs rm add) h k = h k)"

lemma page_headers_plain:
  assumes "k \<in> set clientIdentityHeaders"
  shows "k \<noteq> ''Set-Cookie''" "k \<noteq> ''Location''" "k \<noteq> ''Content-Type''" "k \<noteq> ''X-Content-Type-Options''"
    "k \<noteq> CanonicalHeaderKey ''Content-Type''" "k \<noteq> CanonicalHeaderKey ''Cache-Control''"
proof -
  have c: "CanonicalHeaderKey ''Content-Type'' = ''Content-Type''" "CanonicalHeaderKey ''Cache-Control'' = ''Cache-Control''"
    by code_simp+
  show "k \<noteq> ''Set-Cookie''" "k \<noteq> ''Location''" "k \<noteq> ''Content-Type''" "k \<noteq> ''X-Content-Type-Options''"
    "k \<noteq> CanonicalHeaderKey ''Content-Type''" "k \<noteq> CanonicalHeaderKey ''Cache-Control''"
    unfolding c using assms by (auto simp: clientIdentityHeaders_def)
qed

text \<open>No event of an answer outside the front-channel route writes an identity header.\<close>

lemma identity_not_written:
  assumes run: "run_state (ServeHTTP E) s = (out, s')" "Rw s = []"
    and route: "\<not> pathMatchesConfiguredRoute (Req s) (FrontChannelLogoutUri (Config s))"
    and k: "k \<in> set clientIdentityHeaders" "\<forall>hc \<in> set (Headers (Config s)). CanonicalHeaderKey (Header_Name hc) \<noteq> k"
    and e: "e \<in> set (Rw s')"
  shows "\<not> writes e k"
proof -
  have ord: "ordinary e" using ServeHTTP_admits [OF run] e route by (auto simp: admits_def list_all_iff)
  note plain = page_headers_plain [OF k(1)]
  show ?thesis
  proof (cases e)
    case (EvForward r)
    have clean: "Header (sanitizeForUpstream (Config s) (Req s)) k = []" using upstream_identity k(1) by blast
    from forwards_only [OF run, of r] e EvForward k(2) clean have "Header r k = []" unfolding upstream_view_def by metis
    then show ?thesis by (simp add: EvForward)
  qed (use ord plain in auto)
qed

text \<open>
  C22. In gRPC mode the middleware cannot take a header from the client. When a request is
  allowed (outside the front-channel route), the middleware has handed on a request without
  the identity header \<open>k\<close>, if no configured header sets it; but the answer neither names \<open>k\<close> nor
  removes anything, so the upstream gets \<open>k\<close> as the client sent it. Nor does the answer hold
  anything for the client: no cookie that the middleware set gets back to it.
\<close>

theorem grpc_keeps_client_headers:
  assumes "buildHTTPRequest parseURL cr = Ok r" "Check parseURL (serve_recorded E render s) cr = Some resp" "RespStatus resp = OK"
    and "\<not> pathMatchesConfiguredRoute r (FrontChannelLogoutUri (Config s))"
    and "k \<in> set clientIdentityHeaders" "\<forall>hc \<in> set (Headers (Config s)). CanonicalHeaderKey (Header_Name hc) \<noteq> k"
    and "recorder render" "envoy_keeps envoy"
  shows "\<exists>s' r'. run_state (ServeHTTP E) (s\<lparr>Req := r, Rw := []\<rparr>) = (Served, s') \<and> EvForward r' \<in> set (Rw s') \<and> Header r' k = []
    \<and> envoy (HttpResponse resp) h k = h k \<and> response_headers_to_add (HttpResponse resp) = []"
proof -
  let ?s = "s\<lparr>Req := r, Rw := []\<rparr>"
  from assms(1-3) obtain rec where rec: "serve_recorded E render s r = Some rec"
    and resp: "HttpResponse resp = OkResponse (headerValueOptions (ResultHeader rec)) [] []"
    and code: "200 \<le> StatusCode rec" "StatusCode rec < 300"
    by (auto simp: Check_def split: option.splits if_splits)
  from rec obtain s' where run: "run_state (ServeHTTP E) ?s = (Served, s')"
    and h: "ResultHeader rec = fst (render (Rw s'))" "StatusCode rec = int (rw_status (Rw s'))"
    by (auto simp: serve_recorded_def split: prod.splits outcome.splits)
  have quiet: "\<not> writes e k" if "e \<in> set (Rw s')" for e
    using identity_not_written [OF run _ _ assms(5) _ that] assms(4,6) by simp
  have ok: "success (rw_status (Rw s'))" using code h(2) by (simp add: success_def)
  from admitted_answer [OF run _ ok] assms(4) obtain r' where f: "EvForward r' \<in> set (Rw s')" by auto
  from quiet [OF f] have "Header r' k = []" by simp
  have "\<forall>x \<in> set (headerValueOptions (ResultHeader rec)). Key x \<noteq> k"
  proof
    fix x
    assume "x \<in> set (headerValueOptions (ResultHeader rec))"
    then obtain vs v where kv: "(Key x, vs) \<in> set (ResultHeader rec)" "v \<in> set vs" by (auto simp: headerValueOptions_def)
    then have "vs \<noteq> []" by auto
    with kv(1) assms(7) quiet show "Key x \<noteq> k" unfolding recorder_def h by blast
  qed
  with assms(8) have "envoy (HttpResponse resp) h k = h k" unfolding envoy_keeps_def resp by simp
  with run f \<open>Header r' k = []\<close> resp show ?thesis by auto
qed

text \<open>A client that names itself, a recorder of cookies, and a gateway that overrides.\<close>

definition root_check :: check_request where
  "root_check = (bare_check ''/'')\<lparr>Attr_Headers := [(''x-forwarded-user'', ''root'')]\<rparr>"

definition root_request :: request where
  "root_request = (bare_request ''/'')\<lparr>Header := (\<lambda>_. [])(''X-Forwarded-User'' := [''root''])\<rparr>"

definition cookie_render :: "rw \<Rightarrow> header_list \<times> string" where
  "cookie_render rw = ([(''Set-Cookie'', concat (map (\<lambda>e. case e of EvSetCookie c \<Rightarrow> [Value c] | _ \<Rightarrow> []) rw))], [])"

definition plain_envoy :: "http_response \<Rightarrow> header \<Rightarrow> header" where
  "plain_envoy resp h =
     (case resp of
        OkResponse hs rm add \<Rightarrow> (\<lambda>k. if k \<in> set rm then [] else if \<exists>x \<in> set hs. Key x = k
          then map HeaderValue (filter (\<lambda>x. Key x = k) hs) else h k)
      | DeniedResponse code hs b \<Rightarrow> h)"

lemma root_built: "buildHTTPRequest (bare_parse ''/'') root_check = Ok root_request"
proof -
  have k: "CanonicalHeaderKey ''x-forwarded-user'' = ''X-Forwarded-User''" "TrimSpace ''root'' = ''root''" by code_simp+
  show ?thesis
    by (simp add: buildHTTPRequest_def NewRequest_def root_check_def bare_check_def bare_parse_def root_request_def bare_request_def
        Let_def and_then_def token_char_def removeEmptyPort_def hasPort_def add_attribute_def Header_Add_def k fun_eq_iff)
qed

lemma cookie_recorder: "recorder cookie_render"
  unfolding recorder_def
proof (intro allI impI)
  fix w k vs
  assume a: "(k, vs) \<in> set (fst (cookie_render w)) \<and> vs \<noteq> []"
  then have k: "k = ''Set-Cookie''" and ne: "concat (map (\<lambda>e. case e of EvSetCookie c \<Rightarrow> [Value c] | _ \<Rightarrow> []) w) \<noteq> []"
    by (auto simp: cookie_render_def simp del: concat_eq_Nil_conv)
  from ne obtain e where e: "e \<in> set w" "(case e of EvSetCookie c \<Rightarrow> [Value c] | _ \<Rightarrow> []) \<noteq> []"
    unfolding concat_eq_Nil_conv set_map by blast
  from e(2) k have "writes e k" by (auto split: rw_event.splits)
  with e(1) show "\<exists>e \<in> set w. writes e k" by blast
qed

theorem grpc_keeps_client_headers_witness:
  "\<exists>resp. Check (bare_parse ''/'') (serve_recorded open_env cookie_render ready_toa) root_check = Some resp \<and> RespStatus resp = OK
     \<and> plain_envoy (HttpResponse resp) (Header root_request) ''X-Forwarded-User'' = [''root'']"
proof -
  let ?s = "ready_toa\<lparr>Req := root_request, Rw := []\<rparr>"
  have b: "BypassRule open_env = Some (\<lambda>r. True)" by (simp add: open_env_def)
  have n: "Header_Get (Header root_request) ''Cookie'' = []" "Header root_request ''Cookie'' = []"
    by (simp_all add: root_request_def Header_Get_def canonical_Cookie)
  have nc: "readChunkedCookie root_request x = Err ErrNoCookie" for x
    by (simp add: readChunkedCookie_def getChunkedCookieCount_def Cookie_def Cookies_def readCookies_def n)
  have m: "\<not> hasSessionMaterial (Config ready_toa) root_request"
    by (simp add: hasSessionMaterial_def ready_config nc)
  have same: "URL root_request = URL (bare_request ''/'')" by (simp add: root_request_def)
  have cb: "\<not> isCallbackRequest open_env (Config ready_toa) (CallbackURL ready_toa) root_request"
    "\<not> pathMatchesConfiguredRoute root_request (FrontChannelLogoutUri (Config ready_toa))"
    by (simp_all add: isCallbackRequest_def pathMatchesConfiguredRoute_def pathMatchesRoute_def same ready_config)
      (simp_all add: bare_request_def TrimSuffix_def HasSuffix_def HasPrefix_def suffix_def)
  obtain s' where s: "run_state (ServeHTTP open_env) ?s = (Served, s')" "\<exists>r. Rw s' = [EvForward r]"
    by (simp add: ServeHTTP_def Let_def b cb m forwardToUpstream_def sanitize_def next_ServeHTTP_def)
  from Check_serve_recorded [OF root_built s(1), of cookie_render] s(2) obtain resp
    where r: "Check (bare_parse ''/'') (serve_recorded open_env cookie_render ready_toa) root_check = Some resp" "RespStatus resp = OK"
    by (auto simp: allow_def)
  have k: "''X-Forwarded-User'' \<in> set clientIdentityHeaders" by (simp add: clientIdentityHeaders_def)
  have hs: "\<forall>hc \<in> set (Headers (Config ready_toa)). CanonicalHeaderKey (Header_Name hc) \<noteq> ''X-Forwarded-User''"
    by (simp add: ready_toa_def sample_toa_def migrateAuthBehaviors_def CreateConfig_def Let_def)
  have e: "envoy_keeps plain_envoy" by (auto simp: envoy_keeps_def plain_envoy_def)
  from grpc_keeps_client_headers [OF root_built r cb(2) k hs cookie_recorder e, of "Header root_request"] r
  show ?thesis by (auto simp: root_request_def)
qed

end
