(* ===== verification/Concurrency.thy ===== *)
theory Concurrency
  imports Upstream
begin

text \<open>
  The locks of the middleware. Requests run concurrently on one instance, and two of its
  operations are written for that: \<open>EnsureOidcDiscovery\<close> of \<open>src/main.go\<close>, a double-checked
  initialisation under an \<open>RWMutex\<close>, and \<open>EnsureLoadedContext\<close> of \<open>src/oidc/jwks.go\<close>, which
  serialises reloads of the key cache. Here each is a machine of threads: a thread has a
  program counter, \<open>advance\<close> does its next access to the shared struct (\<open>None\<close> while it is
  blocked on a lock), and a run interleaves the threads in any order with whatever other
  requests do elsewhere. Memory is sequentially consistent, which is what the Go memory model
  gives to programs without data races.
\<close>

section \<open>Runs of threads\<close>

fun run_schedule :: "(nat \<Rightarrow> 'c \<Rightarrow> 'c option) \<Rightarrow> nat list \<Rightarrow> 'c \<Rightarrow> 'c option" where
  "run_schedule adv [] c = Some c"
| "run_schedule adv (t # ts) c = (case adv t c of None \<Rightarrow> None | Some c' \<Rightarrow> run_schedule adv ts c')"

section \<open>Discovery\<close>

datatype pc =
    Idle
  | Reading
  | Checked bool
  | Missed
  | Entered
  | Fetching
  | Publishing nat OidcDiscovery string string
  | Unlocking "error option"
  | Returned "error option"

text \<open>
  The lock is the set of its readers and its writer. A waiting writer also keeps new readers
  out in Go; the machine allows both, and \<open>discovery_returns\<close> does not rely on such readers.
\<close>

record 'w conc =
  Shared :: "'w toa"
  Readers :: "nat set"
  Writer :: "nat option"
  Pc :: "nat \<Rightarrow> pc"

definition start_discovery :: "'w toa \<Rightarrow> 'w conc" where
  "start_discovery s = \<lparr>Shared = s, Readers = {}, Writer = None, Pc = (\<lambda>_. Idle)\<rparr>"

text \<open>The assignments of the publication, in their order.\<close>

definition publish_step :: "nat \<Rightarrow> OidcDiscovery \<Rightarrow> string \<Rightarrow> string \<Rightarrow> 'w toa \<Rightarrow> 'w toa" where
  "publish_step k doc issuer audience s =
     (if k = 0 then s\<lparr>Jwks := (Jwks s)\<lparr>JwksUrl := JWKSURI doc\<rparr>\<rparr>
      else if k = 1 then s\<lparr>validIssuer := issuer\<rparr>
      else if k = 2 then s\<lparr>validAudience := audience\<rparr>
      else if k = 3 then s\<lparr>Config := (Config s)\<lparr>Provider := (Provider (Config s))\<lparr>ValidIssuer := issuer\<rparr>\<rparr>\<rparr>
      else if k = 4 then s\<lparr>Config := (Config s)\<lparr>Provider := (Provider (Config s))\<lparr>ValidAudience := audience\<rparr>\<rparr>\<rparr>
      else s\<lparr>DiscoveryDocument := Some doc\<rparr>)"

definition default_issuer :: "OidcDiscovery \<Rightarrow> 'w toa \<Rightarrow> string" where
  "default_issuer doc s = (let p = Provider (Config s) in if ValidIssuer p = [] then Issuer doc else ValidIssuer p)"

definition default_audience :: "'w toa \<Rightarrow> string" where
  "default_audience s = (let p = Provider (Config s) in if ValidAudience p = [] then ClientId p else ValidAudience p)"

definition advance :: "'w env \<Rightarrow> nat \<Rightarrow> 'w conc \<Rightarrow> 'w conc option" where
  "advance E t c =
     (let s = Shared c;
          goto = (\<lambda>p c. Some (c\<lparr>Pc := (Pc c)(t := p)\<rparr>))
      in case Pc c t of
           Idle \<Rightarrow> if Writer c = None then goto Reading (c\<lparr>Readers := insert t (Readers c)\<rparr>) else None
         | Reading \<Rightarrow> goto (Checked (DiscoveryDocument s \<noteq> None)) c
         | Checked ready \<Rightarrow> goto (if ready then Returned None else Missed) (c\<lparr>Readers := Readers c - {t}\<rparr>)
         | Missed \<Rightarrow> if Writer c = None \<and> Readers c = {} then goto Entered (c\<lparr>Writer := Some t\<rparr>) else None
         | Entered \<Rightarrow>
             if DiscoveryDocument s \<noteq> None then goto (Unlocking None) c
             else goto Fetching (c\<lparr>Shared := s\<lparr>Jwks := new_jwks\<rparr>\<rparr>)
         | Fetching \<Rightarrow>
             (case run_state (GetOidcDiscoveryContext E (ProviderURL s)) s of
                (Inl e, s') \<Rightarrow> goto (Unlocking (Some e)) (c\<lparr>Shared := s'\<rparr>)
              | (Inr d, s') \<Rightarrow> goto (Publishing 0 d (default_issuer d s') (default_audience s')) (c\<lparr>Shared := s'\<rparr>))
         | Publishing k d iss aud \<Rightarrow>
             goto (if k < 5 then Publishing (Suc k) d iss aud else Unlocking None) (c\<lparr>Shared := publish_step k d iss aud s\<rparr>)
         | Unlocking r \<Rightarrow> goto (Returned r) (c\<lparr>Writer := None\<rparr>)
         | Returned r \<Rightarrow> None)"

text \<open>
  What discovery initialises and reads. The rest of the middleware changes other fields only,
  so a step of another request is any change that leaves this view alone.
\<close>

definition discovery_view ::
  "'w toa \<Rightarrow> url \<times> Config \<times> OidcDiscovery option \<times> string \<times> string \<times> string" where
  "discovery_view s = (ProviderURL s, Config s, DiscoveryDocument s, JwksUrl (Jwks s), validIssuer s, validAudience s)"

inductive conc_step :: "'w env \<Rightarrow> 'w conc \<Rightarrow> 'w conc \<Rightarrow> bool" for E where
  thread: "advance E t c = Some c' \<Longrightarrow> conc_step E c c'"
| elsewhere: "discovery_view s = discovery_view (Shared c) \<Longrightarrow> conc_step E c (c\<lparr>Shared := s\<rparr>)"

inductive conc_reach :: "'w env \<Rightarrow> 'w toa \<Rightarrow> 'w conc \<Rightarrow> bool" for E s0 where
  start: "conc_reach E s0 (start_discovery s0)"
| more: "conc_reach E s0 c \<Longrightarrow> conc_step E c c' \<Longrightarrow> conc_reach E s0 c'"

inductive_simps conc_step_iff: "conc_step E c c'"

section \<open>Reloading the keys\<close>

text \<open>
  \<open>loadKeysContext\<close> in its two parts: the request, which holds no lock of the cache, and the
  store under the cache's write lock. The critical sections of that lock only touch memory, so
  each of them is one step.
\<close>

definition request_keys :: "'w env \<Rightarrow> ('w, ((string \<times> jwk) list \<times> (string \<times> jwk) list) result) m" where
  "request_keys E = do {
     u \<leftarrow> ask (\<lambda>s. JwksUrl (Jwks s));
     r \<leftarrow> send E \<lparr>OutMethod = ''GET'', OutUrl = u, OutBody = [], OutHeader = [], BasicAuth = None\<rparr>;
     case r of Inl e \<Rightarrow> return (Err e) | Inr resp \<Rightarrow> return (keys_of_response E u resp)
   }"

definition store_keys :: "'w env \<Rightarrow> (string \<times> jwk) list \<Rightarrow> (string \<times> jwk) list \<Rightarrow> ('w, unit) m" where
  "store_keys E rsaKeys ecdsaKeys = do {
     now \<leftarrow> outside (Now E);
     change (\<lambda>s. s\<lparr>Jwks := (Jwks s)\<lparr>RsaKeys := rsaKeys, EcdsaKeys := ecdsaKeys, CacheDate := now, lastReloadError := 0\<rparr>\<rparr>)
   }"

definition stamp_failure :: "'w env \<Rightarrow> ('w, unit) m" where
  "stamp_failure E = do {
     now \<leftarrow> outside (Now E);
     change (\<lambda>s. s\<lparr>Jwks := (Jwks s)\<lparr>lastReloadError := now\<rparr>\<rparr>)
   }"

definition check_reload :: "'w env \<Rightarrow> bool \<Rightarrow> ('w, bool \<times> bool) m" where
  "check_reload E forceReload = do {
     now \<leftarrow> outside (Now E);
     needed \<leftarrow> ask (\<lambda>s. needsReload (Jwks s) now forceReload);
     had \<leftarrow> ask (\<lambda>s. hasKeys (Jwks s));
     return (needed, had)
   }"

datatype jpc =
    JCall bool
  | JWait bool
  | JLocked bool
  | JLoad bool
  | JStore "(string \<times> jwk) list" "(string \<times> jwk) list"
  | JFailed bool error
  | JUnlock "error option"
  | JReturned "error option"

text \<open>\<open>Fetches\<close> counts the requests to the provider and is read by no step.\<close>

record 'w jconc =
  JShared :: "'w toa"
  ReloadLock :: "nat option"
  Fetches :: nat
  JPc :: "nat \<Rightarrow> jpc"

definition start_reload :: "'w toa \<Rightarrow> (nat \<Rightarrow> bool) \<Rightarrow> 'w jconc" where
  "start_reload s force = \<lparr>JShared = s, ReloadLock = None, Fetches = 0, JPc = (\<lambda>t. JCall (force t))\<rparr>"

definition reload_advance :: "'w env \<Rightarrow> nat \<Rightarrow> 'w jconc \<Rightarrow> 'w jconc option" where
  "reload_advance E t c =
     (let s = JShared c;
          goto = (\<lambda>p s c. Some (c\<lparr>JShared := s, JPc := (JPc c)(t := p)\<rparr>))
      in case JPc c t of
           JCall force \<Rightarrow>
             (case run_state (check_reload E force) s of
                ((needed, _), s') \<Rightarrow> goto (if needed then JWait force else JReturned None) s' c)
         | JWait force \<Rightarrow> if ReloadLock c = None then goto (JLocked force) s (c\<lparr>ReloadLock := Some t\<rparr>) else None
         | JLocked force \<Rightarrow>
             (case run_state (check_reload E force) s of
                ((needed, had), s') \<Rightarrow> goto (if needed then JLoad had else JUnlock None) s' c)
         | JLoad had \<Rightarrow>
             (case run_state (request_keys E) s of
                (Inl e, s') \<Rightarrow> goto (JFailed had e) s' (c\<lparr>Fetches := Suc (Fetches c)\<rparr>)
              | (Inr (rsaKeys, ecdsaKeys), s') \<Rightarrow> goto (JStore rsaKeys ecdsaKeys) s' (c\<lparr>Fetches := Suc (Fetches c)\<rparr>))
         | JStore rsaKeys ecdsaKeys \<Rightarrow> goto (JUnlock None) (snd (run_state (store_keys E rsaKeys ecdsaKeys) s)) c
         | JFailed had e \<Rightarrow>
             if had then goto (JUnlock None) (snd (run_state (stamp_failure E) s)) c
             else goto (JUnlock (Some e)) s c
         | JUnlock r \<Rightarrow> goto (JReturned r) s (c\<lparr>ReloadLock := None\<rparr>)
         | JReturned r \<Rightarrow> None)"

text \<open>Requests elsewhere leave the key cache alone.\<close>

inductive reload_step :: "'w env \<Rightarrow> 'w jconc \<Rightarrow> 'w jconc \<Rightarrow> bool" for E where
  reload_thread: "reload_advance E t c = Some c' \<Longrightarrow> reload_step E c c'"
| reload_elsewhere: "Jwks s = Jwks (JShared c) \<Longrightarrow> reload_step E c (c\<lparr>JShared := s\<rparr>)"

inductive reload_reach :: "'w env \<Rightarrow> 'w toa \<Rightarrow> (nat \<Rightarrow> bool) \<Rightarrow> 'w jconc \<Rightarrow> bool" for E s0 force where
  reload_start: "reload_reach E s0 force (start_reload s0 force)"
| reload_more: "reload_reach E s0 force c \<Longrightarrow> reload_step E c c' \<Longrightarrow> reload_reach E s0 force c'"

inductive_simps reload_step_iff: "reload_step E c c'"

section \<open>Threads and a lock\<close>

text \<open>
  Threads that change their own counter only, and whose counter gets closer to the end with
  every step.
\<close>

locale threads =
  fixes pc_of :: "'c \<Rightarrow> nat \<Rightarrow> 'p"
    and adv :: "nat \<Rightarrow> 'c \<Rightarrow> 'c option"
    and rank :: "'p \<Rightarrow> nat"
  assumes others: "adv t c = Some c' \<Longrightarrow> u \<noteq> t \<Longrightarrow> pc_of c' u = pc_of c u"
    and closer: "adv t c = Some c' \<Longrightarrow> rank (pc_of c' t) < rank (pc_of c t)"
begin

lemma sum_closer:
  assumes "finite T" "t \<in> T" "adv t c = Some c'"
  shows "(\<Sum>u\<in>T. rank (pc_of c' u)) < (\<Sum>u\<in>T. rank (pc_of c u))"
proof (rule sum_strict_mono_ex1)
  show "finite T" by fact
  show "\<forall>u\<in>T. rank (pc_of c' u) \<le> rank (pc_of c u)"
  proof
    fix u
    show "rank (pc_of c' u) \<le> rank (pc_of c u)"
      using others [OF assms(3), of u] closer [OF assms(3)] by (cases "u = t") simp_all
  qed
  show "\<exists>u\<in>T. rank (pc_of c' u) < rank (pc_of c u)" using assms(2) closer [OF assms(3)] by blast
qed

lemma run_bound:
  assumes "finite T" "set ts \<subseteq> T" "run_schedule adv ts c = Some c'"
  shows "length ts + (\<Sum>u\<in>T. rank (pc_of c' u)) \<le> (\<Sum>u\<in>T. rank (pc_of c u))"
  using assms(2,3)
proof (induction ts arbitrary: c)
  case (Cons t ts)
  then obtain c1 where c1: "adv t c = Some c1" "run_schedule adv ts c1 = Some c'"
    by (auto split: option.splits)
  from Cons.IH [OF _ c1(2)] Cons.prems(1) have "length ts + (\<Sum>u\<in>T. rank (pc_of c' u)) \<le> (\<Sum>u\<in>T. rank (pc_of c1 u))"
    by simp
  with sum_closer [OF assms(1) _ c1(1)] Cons.prems(1) show ?case by simp
qed simp

lemma run_invariant:
  assumes "run_schedule adv ts c = Some c'" "P c" "\<And>t c c'. P c \<Longrightarrow> adv t c = Some c' \<Longrightarrow> P c'"
  shows "P c'"
  using assms(1,2)
proof (induction ts arbitrary: c)
  case (Cons t ts)
  then obtain c1 where c1: "adv t c = Some c1" "run_schedule adv ts c1 = Some c'"
    by (auto split: option.splits)
  show ?case by (rule Cons.IH [OF c1(2) assms(3) [OF Cons.prems(2) c1(1)]])
qed simp

lemma untouched:
  assumes "t \<notin> set ts" "run_schedule adv ts c = Some c'"
  shows "pc_of c' t = pc_of c t"
  using assms
proof (induction ts arbitrary: c)
  case (Cons u ts)
  then obtain c1 where c1: "adv u c = Some c1" "run_schedule adv ts c1 = Some c'"
    by (auto split: option.splits)
  with Cons show ?case using others [OF c1(1), of t] by simp
qed simp

end

text \<open>
  A lock with an owner: the counters inside the critical section are those of its owner.
\<close>

locale mutex = threads pc_of adv rank
  for pc_of :: "'c \<Rightarrow> nat \<Rightarrow> 'p" and adv :: "nat \<Rightarrow> 'c \<Rightarrow> 'c option" and rank :: "'p \<Rightarrow> nat" +
  fixes owner :: "'c \<Rightarrow> nat option"
    and inside :: "'p \<Rightarrow> bool"
  assumes acquire: "adv t c = Some c' \<Longrightarrow> \<not> inside (pc_of c t) \<Longrightarrow> inside (pc_of c' t) \<Longrightarrow> owner c = None \<and> owner c' = Some t"
    and release: "adv t c = Some c' \<Longrightarrow> inside (pc_of c t) \<Longrightarrow> \<not> inside (pc_of c' t) \<Longrightarrow> owner c' = None"
    and hold: "adv t c = Some c' \<Longrightarrow> inside (pc_of c' t) = inside (pc_of c t) \<Longrightarrow> owner c' = owner c"
begin

lemma owned_step:
  assumes inv: "\<And>u. inside (pc_of c u) \<longleftrightarrow> owner c = Some u" and st: "adv t c = Some c'"
  shows "inside (pc_of c' u) \<longleftrightarrow> owner c' = Some u"
proof (cases "inside (pc_of c' t) = inside (pc_of c t)")
  case True
  then show ?thesis using hold [OF st True] inv [of u] others [OF st, of u] by (cases "u = t") auto
next
  case changed: False
  show ?thesis
  proof (cases "inside (pc_of c t)")
    case True
    with changed release [OF st] have "owner c' = None" by simp
    moreover have "owner c = Some t" using True inv by simp
    ultimately show ?thesis using changed True inv [of u] others [OF st, of u] by (cases "u = t") auto
  next
    case False
    with changed acquire [OF st] have "owner c = None" "owner c' = Some t" by simp_all
    then show ?thesis using changed False inv [of u] others [OF st, of u] by (cases "u = t") auto
  qed
qed

end

text \<open>The two locks of the middleware.\<close>

fun rank :: "pc \<Rightarrow> nat" where
  "rank Idle = 13"
| "rank Reading = 12"
| "rank (Checked b) = 11"
| "rank Missed = 10"
| "rank Entered = 9"
| "rank Fetching = 8"
| "rank (Publishing k d iss aud) = 2 + (5 - k)"
| "rank (Unlocking r) = 1"
| "rank (Returned r) = 0"

fun inside :: "pc \<Rightarrow> bool" where
  "inside Entered = True"
| "inside Fetching = True"
| "inside (Publishing k d iss aud) = True"
| "inside (Unlocking r) = True"
| "inside _ = False"

fun reload_rank :: "jpc \<Rightarrow> nat" where
  "reload_rank (JCall f) = 6"
| "reload_rank (JWait f) = 5"
| "reload_rank (JLocked f) = 4"
| "reload_rank (JLoad h) = 3"
| "reload_rank (JStore r e) = 2"
| "reload_rank (JFailed h e) = 2"
| "reload_rank (JUnlock r) = 1"
| "reload_rank (JReturned r) = 0"

fun reload_inside :: "jpc \<Rightarrow> bool" where
  "reload_inside (JLocked f) = True"
| "reload_inside (JLoad h) = True"
| "reload_inside (JStore r e) = True"
| "reload_inside (JFailed h e) = True"
| "reload_inside (JUnlock r) = True"
| "reload_inside _ = False"

lemmas advance_splits = pc.splits if_splits prod.splits sum.splits
lemmas reload_splits = jpc.splits if_splits prod.splits sum.splits

interpretation disc: mutex Pc "advance E" rank Writer inside
  for E :: "'w env"
  by unfold_locales (auto simp: advance_def Let_def split: advance_splits)

interpretation reload: mutex JPc "reload_advance E" reload_rank ReloadLock reload_inside
  for E :: "'w env"
  by unfold_locales (auto simp: reload_advance_def Let_def split: reload_splits)

section \<open>What discovery publishes\<close>

text \<open>
  \<open>unset\<close>: nothing of a document is visible. \<open>published\<close>: a document that the provider
  sent is visible with everything derived from it, as \<open>publish_discovery\<close> sets it.
\<close>

definition fetched :: "'w env \<Rightarrow> 'w toa \<Rightarrow> OidcDiscovery \<Rightarrow> bool" where
  "fetched E s0 d \<longleftrightarrow> (\<exists>s. fst (run_state (GetOidcDiscoveryContext E (ProviderURL s0)) s) = Inr d)"

definition unset :: "'w toa \<Rightarrow> 'w toa \<Rightarrow> bool" where
  "unset s0 s \<longleftrightarrow> discovery_view (s\<lparr>Jwks := new_jwks\<rparr>) = discovery_view (s0\<lparr>Jwks := new_jwks\<rparr>)"

definition published :: "'w env \<Rightarrow> 'w toa \<Rightarrow> 'w toa \<Rightarrow> bool" where
  "published E s0 s \<longleftrightarrow> (\<exists>d. fetched E s0 d \<and> discovery_view s = discovery_view (publish_discovery d s0))"

definition publish_prefix :: "nat \<Rightarrow> OidcDiscovery \<Rightarrow> 'w toa \<Rightarrow> 'w toa" where
  "publish_prefix k d s0 =
     fold (\<lambda>i. publish_step i d (default_issuer d s0) (default_audience s0)) [0..<k] (s0\<lparr>Jwks := new_jwks\<rparr>)"

fun writing :: "'w env \<Rightarrow> 'w toa \<Rightarrow> pc \<Rightarrow> 'w toa \<Rightarrow> bool" where
  "writing E s0 Fetching s \<longleftrightarrow> discovery_view s = discovery_view (s0\<lparr>Jwks := new_jwks\<rparr>)"
| "writing E s0 (Publishing k d iss aud) s \<longleftrightarrow>
     k \<le> 5 \<and> fetched E s0 d \<and> iss = default_issuer d s0 \<and> aud = default_audience s0
     \<and> discovery_view s = discovery_view (publish_prefix k d s0)"
| "writing E s0 (Unlocking None) s \<longleftrightarrow> published E s0 s"
| "writing E s0 (Unlocking (Some e)) s \<longleftrightarrow> unset s0 s"
| "writing E s0 _ s \<longleftrightarrow> unset s0 s \<or> published E s0 s"

definition shared_ok :: "'w env \<Rightarrow> 'w toa \<Rightarrow> 'w conc \<Rightarrow> bool" where
  "shared_ok E s0 c \<longleftrightarrow>
     (case Writer c of None \<Rightarrow> unset s0 (Shared c) \<or> published E s0 (Shared c) | Some t \<Rightarrow> writing E s0 (Pc c t) (Shared c))"

lemma publish_prefix_all: "publish_prefix 6 d s0 = publish_discovery d (s0\<lparr>Jwks := new_jwks\<rparr>)"
  by (simp add: publish_prefix_def eval_nat_numeral publish_step_def publish_discovery_def default_issuer_def
      default_audience_def Let_def)

lemma view_publish [simp]:
  "discovery_view (publish_discovery d (s\<lparr>Jwks := h\<rparr>)) = discovery_view (publish_discovery d s)"
  by (simp add: discovery_view_def publish_discovery_def Let_def)

lemma view_publish_step:
  "discovery_view s = discovery_view s' \<Longrightarrow> discovery_view (publish_step k d iss aud s) = discovery_view (publish_step k d iss aud s')"
  by (simp add: discovery_view_def publish_step_def)

lemma publish_prefix_doc: "k \<le> 5 \<Longrightarrow> DiscoveryDocument (publish_prefix k d s0) = DiscoveryDocument s0"
proof (induction k)
  case (Suc k)
  then show ?case by (auto simp: publish_prefix_def publish_step_def)
qed (simp add: publish_prefix_def)

lemma view_send [frame]: "keeps discovery_view (send E r)"
  unfolding send_def by (intro frame) (simp add: discovery_view_def)

lemma view_discovery: "keeps discovery_view (GetOidcDiscoveryContext E u)"
  unfolding GetOidcDiscoveryContext_def by (intro frame)

lemma view_defaults:
  "discovery_view s = discovery_view (s0\<lparr>Jwks := new_jwks\<rparr>) \<Longrightarrow>
     default_issuer d s = default_issuer d s0 \<and> default_audience s = default_audience s0 \<and> ProviderURL s = ProviderURL s0"
  by (simp add: discovery_view_def default_issuer_def default_audience_def)

lemma view_determines:
  assumes "discovery_view s' = discovery_view s"
  shows "unset s0 s' = unset s0 s" "published E s0 s' = published E s0 s" "writing E s0 p s' = writing E s0 p s"
    "DiscoveryDocument s' = DiscoveryDocument s"
proof -
  show 1: "unset s0 s' = unset s0 s" and 2: "published E s0 s' = published E s0 s"
    using assms by (simp_all add: unset_def published_def discovery_view_def)
  show "writing E s0 p s' = writing E s0 p s"
    using assms 1 2 by (cases "(E, s0, p, s)" rule: writing.cases) simp_all
  show "DiscoveryDocument s' = DiscoveryDocument s" using assms by (simp add: discovery_view_def)
qed

lemma published_doc: "published E s0 s \<Longrightarrow> DiscoveryDocument s \<noteq> None"
  by (auto simp: published_def discovery_view_def publish_discovery_def Let_def)

lemma unset_doc: "unset s0 s \<Longrightarrow> DiscoveryDocument s = DiscoveryDocument s0"
  by (simp add: unset_def discovery_view_def)

text \<open>The writer's own steps.\<close>

lemma writing_step:
  assumes st: "advance E t c = Some c'" and w: "Writer c = Some t" "writing E s0 (Pc c t) (Shared c)" "inside (Pc c t)"
    and s0: "DiscoveryDocument s0 = None"
  shows "shared_ok E s0 c'" "DiscoveryDocument (Shared c) \<noteq> None \<Longrightarrow> Shared c' = Shared c"
proof -
  have "shared_ok E s0 c' \<and> (DiscoveryDocument (Shared c) \<noteq> None \<longrightarrow> Shared c' = Shared c)"
  proof (cases "Pc c t")
    case Entered
    then show ?thesis
      using st w unset_doc [of s0 "Shared c"] published_doc [of E s0 "Shared c"] s0
      by (auto simp: advance_def Let_def shared_ok_def unset_def split: if_splits)
  next
    case Fetching
    obtain r s' where r: "run_state (GetOidcDiscoveryContext E (ProviderURL (Shared c))) (Shared c) = (r, s')"
      by (cases "run_state (GetOidcDiscoveryContext E (ProviderURL (Shared c))) (Shared c)")
    have v: "discovery_view s' = discovery_view (s0\<lparr>Jwks := new_jwks\<rparr>)"
      using keeps_run [OF view_discovery r] w(2) Fetching by simp
    have d: "DiscoveryDocument (Shared c) = None" using w(2) Fetching s0 by (simp add: discovery_view_def)
    show ?thesis
    proof (cases r)
      case (Inl e)
      with st w Fetching r d v show ?thesis
        by (auto simp: advance_def Let_def shared_ok_def unset_def discovery_view_def)
    next
      case (Inr d')
      have "fetched E s0 d'"
        unfolding fetched_def using r Inr view_defaults [of "Shared c" s0] w(2) Fetching
        by (intro exI [of _ "Shared c"]) simp
      with st w Fetching r d v Inr view_defaults [OF v] show ?thesis
        by (auto simp: advance_def Let_def shared_ok_def publish_prefix_def)
    qed
  next
    case (Publishing k d iss aud)
    with w have k: "k \<le> 5" "fetched E s0 d" and i: "iss = default_issuer d s0" "aud = default_audience s0"
      and v: "discovery_view (Shared c) = discovery_view (publish_prefix k d s0)" by simp_all
    have v': "discovery_view (publish_step k d iss aud (Shared c)) = discovery_view (publish_prefix (Suc k) d s0)"
      using view_publish_step [OF v] by (simp add: publish_prefix_def i)
    have d: "DiscoveryDocument (Shared c) = None"
      using view_determines(4) [OF v] publish_prefix_doc [OF k(1), of d s0] s0 by simp
    show ?thesis
    proof (cases "k < 5")
      case True
      with st w Publishing v' d k i show ?thesis by (auto simp: advance_def Let_def shared_ok_def)
    next
      case False
      with k have "Suc k = 6" by simp
      with v' have "published E s0 (publish_step k d iss aud (Shared c))"
        unfolding published_def using k(2) by (auto simp: publish_prefix_all)
      with st w Publishing False d show ?thesis by (auto simp: advance_def Let_def shared_ok_def)
    qed
  next
    case (Unlocking r)
    with st w show ?thesis by (cases r) (auto simp: advance_def Let_def shared_ok_def)
  qed (use w(3) in simp_all)
  then show "shared_ok E s0 c'" "DiscoveryDocument (Shared c) \<noteq> None \<Longrightarrow> Shared c' = Shared c" by simp_all
qed

text \<open>The steps outside the critical section leave the struct alone.\<close>

lemma outside_step:
  assumes st: "advance E t c = Some c'" and out: "\<not> inside (Pc c t)" and w: "Writer c \<noteq> Some t" and ok: "shared_ok E s0 c"
  shows "shared_ok E s0 c'" "Shared c' = Shared c"
proof -
  show s: "Shared c' = Shared c"
    using st out by (auto simp: advance_def Let_def split: advance_splits)
  show "shared_ok E s0 c'"
    using st out w ok by (auto simp: advance_def Let_def shared_ok_def split: advance_splits option.splits)
qed

section \<open>Invariants of discovery\<close>

fun reading :: "pc \<Rightarrow> bool" where
  "reading Reading = True"
| "reading (Checked b) = True"
| "reading _ = False"

definition lock_ok :: "'w conc \<Rightarrow> bool" where
  "lock_ok c \<longleftrightarrow> (\<forall>t. inside (Pc c t) \<longleftrightarrow> Writer c = Some t) \<and> (\<forall>t. reading (Pc c t) \<longleftrightarrow> t \<in> Readers c)
     \<and> (Writer c \<noteq> None \<longrightarrow> Readers c = {})"

definition conc_inv :: "'w env \<Rightarrow> 'w toa \<Rightarrow> 'w conc \<Rightarrow> bool" where
  "conc_inv E s0 c \<longleftrightarrow> lock_ok c \<and> shared_ok E s0 c
     \<and> (\<forall>t. Pc c t = Checked True \<or> Pc c t = Returned None \<longrightarrow> published E s0 (Shared c))"

lemma lock_ok_start: "lock_ok (start_discovery s)"
  by (simp add: lock_ok_def start_discovery_def)

lemma readers_step:
  assumes st: "advance E t c = Some c'" and ok: "lock_ok c"
  shows "reading (Pc c' u) \<longleftrightarrow> u \<in> Readers c'" "Writer c' \<noteq> None \<Longrightarrow> Readers c' = {}"
proof -
  have r: "reading (Pc c u) \<longleftrightarrow> u \<in> Readers c" "inside (Pc c t) \<longleftrightarrow> Writer c = Some t" "Writer c \<noteq> None \<longrightarrow> Readers c = {}"
    using ok by (simp_all add: lock_ok_def)
  show "reading (Pc c' u) \<longleftrightarrow> u \<in> Readers c'"
    using st r(1) by (auto simp: advance_def Let_def split: advance_splits)
  show "Writer c' \<noteq> None \<Longrightarrow> Readers c' = {}"
    using st r(2,3) by (auto simp: advance_def Let_def split: advance_splits)
qed

lemma lock_ok_step:
  assumes "lock_ok c" "advance E t c = Some c'"
  shows "lock_ok c'"
  unfolding lock_ok_def
proof (intro conjI allI impI)
  fix u
  show "inside (Pc c' u) \<longleftrightarrow> Writer c' = Some u"
    by (rule disc.owned_step [OF _ assms(2)]) (use assms(1) in \<open>simp add: lock_ok_def\<close>)
  show "reading (Pc c' u) \<longleftrightarrow> u \<in> Readers c'" by (rule readers_step(1) [OF assms(2,1)])
next
  assume "Writer c' \<noteq> None"
  then show "Readers c' = {}" by (rule readers_step(2) [OF assms(2,1)])
qed

lemma advance_shared:
  assumes st: "advance E t c = Some c'" and ok: "lock_ok c" "shared_ok E s0 c" and s0: "DiscoveryDocument s0 = None"
  shows "shared_ok E s0 c'" "DiscoveryDocument (Shared c) \<noteq> None \<Longrightarrow> Shared c' = Shared c"
proof -
  have "shared_ok E s0 c' \<and> (DiscoveryDocument (Shared c) \<noteq> None \<longrightarrow> Shared c' = Shared c)"
  proof (cases "inside (Pc c t)")
    case True
    with ok have w: "Writer c = Some t" by (simp add: lock_ok_def)
    with ok(2) have "writing E s0 (Pc c t) (Shared c)" by (simp add: shared_ok_def)
    from writing_step [OF st w this True s0] show ?thesis by simp
  next
    case False
    with ok have "Writer c \<noteq> Some t" by (simp add: lock_ok_def)
    from outside_step [OF st False this ok(2)] show ?thesis by simp
  qed
  then show "shared_ok E s0 c'" "DiscoveryDocument (Shared c) \<noteq> None \<Longrightarrow> Shared c' = Shared c" by simp_all
qed

lemma visible_published:
  assumes ok: "shared_ok E s0 c" and s0: "DiscoveryDocument s0 = None" and d: "DiscoveryDocument (Shared c) \<noteq> None"
  shows "published E s0 (Shared c)"
proof -
  have nu: "\<not> unset s0 (Shared c)" using unset_doc [of s0 "Shared c"] s0 d by auto
  show ?thesis
  proof (cases "Writer c")
    case None
    with ok nu show ?thesis by (simp add: shared_ok_def)
  next
    case (Some t)
    with ok have w: "writing E s0 (Pc c t) (Shared c)" by (simp add: shared_ok_def)
    show ?thesis
    proof (cases "Pc c t")
      case Fetching
      with w have "DiscoveryDocument (Shared c) = DiscoveryDocument s0" by (simp add: discovery_view_def)
      with s0 d show ?thesis by simp
    next
      case (Publishing k x iss aud)
      with w have "k \<le> 5" and v: "discovery_view (Shared c) = discovery_view (publish_prefix k x s0)" by simp_all
      with view_determines(4) [OF v] publish_prefix_doc [of k x s0] s0 d show ?thesis by simp
    next
      case (Unlocking r)
      with w nu show ?thesis by (cases r) simp_all
    qed (use w nu in simp_all)
  qed
qed

lemma returned_step:
  assumes st: "advance E t c = Some c'" and inv: "conc_inv E s0 c" and s0: "DiscoveryDocument s0 = None"
    and p: "Pc c' u = Checked True \<or> Pc c' u = Returned None"
  shows "published E s0 (Shared c')"
proof (rule visible_published [OF _ s0])
  have ok: "lock_ok c" "shared_ok E s0 c" using inv by (simp_all add: conc_inv_def)
  show "shared_ok E s0 c'" by (rule advance_shared(1) [OF st ok s0])
  have "DiscoveryDocument (Shared c) \<noteq> None"
  proof (cases "Pc c u = Pc c' u")
    case True
    with p inv published_doc show ?thesis unfolding conc_inv_def by metis
  next
    case False
    with disc.others [OF st] have u: "u = t" by metis
    consider "Pc c t = Reading" | b where "Pc c t = Checked b" | r where "Pc c t = Unlocking r"
      using st p u by (cases "Pc c t") (auto simp: advance_def Let_def split: if_splits sum.splits prod.splits)
    then show ?thesis
    proof cases
      case 1
      with st p u show ?thesis by (auto simp: advance_def Let_def)
    next
      case (2 b)
      with st p u have "Pc c t = Checked True" by (auto simp: advance_def Let_def split: if_splits)
      with inv published_doc show ?thesis unfolding conc_inv_def by metis
    next
      case (3 r)
      with st p u have "r = None" by (auto simp: advance_def Let_def)
      with 3 ok have "writing E s0 (Unlocking None) (Shared c)"
        by (metis inside.simps(4) lock_ok_def option.simps(5) shared_ok_def)
      then show ?thesis using published_doc by simp
    qed
  qed
  with advance_shared(2) [OF st ok s0] show "DiscoveryDocument (Shared c') \<noteq> None" by simp
qed

lemma conc_inv_step:
  assumes inv: "conc_inv E s0 c" and st: "conc_step E c c'" and s0: "DiscoveryDocument s0 = None"
  shows "conc_inv E s0 c'"
  using st
proof cases
  case (thread t)
  have ok: "lock_ok c" "shared_ok E s0 c" using inv by (simp_all add: conc_inv_def)
  from lock_ok_step [OF ok(1) thread] advance_shared(1) [OF thread ok s0] returned_step [OF thread inv s0]
  show ?thesis by (simp add: conc_inv_def)
next
  case (elsewhere s)
  with inv show ?thesis
    by (auto simp: conc_inv_def lock_ok_def shared_ok_def view_determines [OF elsewhere(2)] split: option.splits)
qed

lemma conc_reach_inv:
  assumes "conc_reach E s0 c" "DiscoveryDocument s0 = None"
  shows "conc_inv E s0 c"
  using assms(1)
proof induction
  case start
  show ?case
    by (simp add: conc_inv_def lock_ok_start) (simp add: start_discovery_def shared_ok_def unset_def)
next
  case (more c c')
  from conc_inv_step [OF more.IH more.hyps(2) assms(2)] show ?case .
qed

lemma view_stable:
  assumes inv: "conc_inv E s0 c" and st: "conc_step E c c'" and s0: "DiscoveryDocument s0 = None"
    and d: "DiscoveryDocument (Shared c) \<noteq> None"
  shows "discovery_view (Shared c') = discovery_view (Shared c)"
  using st
proof cases
  case (thread t)
  with inv d advance_shared(2) [OF thread _ _ s0] show ?thesis by (simp add: conc_inv_def)
qed simp

section \<open>Invariants of the reload\<close>

text \<open>
  The clock stays within five minutes, the shortest time after which a reload is allowed
  again, and the provider answers the key request with keys.
\<close>

definition clock_within :: "'w env \<Rightarrow> int \<Rightarrow> bool" where
  "clock_within E t0 \<longleftrightarrow> (\<forall>w. t0 \<le> fst (Now E w) \<and> fst (Now E w) \<le> t0 + 5 * Minute)"

definition serves_keys :: "'w env \<Rightarrow> string \<Rightarrow> bool" where
  "serves_keys E u \<longleftrightarrow> (\<forall>s. JwksUrl (Jwks s) = u \<longrightarrow> (\<exists>keys. fst (run_state (request_keys E) s) = Ok keys))"

definition quiet :: "int \<Rightarrow> 'w jconc \<Rightarrow> bool" where
  "quiet t0 c \<longleftrightarrow> Fetches c = 0 \<or> Fetches c = 1 \<and> hasKeys (Jwks (JShared c)) \<and> t0 \<le> CacheDate (Jwks (JShared c))"

fun owner_ok :: "int \<Rightarrow> jpc \<Rightarrow> 'w jconc \<Rightarrow> bool" where
  "owner_ok t0 (JLoad had) c \<longleftrightarrow> Fetches c = 0"
| "owner_ok t0 (JStore rsaKeys ecdsaKeys) c \<longleftrightarrow> Fetches c = 1 \<and> (rsaKeys \<noteq> [] \<or> ecdsaKeys \<noteq> [])"
| "owner_ok t0 (JFailed had e) c \<longleftrightarrow> False"
| "owner_ok t0 _ c \<longleftrightarrow> quiet t0 c"

definition cache_ok :: "int \<Rightarrow> 'w jconc \<Rightarrow> bool" where
  "cache_ok t0 c \<longleftrightarrow> (case ReloadLock c of None \<Rightarrow> quiet t0 c | Some t \<Rightarrow> owner_ok t0 (JPc c t) c)"

definition reload_inv :: "string \<Rightarrow> int \<Rightarrow> 'w jconc \<Rightarrow> bool" where
  "reload_inv u t0 c \<longleftrightarrow> (\<forall>t. reload_inside (JPc c t) \<longleftrightarrow> ReloadLock c = Some t) \<and> JwksUrl (Jwks (JShared c)) = u
     \<and> cache_ok t0 c \<and> (\<forall>t r. JPc c t = JUnlock r \<or> JPc c t = JReturned r \<longrightarrow> r = None)"

lemma run_check_reload:
  "run_state (check_reload E f) s =
     ((needsReload (Jwks s) (fst (Now E (World s))) f, hasKeys (Jwks s)), s\<lparr>World := snd (Now E (World s))\<rparr>)"
  by (simp add: check_reload_def split_def)

lemma run_store_keys:
  "run_state (store_keys E r e) s =
     ((), s\<lparr>World := snd (Now E (World s)),
       Jwks := (Jwks s)\<lparr>RsaKeys := r, EcdsaKeys := e, CacheDate := fst (Now E (World s)), lastReloadError := 0\<rparr>\<rparr>)"
  by (simp add: store_keys_def split_def)

lemma run_stamp_failure:
  "run_state (stamp_failure E) s =
     ((), s\<lparr>World := snd (Now E (World s)), Jwks := (Jwks s)\<lparr>lastReloadError := fst (Now E (World s))\<rparr>\<rparr>)"
  by (simp add: stamp_failure_def split_def)

lemma keys_keeps_Jwks: "keeps Jwks (request_keys E)"
proof -
  have "keeps Jwks (send E r)" for r unfolding send_def by (intro frame) simp
  then show ?thesis unfolding request_keys_def by (intro frame)
qed

lemma request_keys_found:
  assumes "run_state (request_keys E) s = (Ok (r, e), s')"
  shows "r \<noteq> [] \<or> e \<noteq> []"
  using assms keys_of_response_wf(2) unfolding request_keys_def
  by (auto split: sum.splits prod.splits) blast+

lemma quiet_no_reload:
  assumes "quiet t0 c" "Fetches c \<noteq> 0" "clock_within E t0"
  shows "\<not> needsReload (Jwks (JShared c)) (fst (Now E w)) f"
proof (rule needsReload_suppressed)
  show "hasKeys (Jwks (JShared c))" using assms by (simp add: quiet_def)
  have "fst (Now E w) \<le> t0 + 5 * Minute" using assms(3) by (simp add: clock_within_def)
  then show "fst (Now E w) - CacheDate (Jwks (JShared c)) \<le> 5 * Minute
      \<or> \<not> f \<and> fst (Now E w) - CacheDate (Jwks (JShared c)) \<le> 6 * 60 * Minute
      \<or> lastReloadError (Jwks (JShared c)) \<noteq> 0 \<and> fst (Now E w) - lastReloadError (Jwks (JShared c)) < Minute"
    using assms(1,2) by (simp add: quiet_def)
qed

lemma owner_step:
  assumes st: "reload_advance E t c = Some c'" and ow: "ReloadLock c = Some t" "owner_ok t0 (JPc c t) c" "reload_inside (JPc c t)"
    and u: "JwksUrl (Jwks (JShared c)) = u" and env: "clock_within E t0" "serves_keys E u"
  shows "cache_ok t0 c' \<and> JwksUrl (Jwks (JShared c')) = u \<and> (\<forall>r. JPc c' t = JUnlock r \<longrightarrow> r = None)"
proof (cases "JPc c t")
  case (JLocked f)
  with st ow u quiet_no_reload [OF _ _ env(1), of c] show ?thesis
    by (auto simp: reload_advance_def Let_def cache_ok_def run_check_reload quiet_def split: if_splits)
next
  case (JLoad had)
  obtain x s' where r: "run_state (request_keys E) (JShared c) = (x, s')" by (cases "run_state (request_keys E) (JShared c)")
  with env(2) u obtain rk ek where x: "x = Ok (rk, ek)" unfolding serves_keys_def by (metis fst_conv surj_pair)
  from request_keys_found [OF r [unfolded x]] keeps_run [OF keys_keeps_Jwks r] st ow u JLoad r x show ?thesis
    by (auto simp: reload_advance_def Let_def cache_ok_def)
next
  case (JStore rk ek)
  have "t0 \<le> fst (Now E (World (JShared c)))" using env(1) by (simp add: clock_within_def)
  with st ow u JStore show ?thesis
    by (auto simp: reload_advance_def Let_def cache_ok_def run_store_keys quiet_def hasKeys_def)
next
  case (JUnlock r)
  with st ow u show ?thesis by (auto simp: reload_advance_def Let_def cache_ok_def quiet_def)
qed (use ow in simp_all)

lemma waiter_step:
  assumes st: "reload_advance E t c = Some c'" and out: "\<not> reload_inside (JPc c t)" and w: "ReloadLock c \<noteq> Some t"
    and ok: "cache_ok t0 c"
  shows "cache_ok t0 c' \<and> Jwks (JShared c') = Jwks (JShared c) \<and> (\<forall>r. JPc c' t \<noteq> JUnlock r) \<and> (\<forall>r. JPc c' t = JReturned r \<longrightarrow> r = None)"
proof (cases "JPc c t")
  case (JCall f)
  have q: "quiet t0 (c\<lparr>JShared := (JShared c)\<lparr>World := x\<rparr>, JPc := p\<rparr>) = quiet t0 c" for x p by (simp add: quiet_def)
  have o: "owner_ok t0 p' (c\<lparr>JShared := (JShared c)\<lparr>World := x\<rparr>, JPc := p\<rparr>) = owner_ok t0 p' c" for x p p'
    by (cases p') (simp_all add: q)
  from st JCall ok w show ?thesis
    by (auto simp: reload_advance_def Let_def cache_ok_def run_check_reload q o split: option.splits if_splits)
next
  case (JWait f)
  with st ok show ?thesis by (auto simp: reload_advance_def Let_def cache_ok_def quiet_def split: if_splits)
next
  case (JReturned r)
  with st show ?thesis by (simp add: reload_advance_def)
qed (use out in simp_all)

lemma reload_inv_thread:
  assumes inv: "reload_inv u t0 c" and st: "reload_advance E t c = Some c'" and env: "clock_within E t0" "serves_keys E u"
  shows "reload_inv u t0 c'"
proof -
  have own: "reload_inside (JPc c v) \<longleftrightarrow> ReloadLock c = Some v" for v using inv by (simp add: reload_inv_def)
  have ok: "JwksUrl (Jwks (JShared c)) = u" "cache_ok t0 c" using inv by (simp_all add: reload_inv_def)
  have "cache_ok t0 c' \<and> JwksUrl (Jwks (JShared c')) = u \<and> (\<forall>r. JPc c' t = JUnlock r \<or> JPc c' t = JReturned r \<longrightarrow> r = None)"
  proof (cases "reload_inside (JPc c t)")
    case True
    with own ok have o: "ReloadLock c = Some t" "owner_ok t0 (JPc c t) c" by (simp_all add: cache_ok_def)
    have "JPc c' t = JReturned r \<Longrightarrow> JPc c t = JUnlock r" for r
      using st True by (auto simp: reload_advance_def Let_def split: reload_splits)
    then have "JPc c' t = JReturned r \<Longrightarrow> r = None" for r using inv by (auto simp: reload_inv_def)
    with owner_step [OF st o True ok(1) env] show ?thesis by blast
  next
    case False
    with own have "ReloadLock c \<noteq> Some t" by simp
    from waiter_step [OF st False this ok(2)] ok show ?thesis by simp
  qed
  moreover have "r = None" if "JPc c' v = JUnlock r \<or> JPc c' v = JReturned r" "v \<noteq> t" for v r
    using that inv reload.others [OF st that(2)] by (auto simp: reload_inv_def)
  ultimately show ?thesis
    using reload.owned_step [OF own st] unfolding reload_inv_def by metis
qed

lemma reload_reach_inv:
  assumes "reload_reach E s0 force c" and env: "clock_within E t0" "serves_keys E (JwksUrl (Jwks s0))"
  shows "reload_inv (JwksUrl (Jwks s0)) t0 c"
  using assms(1)
proof induction
  case reload_start
  show ?case by (simp add: reload_inv_def start_reload_def cache_ok_def quiet_def)
next
  case (reload_more c c')
  from reload_more.hyps(2) show ?case
  proof cases
    case (reload_thread t)
    from reload_inv_thread [OF reload_more.IH this env] show ?thesis .
  next
    case (reload_elsewhere s)
    have o: "owner_ok t0 p (c\<lparr>JShared := s\<rparr>) = owner_ok t0 p c" for p
      using reload_elsewhere by (cases p) (simp_all add: quiet_def)
    from reload_elsewhere reload_more.IH show ?thesis
      by (auto simp: reload_inv_def cache_ok_def o quiet_def split: option.splits)
  qed
qed

section \<open>One thread alone\<close>

text \<open>Without other threads the machines are the sequential definitions.\<close>

theorem discovery_alone:
  assumes "run_state (EnsureOidcDiscovery E) s = (r, s')"
  shows "\<exists>n \<le> 13. run_schedule (advance E) (replicate n t) (start_discovery s)
    = Some \<lparr>Shared = s', Readers = {}, Writer = None, Pc = (\<lambda>_. Idle)(t := Returned r)\<rparr>"
proof (cases "DiscoveryDocument s")
  case (Some d)
  with assms show ?thesis
    by (intro exI [of _ 3]) (simp add: EnsureOidcDiscovery_def advance_def start_discovery_def eval_nat_numeral)
next
  case None
  let ?s = "s\<lparr>Jwks := new_jwks\<rparr>"
  obtain x s2 where g: "run_state (GetOidcDiscoveryContext E (ProviderURL s)) ?s = (x, s2)"
    by (cases "run_state (GetOidcDiscoveryContext E (ProviderURL s)) ?s")
  show ?thesis
  proof (cases x)
    case (Inl e)
    with None assms g show ?thesis
      by (intro exI [of _ 7]) (simp add: EnsureOidcDiscovery_def advance_def start_discovery_def eval_nat_numeral)
  next
    case (Inr d)
    with None assms g show ?thesis
      by (intro exI [of _ 13])
        (simp add: EnsureOidcDiscovery_def advance_def start_discovery_def eval_nat_numeral publish_step_def
          publish_discovery_def default_issuer_def default_audience_def Let_def)
  qed
qed

lemma loadKeysContext_parts:
  "loadKeysContext E = do {
     r \<leftarrow> request_keys E;
     case r of Inl e \<Rightarrow> return (Some e) | Inr (rsaKeys, ecdsaKeys) \<Rightarrow> do { store_keys E rsaKeys ecdsaKeys; return None }
   }"
  unfolding loadKeysContext_def request_keys_def store_keys_def
  by (rule state.expand) (auto simp: fun_eq_iff split: sum.splits prod.splits)

theorem reload_alone:
  assumes "run_state (EnsureLoadedContext E (force t)) s = (r, s')"
  shows "\<exists>n \<le> 6. \<exists>k. run_schedule (reload_advance E) (replicate n t) (start_reload s force)
    = Some \<lparr>JShared = s', ReloadLock = None, Fetches = k, JPc = (\<lambda>u. JCall (force u))(t := JReturned r)\<rparr>"
proof -
  let ?f = "force t" and ?w1 = "snd (Now E (World s))"
  let ?s2 = "s\<lparr>World := snd (Now E ?w1)\<rparr>"
  let ?n1 = "needsReload (Jwks s) (fst (Now E (World s))) ?f" and ?n2 = "needsReload (Jwks s) (fst (Now E ?w1)) ?f"
  note sims = EnsureLoadedContext_def reload_advance_def start_reload_def eval_nat_numeral run_check_reload split_def
  show ?thesis
  proof (cases "?n1 \<and> ?n2")
    case False
    then show ?thesis
    proof (cases ?n1)
      case True
      with False assms show ?thesis by (intro exI [of _ 4]) (simp add: sims)
    next
      case False
      with assms show ?thesis by (intro exI [of _ 1]) (simp add: sims)
    qed
  next
    case needed: True
    obtain x s3 where x: "run_state (request_keys E) ?s2 = (x, s3)" by (cases "run_state (request_keys E) ?s2")
    have l: "run_state (loadKeysContext E) ?s2 =
        (case x of Inl e \<Rightarrow> (Some e, s3) | Inr (rk, ek) \<Rightarrow> (None, snd (run_state (store_keys E rk ek) s3)))"
      unfolding loadKeysContext_parts by (simp add: x split: sum.split prod.split)
    show ?thesis
    proof (cases x)
      case (Inl e)
      with needed assms x l show ?thesis
        by (intro exI [of _ 6]) (cases "hasKeys (Jwks s)"; simp add: sims run_stamp_failure)
    next
      case (Inr keys)
      with needed assms x l show ?thesis
        by (intro exI [of _ 6]) (simp add: sims run_store_keys)
    qed
  qed
qed

text \<open>A reload is one of the steps elsewhere that discovery allows for.\<close>

lemma reload_elsewhere_ok: "keeps discovery_view (EnsureLoadedContext E force)"
  unfolding keeps_def
proof
  fix s
  obtain err s' where r: "run_state (EnsureLoadedContext E force) s = (err, s')"
    by (cases "run_state (EnsureLoadedContext E force) s")
  from EnsureLoadedContext_frame [OF r] r show "discovery_view (snd (run_state (EnsureLoadedContext E force) s)) = discovery_view s"
    by (auto simp: discovery_view_def)
qed

section \<open>Properties\<close>

lemma discovery_not_stuck:
  assumes ok: "lock_ok c" and t: "t \<in> T" "rank (Pc c t) \<noteq> 0" and idle: "\<And>u. u \<notin> T \<Longrightarrow> Pc c u = Idle"
  shows "\<exists>u\<in>T. advance E u c \<noteq> None \<and> (Pc c u = Idle \<longrightarrow> (\<forall>v. Pc c v \<noteq> Missed))"
proof (cases "Writer c")
  case (Some w)
  with ok have i: "inside (Pc c w)" by (simp add: lock_ok_def)
  then have ni: "Pc c w \<noteq> Idle" by auto
  with idle have "w \<in> T" by blast
  moreover have "advance E w c \<noteq> None"
    using i by (cases "Pc c w") (simp_all add: advance_def Let_def split: prod.split sum.split)
  ultimately show ?thesis using ni by blast
next
  case None
  show ?thesis
  proof (cases "Readers c = {}")
    case False
    then obtain r where "r \<in> Readers c" by blast
    with ok have r: "reading (Pc c r)" by (simp add: lock_ok_def)
    then have ni: "Pc c r \<noteq> Idle" by auto
    with idle have "r \<in> T" by blast
    moreover have "advance E r c \<noteq> None" using r by (cases "Pc c r") (simp_all add: advance_def Let_def)
    ultimately show ?thesis using ni by blast
  next
    case True
    show ?thesis
    proof (cases "\<exists>v. Pc c v = Missed")
      case waits: True
      then obtain v where v: "Pc c v = Missed" by blast
      then have "v \<in> T" using idle by fastforce
      moreover have "advance E v c \<noteq> None" using v None True by (simp add: advance_def Let_def)
      ultimately show ?thesis using v by (intro bexI [of _ v]) simp_all
    next
      case False
      moreover have "\<not> inside (Pc c t)" "\<not> reading (Pc c t)" using ok None True by (simp_all add: lock_ok_def)
      ultimately have "Pc c t = Idle" using t(2) by (cases "Pc c t") auto
      then have "advance E t c \<noteq> None" using None by (simp add: advance_def Let_def)
      with False t(1) show ?thesis by blast
    qed
  qed
qed

lemma final_view:
  assumes "(conc_step E)\<^sup>*\<^sup>* c c'" "conc_inv E s0 c" "DiscoveryDocument s0 = None" "DiscoveryDocument (Shared c) \<noteq> None"
  shows "conc_inv E s0 c' \<and> discovery_view (Shared c') = discovery_view (Shared c)"
  using assms(1)
proof induction
  case base
  show ?case using assms(2) by simp
next
  case (step c1 c2)
  then have "DiscoveryDocument (Shared c1) \<noteq> None" using view_determines(4) [of "Shared c1" "Shared c"] assms(4) by simp
  with step conc_inv_step [OF _ step.hyps(2) assms(3)] view_stable [OF _ step.hyps(2) assms(3)] show ?case by simp
qed

text \<open>
  C5. Discovery under concurrent requests publishes safely and once. In every state that any
  number of threads can reach in \<open>EnsureOidcDiscovery\<close>, interleaved with anything that other
  requests do elsewhere: at most one thread is inside the critical section, and then no thread
  holds the read lock; whoever sees a document, also without the lock, sees the key URL, the
  issuer and the audience that belong to it, in the struct and in the configuration, exactly as
  \<open>publish_discovery\<close> sets them from a document that the provider sent; a call that returned
  nil guarantees this; and from then on no step of any thread changes any of it.
\<close>

theorem discovery_publication:
  assumes "conc_reach E s0 c" "DiscoveryDocument s0 = None"
  shows "(\<forall>t u. inside (Pc c t) \<longrightarrow> \<not> reading (Pc c u) \<and> (inside (Pc c u) \<longrightarrow> u = t))
    \<and> (\<forall>t. Pc c t = Returned None \<longrightarrow> DiscoveryDocument (Shared c) \<noteq> None)
    \<and> (DiscoveryDocument (Shared c) \<noteq> None \<longrightarrow>
         (\<exists>d. fetched E s0 d \<and> discovery_view (Shared c) = discovery_view (publish_discovery d s0)))
    \<and> (\<forall>c'. DiscoveryDocument (Shared c) \<noteq> None \<and> (conc_step E)\<^sup>*\<^sup>* c c' \<longrightarrow>
         discovery_view (Shared c') = discovery_view (Shared c))"
proof (intro conjI allI impI)
  have inv: "conc_inv E s0 c" by (rule conc_reach_inv [OF assms])
  then have ok: "lock_ok c" "shared_ok E s0 c" by (simp_all add: conc_inv_def)
  fix t u
  assume t: "inside (Pc c t)"
  with ok have "Writer c = Some t" "Readers c = {}" by (simp_all add: lock_ok_def)
  with ok show "\<not> reading (Pc c u)" "inside (Pc c u) \<Longrightarrow> u = t" by (simp_all add: lock_ok_def)
next
  fix t
  assume "Pc c t = Returned None"
  with conc_reach_inv [OF assms] published_doc show "DiscoveryDocument (Shared c) \<noteq> None"
    unfolding conc_inv_def by blast
next
  assume "DiscoveryDocument (Shared c) \<noteq> None"
  with conc_reach_inv [OF assms] visible_published [OF _ assms(2)]
  show "\<exists>d. fetched E s0 d \<and> discovery_view (Shared c) = discovery_view (publish_discovery d s0)"
    unfolding conc_inv_def published_def by blast
next
  fix c'
  assume "DiscoveryDocument (Shared c) \<noteq> None \<and> (conc_step E)\<^sup>*\<^sup>* c c'"
  with final_view [OF _ conc_reach_inv [OF assms] assms(2)]
  show "discovery_view (Shared c') = discovery_view (Shared c)" by blast
qed

text \<open>
  C18. Discovery cannot deadlock. Whatever the provider answers, a run of any finite set of
  threads through \<open>EnsureOidcDiscovery\<close> makes at most thirteen steps per thread, and when no
  thread can go on, every call has returned. This holds also when a waiting writer keeps new
  readers out, as Go's \<open>RWMutex\<close> does.
\<close>

theorem discovery_returns:
  assumes "finite T" "set ts \<subseteq> T" "run_schedule (advance E) ts (start_discovery s) = Some c"
    and "\<forall>t\<in>T. advance E t c = None \<or> Pc c t = Idle \<and> (\<exists>u. Pc c u = Missed)"
  shows "length ts \<le> 13 * card T \<and> (\<forall>t\<in>T. \<exists>r. Pc c t = Returned r)"
proof (intro conjI ballI)
  show "length ts \<le> 13 * card T"
    using disc.run_bound [OF assms(1,2,3)] by (simp add: start_discovery_def)
  have ok: "lock_ok c" by (rule disc.run_invariant [where P = lock_ok, OF assms(3) lock_ok_start lock_ok_step])
  have idle: "Pc c u = Idle" if "u \<notin> T" for u
    using disc.untouched [OF _ assms(3), of u] that assms(2) by (auto simp: start_discovery_def)
  fix t
  assume t: "t \<in> T"
  have "rank (Pc c t) = 0"
  proof (rule ccontr)
    assume "rank (Pc c t) \<noteq> 0"
    then have "\<exists>u\<in>T. advance E u c \<noteq> None \<and> (Pc c u = Idle \<longrightarrow> (\<forall>v. Pc c v \<noteq> Missed))"
      by (intro discovery_not_stuck [OF ok t]) (simp_all add: idle)
    then obtain u where u: "u \<in> T" "advance E u c \<noteq> None" "Pc c u = Idle \<Longrightarrow> Pc c v \<noteq> Missed" for v by blast
    from bspec [OF assms(4) u(1)] u(2) obtain v where "Pc c u = Idle" "Pc c v = Missed" by auto
    with u(3) show False by simp
  qed
  then show "\<exists>r. Pc c t = Returned r" by (cases "Pc c t") simp_all
qed

text \<open>
  C6. Concurrent cache misses make a single request to the provider. While the clock moves by no
  more than five minutes and the provider answers with keys, any number of concurrent calls of
  \<open>EnsureLoadedContext\<close>, forced or not, interleaved with other requests, fetch the keys at most
  once, and every call that returns, returns nil.
\<close>

theorem reload_once:
  assumes "reload_reach E s0 force c" "clock_within E t0" "serves_keys E (JwksUrl (Jwks s0))"
  shows "Fetches c \<le> 1 \<and> (\<forall>t r. JPc c t = JReturned r \<longrightarrow> r = None)"
proof -
  have inv: "reload_inv (JwksUrl (Jwks s0)) t0 c" by (rule reload_reach_inv [OF assms])
  have "Fetches c \<le> 1"
  proof (cases "ReloadLock c")
    case None
    with inv show ?thesis by (auto simp: reload_inv_def cache_ok_def quiet_def)
  next
    case (Some t)
    with inv show ?thesis
      by (cases "JPc c t") (auto simp: reload_inv_def cache_ok_def quiet_def)
  qed
  with inv show ?thesis by (simp add: reload_inv_def)
qed

text \<open>A provider that serves a document and a key, on a clock that stands still.\<close>

definition provider_env :: "unit env" where
  "provider_env = dead_env\<lparr>
     Do := (\<lambda>r w. (Ok \<lparr>StatusCode = 200, RespHeader = (\<lambda>_. []), Body = ''{}'', BodyErr = None\<rparr>, w)),
     JsonText := \<lparr>json_print = (\<lambda>_. []),
       json_parse = (\<lambda>_. Some (JObj [(''keys'', JArr [JObj [(''kid'', JStr ''k1''), (''kty'', JStr ''RSA''),
         (''n'', JStr ''Dw''), (''e'', JStr ''Aw'')]])])),
       json_first = (\<lambda>_. Some (JObj [(''issuer'', JStr ''https://idp''), (''jwks_uri'', JStr ''https://idp/keys'')]))\<rparr>\<rparr>"

definition provider_doc :: OidcDiscovery where
  "provider_doc = zero_discovery\<lparr>Issuer := ''https://idp'', JWKSURI := ''https://idp/keys''\<rparr>"

lemma provider_discovery: "run_state (GetOidcDiscoveryContext provider_env u) s = (Ok provider_doc, s)"
proof -
  have "decode_struct discovery_fields (JObj [(''issuer'', JStr ''https://idp''), (''jwks_uri'', JStr ''https://idp/keys'')]) zero_discovery
      = Some provider_doc"
    by code_simp
  then show ?thesis
    by (simp add: GetOidcDiscoveryContext_def Let_def send_def provider_env_def dead_env_def)
qed

lemma provider_keys: "keys_of_response provider_env u \<lparr>StatusCode = 200, RespHeader = h, Body = ''{}'', BodyErr = None\<rparr> = Ok ([(''k1'', RsaPublicKey 15 3)], [])"
proof -
  have "Option.bind (decode_jwks (JObj [(''keys'', JArr [JObj [(''kid'', JStr ''k1''), (''kty'', JStr ''RSA''),
         (''n'', JStr ''Dw''), (''e'', JStr ''Aw'')]])])) (\<lambda>ks. Some (extractKeys ks)) = Some (Ok ([(''k1'', RsaPublicKey 15 3)], []))"
    by code_simp
  then show ?thesis
    by (simp add: keys_of_response_def read_limited_def provider_env_def maxJwksBodySize_def bind_eq_Some_conv split: option.splits)
      auto
qed

lemma provider_ok: "clock_within provider_env 63000000000000000000" "serves_keys provider_env u"
proof -
  show "clock_within provider_env 63000000000000000000"
    by (simp add: clock_within_def provider_env_def dead_env_def Minute_def Second_def)
  show "serves_keys provider_env u"
    unfolding serves_keys_def request_keys_def using provider_keys
    by (simp add: send_def provider_env_def dead_env_def)
qed


text \<open>Witnesses: two calls, the second of which reads while the first waits for the write lock.\<close>

definition race :: "nat list" where
  "race = [0, 0, 1, 0, 1, 1] @ replicate 10 0 @ replicate 3 1"

lemma race_run:
  "\<exists>c. run_schedule (advance provider_env) race (start_discovery sample_toa) = Some c
     \<and> Pc c 0 = Returned None \<and> Pc c 1 = Returned None"
  by (simp add: race_def eval_nat_numeral advance_def start_discovery_def provider_discovery publish_step_def sample_toa_def
      insert_Diff_if Let_def)

lemma run_reaches:
  assumes "run_schedule (advance E) ts c = Some c'" "conc_reach E s0 c"
  shows "conc_reach E s0 c'"
  by (rule disc.run_invariant [where P = "conc_reach E s0", OF assms]) (blast intro: conc_reach.more conc_step.thread)

theorem discovery_publication_witness:
  "\<exists>c d. run_schedule (advance provider_env) race (start_discovery sample_toa) = Some c
     \<and> discovery_view (Shared c) = discovery_view (publish_discovery d sample_toa)"
proof -
  obtain c where c: "run_schedule (advance provider_env) race (start_discovery sample_toa) = Some c" "Pc c 0 = Returned None"
    using race_run by blast
  have "conc_reach provider_env sample_toa c" by (rule run_reaches [OF c(1) conc_reach.start])
  from discovery_publication [OF this] c show ?thesis by (auto simp: sample_toa_def)
qed

theorem discovery_returns_witness:
  "\<exists>c r. run_schedule (advance provider_env) race (start_discovery sample_toa) = Some c \<and> Pc c 1 = Returned r \<and> length race \<le> 26"
proof -
  obtain c where c: "run_schedule (advance provider_env) race (start_discovery sample_toa) = Some c"
    "Pc c 0 = Returned None" "Pc c 1 = Returned None"
    using race_run by blast
  have "\<forall>t\<in>{0, 1}. advance provider_env t c = None \<or> Pc c t = Idle \<and> (\<exists>u. Pc c u = Missed)"
    using c by (simp add: advance_def)
  moreover have "set race \<subseteq> {0, 1}" by (auto simp: race_def)
  ultimately show ?thesis using discovery_returns [OF _ _ c(1), of "{0, 1}"] c(1) by auto
qed

theorem reload_once_witness:
  "\<exists>c. run_schedule (reload_advance provider_env) [0, 1, 0, 0, 0, 0, 0, 1, 1, 1] (start_reload (sample_toa\<lparr>Jwks := new_jwks\<rparr>) (\<lambda>_. True)) = Some c
     \<and> JPc c 0 = JReturned None \<and> JPc c 1 = JReturned None \<and> Fetches c \<le> 1"
proof -
  let ?s = "start_reload (sample_toa\<lparr>Jwks := new_jwks\<rparr>) (\<lambda>_. True)"
  have k: "run_state (request_keys provider_env) s = (Ok ([(''k1'', RsaPublicKey 15 3)], []), s)" for s
    using provider_keys by (simp add: request_keys_def send_def provider_env_def dead_env_def)
  have n: "fst (Now provider_env w) = 63000000000000000000" for w by (simp add: provider_env_def dead_env_def)
  have "\<exists>c. run_schedule (reload_advance provider_env) [0, 1, 0, 0, 0, 0, 0, 1, 1, 1] ?s = Some c
     \<and> JPc c 0 = JReturned None \<and> JPc c 1 = JReturned None"
    by (simp add: reload_advance_def start_reload_def run_check_reload run_store_keys needsReload_def hasKeys_def new_jwks_def
        n k Minute_def Second_def Let_def)
  then obtain c where c: "run_schedule (reload_advance provider_env) [0, 1, 0, 0, 0, 0, 0, 1, 1, 1] ?s = Some c"
    "JPc c 0 = JReturned None" "JPc c 1 = JReturned None" by blast
  have "reload_reach provider_env (sample_toa\<lparr>Jwks := new_jwks\<rparr>) (\<lambda>_. True) c"
    by (rule reload.run_invariant [where P = "reload_reach provider_env (sample_toa\<lparr>Jwks := new_jwks\<rparr>) (\<lambda>_. True)", OF c(1)
          reload_reach.reload_start]) (blast intro: reload_reach.reload_more reload_step.reload_thread)
  from reload_once [OF this provider_ok] c show ?thesis by blast
qed

end
