(* ===== verification/Server.thy ===== *)
theory Server
  imports ExtAuthz Concurrency
begin

text \<open>
  The external authorization server as a whole, as \<open>main\<close> of \<open>cmd/extauth-server/main.go\<close> puts
  it together: an instance of the middleware for each client of the configuration file, the
  router in front of them, and the two modes in which a gateway asks. The step relation
  \<open>server_reach\<close> lets instances serve any requests, in any order, between any reloads.
\<close>

section \<open>Instances\<close>

text \<open>
  The struct that \<open>New\<close> returns: no document, no keys, no session written yet. The bypass rule
  is a field of the instance. The request is a placeholder until one is served.
\<close>

definition boot :: "'w \<Rightarrow> request \<Rightarrow> instance_fields \<Rightarrow> 'w toa" where
  "boot w r i = \<lparr>World = w, ProviderURL = Inst_ProviderURL i, ClientJwtPrivateKey = Inst_ClientKey i,
     CallbackURL = Inst_CallbackURL i, Config = deref (Inst_Config i), DiscoveryDocument = None, Jwks = new_jwks,
     RedirectUriWildcardsEnabled = Inst_Wildcards i, validIssuer = [], validAudience = [],
     sessionWrites = \<lparr>last_write = Map.empty, write_count = 0\<rparr>, Req = r, Rw = []\<rparr>"

definition env_of :: "'w env \<Rightarrow> instance_fields \<Rightarrow> 'w env" where
  "env_of E i = E\<lparr>BypassRule := Inst_Bypass i\<rparr>"

text \<open>One request at an instance: its answer, \<open>None\<close> for a panic, and the struct after it.\<close>

definition instance_serve :: "'w env \<Rightarrow> instance_fields \<Rightarrow> 'w toa \<Rightarrow> request \<Rightarrow> rw \<Rightarrow> rw option \<times> 'w toa" where
  "instance_serve E i s req rw =
     (case run_state (ServeHTTP (env_of E i)) (s\<lparr>Req := req, Rw := rw\<rparr>) of
        (Panicked, s') \<Rightarrow> (None, s')
      | (Served, s') \<Rightarrow> (Some (Rw s'), s'))"

section \<open>The server\<close>

record 'w server =
  Routes :: "(string \<times> middleware) list"
  Insts :: "instance_fields \<Rightarrow> 'w toa"

text \<open>
  The handler of a client. The catalog stub has no callback URL, and \<open>isCallbackRequest\<close>, the
  first call of \<open>ServeHTTP\<close>, dereferences it.
\<close>

definition handler_serve :: "'w env \<Rightarrow> 'w server \<Rightarrow> middleware \<Rightarrow> request \<Rightarrow> rw \<Rightarrow> rw option" where
  "handler_serve E c h req rw =
     (case h of CatalogStub \<Rightarrow> None | Instance i \<Rightarrow> fst (instance_serve E i (Insts c i) req rw))"

definition route_request :: "'w env \<Rightarrow> 'w server \<Rightarrow> request \<Rightarrow> rw \<Rightarrow> rw option" where
  "route_request E c = router_ServeHTTP (handler_serve E c) (Routes c)"

text \<open>The handler of the HTTP listener, and the call of the gRPC listener with its interceptor.\<close>

definition http_mode :: "'w env \<Rightarrow> gateway_ops \<Rightarrow> IPNet list \<Rightarrow> 'w server \<Rightarrow> request \<Rightarrow> rw option" where
  "http_mode E G trustedProxies c req = forwardedRequest G trustedProxies (route_request E c) req []"

definition record_answer :: "(rw \<Rightarrow> header_list \<times> string) \<Rightarrow> rw \<Rightarrow> recorded" where
  "record_answer render rw = \<lparr>StatusCode = int (rw_status rw), ResultHeader = fst (render rw), RecBody = snd (render rw)\<rparr>"

definition grpc_run :: "'w env \<Rightarrow> (rw \<Rightarrow> header_list \<times> string) \<Rightarrow> 'w server \<Rightarrow> request \<Rightarrow> recorded option" where
  "grpc_run E render c r = map_option (record_answer render) (route_request E c r [])"

definition grpc_mode ::
  "'w env \<Rightarrow> (string \<Rightarrow> url result) \<Rightarrow> (rw \<Rightarrow> header_list \<times> string) \<Rightarrow> 'w server \<Rightarrow> check_request \<Rightarrow> check_response result" where
  "grpc_mode E parseURL render c cr = recoveryInterceptor (Check parseURL (grpc_run E render c) cr)"

text \<open>
  A run of the server. \<open>hist\<close> holds the state of the environment and the files at each load,
  the latest first. A load that succeeds makes new instances; one that fails changes nothing.
  Every instance sees the same outside world, which may change at any time.
\<close>

inductive server_reach ::
  "'n yaml_ops \<Rightarrow> sys \<Rightarrow> 'w env \<Rightarrow> string \<Rightarrow> os list \<Rightarrow> 'w server \<Rightarrow> bool"
  for Y :: "'n yaml_ops" and S :: sys and E :: "'w env" and path :: string where
  boots: "reloadFromFile os Y (server_factory S os) path = Some (Ok m) \<Longrightarrow>
    server_reach Y S E path [os] \<lparr>Routes = m, Insts = boot w r\<rparr>"
| reloads: "server_reach Y S E path hist c \<Longrightarrow>
    server_reach Y S E path (os # hist)
      (case reloadFromFile os Y (server_factory S os) path of
         Some (Inr m) \<Rightarrow> \<lparr>Routes = m, Insts = boot w r\<rparr>
       | _ \<Rightarrow> c)"
| serves: "server_reach Y S E path hist c \<Longrightarrow>
    server_reach Y S E path hist (c\<lparr>Insts := (Insts c)(i := snd (instance_serve E i (Insts c i) req []))\<rparr>)"
| world: "server_reach Y S E path hist c \<Longrightarrow>
    server_reach Y S E path hist (c\<lparr>Insts := (\<lambda>i. (Insts c i)\<lparr>World := w\<rparr>)\<rparr>)"

section \<open>The settings of an instance do not change\<close>

text \<open>
  Only discovery assigns to the configuration, and of it only the two effective defaults. All
  other handlers keep it as it is.
\<close>

lemma keeps_inner: "inner m \<Longrightarrow> keeps Config m"
  by (rule inner_keeps) simp_all

lemma keeps_pages [frame]:
  "keeps Config (WriteError E p d)" "keeps Config (writeUnauthenticatedError E)" "keeps Config (writeUnauthorizedError E)"
  "keeps Config (writeSuccessfulLogout E)" "keeps Config unavailable" "keeps Config (internalError msg)"
proof -
  show w: "keeps Config (WriteError E p d)" for p d
    unfolding WriteError_def http_Redirect_def http_Error_def Let_def by (intro frame) simp_all
  show "keeps Config unavailable" "keeps Config (internalError msg)"
    unfolding unavailable_def internalError_def http_Error_def by (intro frame; simp)+
  show "keeps Config (writeUnauthenticatedError E)" "keeps Config (writeUnauthorizedError E)" "keeps Config (writeSuccessfulLogout E)"
    unfolding writeUnauthenticatedError_def writeUnauthorizedError_def writeSuccessfulLogout_def Let_def by (intro frame w; simp)+
qed

lemma keeps_http [frame]: "keeps Config (http_Error msg code)" "keeps Config (http_Redirect u code)"
  unfolding http_Redirect_def http_Error_def by (intro frame; simp)+

lemma keeps_redirects [frame]:
  "keeps Config (redirectToProvider E r ch)" "keeps Config (doubleRedirectToProvider E r ch)"
  unfolding redirectToProvider_def doubleRedirectToProvider_def Let_def seal_and_redirect_def add_pkce_def
  by (intro frame; (rule keeps_inner, intro inners)?; simp?)+


lemma keeps_forward [frame]: "keeps Config forwardToUpstream" "keeps Config next_ServeHTTP" "keeps Config sanitize"
  unfolding forwardToUpstream_def next_ServeHTTP_def sanitize_def by (intro frame; simp)+

lemma keeps_login [frame]:
  "keeps Config (handleLogin E ch o')" "keeps Config (handleUnauthenticated E)" "keeps Config (handleUnauthorized E sess o')"
proof -
  show l: "keeps Config (handleLogin E ch o')" for ch o' unfolding handleLogin_def Let_def by (intro frame)
  show "keeps Config (handleUnauthenticated E)" "keeps Config (handleUnauthorized E sess o')"
    unfolding handleUnauthenticated_def handleUnauthorized_def Let_def by (intro frame l)+
qed

lemma keeps_mark [frame]: "keeps Config (mark E sid)"
  unfolding mark_def Let_def by (intro frame) simp_all

lemma keeps_store [frame]: "keeps Config (storeSessionAndAttachCookie E sess)" "keeps Config (store_if_due E sess upd)"
proof -
  show s: "keeps Config (storeSessionAndAttachCookie E sess)" for sess
    unfolding storeSessionAndAttachCookie_def Let_def by (intro frame; (rule keeps_inner, intro inners)?; simp?)
  show "keeps Config (store_if_due E sess upd)"
    unfolding store_if_due_def Let_def by (intro frame s; (rule keeps_inner, intro inners)?; simp?)
qed

lemma keeps_session [frame]:
  "keeps Config (clear_session_cookie E)" "keeps Config (handleLogout E sess)" "keeps Config (handleFrontchannelLogout E sess c)"
  "keeps Config (attachHeaders E sess c pub auth)" "keeps Config (forward_session E pub sess c upd)"
proof -
  show cl: "keeps Config (clear_session_cookie E)"
    unfolding clear_session_cookie_def Let_def by (intro frame; simp?)
  show "keeps Config (handleLogout E sess)"
    unfolding handleLogout_def Let_def by (intro frame cl; (rule keeps_inner, intro inners)?; simp?)
  show "keeps Config (handleFrontchannelLogout E sess c)"
    unfolding handleFrontchannelLogout_def Let_def by (intro frame cl; (rule keeps_inner, intro inners)?; simp?)
  show a: "keeps Config (attachHeaders E sess c pub auth)" for sess c pub auth
    unfolding attachHeaders_def Let_def by (intro frame; (rule keeps_inner, intro inners)?; simp?)
  show "keeps Config (forward_session E pub sess c upd)"
    unfolding forward_session_def Let_def by (intro frame a; (rule keeps_inner, intro inners)?; simp?)
qed

lemma keeps_callback [frame]: "keeps Config (handleCallback E)"
proof -
  have val: "keeps Config (validateCallbackToken E token st)" for token st
    unfolding validateCallbackToken_def check_callback_token_def Let_def by (intro frame; (rule keeps_inner, intro inners)?; simp?)
  have est: "keeps Config (establishSession E token c st)" for token c st
    unfolding establishSession_def Let_def by (intro frame; (rule keeps_inner, intro inners)?; simp?)
  have fin: "keeps Config (finish_login E st sess)" for st sess
    unfolding finish_login_def Let_def by (intro frame; (rule keeps_inner, intro inners)?; simp?)
  have log: "keeps Config (callback_login E st)" for st
    unfolding callback_login_def complete_login_def step_up_fails_def Let_def
    by (intro frame fin val est; (rule keeps_inner, intro inners)?; simp?)
  show ?thesis
    unfolding handleCallback_def callback_action_def Let_def by (intro frame log; (rule keeps_inner, intro inners)?; simp?)
qed

lemma keeps_authenticate: "keeps Config (authenticate E pub)"
  unfolding authenticate_def serve_session_def serve_anonymous_def Let_def
  by (intro frame; (rule keeps_inner, intro inners)?; simp?)


definition runs_on :: "Config \<Rightarrow> Config \<Rightarrow> bool" where
  "runs_on c cfg \<longleftrightarrow> (\<exists>iss aud. cfg = c\<lparr>Provider := (Provider c)\<lparr>ValidIssuer := iss, ValidAudience := aud\<rparr>\<rparr>)"

lemma runs_on_refl: "runs_on c c"
  unfolding runs_on_def
  by (rule exI [of _ "ValidIssuer (Provider c)"], rule exI [of _ "ValidAudience (Provider c)"]) (simp only: same_effective)

lemma runs_on_trans: "runs_on a b \<Longrightarrow> runs_on b c \<Longrightarrow> runs_on a c"
  unfolding runs_on_def by force

lemma runs_on_discovery:
  assumes "run_state (EnsureOidcDiscovery E) s = (e, s1)"
  shows "runs_on (Config s) (Config s1)"
  by (rule discovery_frame [OF assms]) (auto simp: runs_on_def)

lemma ServeHTTP_settings:
  assumes "run_state (ServeHTTP E) s = (out, s')"
  shows "runs_on (Config s) (Config s')"
proof -
  let ?pub = "case BypassRule E of None \<Rightarrow> False | Some rule \<Rightarrow> rule (Req s)"
  obtain e s1 where d: "run_state (EnsureOidcDiscovery E) s = (e, s1)" by (cases "run_state (EnsureOidcDiscovery E) s")
  consider (login) "run_state (case e of Some err \<Rightarrow> unavailable | None \<Rightarrow> handleCallback E) s1 = ((), s')"
    | (err) "run_state unavailable s1 = ((), s')"
    | (route) "run_state (handleLogin E False []) s1 = ((), s')"
    | (public) "run_state forwardToUpstream s = ((), s')"
    | (auth) "run_state (authenticate E ?pub) s1 = (out, s')"
    using assms d by (auto simp: ServeHTTP_def Let_def split: if_splits option.splits prod.splits)
  then show ?thesis
  proof cases
    case public
    from keeps_run [OF keeps_forward(1) this] show ?thesis by (simp add: runs_on_refl)
  next
    case login
    have "keeps Config (case e of Some err \<Rightarrow> unavailable | None \<Rightarrow> handleCallback E)" by (intro frame)
    from keeps_run [OF this login] have "Config s' = Config s1" .
    with runs_on_discovery [OF d] show ?thesis by simp
  next
    case err
    from keeps_run [OF keeps_pages(5) this] runs_on_discovery [OF d] show ?thesis by simp
  next
    case route
    from keeps_run [OF keeps_login(1) this] runs_on_discovery [OF d] show ?thesis by simp
  next
    case auth
    from keeps_run [OF keeps_authenticate this] runs_on_discovery [OF d] show ?thesis by simp
  qed
qed

lemma instance_serve_settings: "runs_on (Config s) (Config (snd (instance_serve E i s req rw)))"
proof -
  obtain out s' where r: "run_state (ServeHTTP (env_of E i)) (s\<lparr>Req := req, Rw := rw\<rparr>) = (out, s')"
    by (cases "run_state (ServeHTTP (env_of E i)) (s\<lparr>Req := req, Rw := rw\<rparr>)")
  from ServeHTTP_settings [OF r] r show ?thesis by (cases out) (simp_all add: instance_serve_def)
qed

text \<open>
  The states of one instance on its own: as \<open>New\<close> made it, then changed only by requests that it
  served itself and by the outside. So its document and its keys are what it fetched itself.
\<close>

inductive instance_reach :: "'w env \<Rightarrow> instance_fields \<Rightarrow> 'w toa \<Rightarrow> bool" for E i where
  made: "instance_reach E i (boot w r i)"
| served: "instance_reach E i s \<Longrightarrow> instance_reach E i (snd (instance_serve E i s req []))"
| changed: "instance_reach E i s \<Longrightarrow> instance_reach E i (s\<lparr>World := w\<rparr>)"

lemma instance_reach_settings: "instance_reach E i s \<Longrightarrow> runs_on (deref (Inst_Config i)) (Config s)"
proof (induction rule: instance_reach.induct)
  case (made w r)
  then show ?case by (simp add: boot_def runs_on_refl)
next
  case (served s req)
  with runs_on_trans instance_serve_settings show ?case by blast
qed simp

lemma server_reach_live:
  assumes "server_reach Y S E path hist c"
  shows "live Y (server_factory S) path hist (Routes c) \<and> (\<forall>i. instance_reach E i (Insts c i))"
  using assms
proof induction
  case (boots os m w r)
  then show ?case by (simp add: live.start instance_reach.made)
next
  case (reloads hist c os w r)
  have "live Y (server_factory S) path (os # hist) (doReload os Y (server_factory S os) path (Routes c))"
    by (rule live.reload) (use reloads.IH in simp)
  then show ?case
    using reloads.IH by (auto simp: doReload_def instance_reach.made split: option.splits sum.splits)
next
  case (serves hist c i req)
  then show ?case by (simp add: instance_reach.served)
next
  case (world hist c w)
  then show ?case by (simp add: instance_reach.changed)
qed

section \<open>Whom the server lets pass\<close>

text \<open>
  Who may pass the instance \<open>i\<close> in its state \<open>s\<close>, by the configuration it was made with: \<open>s\<close> is a
  state that this instance reaches on its own, with that configuration.
\<close>

definition client_passes :: "'w env \<Rightarrow> instance_fields \<Rightarrow> 'w toa \<Rightarrow> request \<Rightarrow> bool" where
  "client_passes E i s r \<longleftrightarrow>
     instance_reach E i s \<and> runs_on (deref (Inst_Config i)) (Config s)
     \<and> (let cfg = deref (Inst_Config i)
        in (case Inst_Bypass i of None \<Rightarrow> False | Some rule \<Rightarrow> rule r)
           \<or> UnauthenticatedBehavior cfg = ''Forward''
           \<or> (\<exists>sess c. admitted (env_of E i) (s\<lparr>Req := r, Rw := []\<rparr>) sess c)
           \<or> pathMatchesConfiguredRoute r (FrontChannelLogoutUri cfg))"

lemma may_pass_client:
  assumes "instance_reach E i s" "may_pass (env_of E i) s r"
  shows "client_passes E i s r"
proof -
  note on = instance_reach_settings [OF assms(1)]
  then have "UnauthenticatedBehavior (Config s) = UnauthenticatedBehavior (deref (Inst_Config i))"
    "FrontChannelLogoutUri (Config s) = FrontChannelLogoutUri (deref (Inst_Config i))" by (auto simp: runs_on_def)
  moreover have "bypassed (env_of E i) r = (case Inst_Bypass i of None \<Rightarrow> False | Some rule \<Rightarrow> rule r)"
    by (simp add: bypassed_def env_of_def)
  ultimately show ?thesis using assms on unfolding may_pass_def client_passes_def Let_def by simp
qed

lemma answer_passes:
  assumes "route_request E c r [] = Some rw" "success (rw_status rw)"
  shows "\<exists>i. lookupHost (Routes c) (Host r) = Some (Instance i) \<and> may_pass (env_of E i) (Insts c i) r"
proof -
  from assms obtain h where h: "lookupHost (Routes c) (Host r) = Some h" "handler_serve E c h r [] = Some rw"
    by (auto simp: route_request_def router_ServeHTTP_def success_def split: option.splits)
  then obtain i s' where i: "h = Instance i"
    and run: "run_state (ServeHTTP (env_of E i)) ((Insts c i)\<lparr>Req := r, Rw := []\<rparr>) = (Served, s')" "Rw s' = rw"
    by (auto simp: handler_serve_def instance_serve_def split: middleware.splits prod.splits outcome.splits)
  from run have "serve_recorded (env_of E i) (\<lambda>_. ([], [])) (Insts c i) r
      = Some \<lparr>StatusCode = int (rw_status rw), ResultHeader = [], RecBody = []\<rparr>"
    by (simp add: serve_recorded_def)
  from serve_recorded_verdict [OF this] assms(2) have "may_pass (env_of E i) (Insts c i) r"
    by (auto simp: success_def)
  with h(1) i show ?thesis by blast
qed

interpretation server_gate: verdict_handler "grpc_run E render c"
    "\<lambda>r. \<exists>i. lookupHost (Routes c) (Host r) = Some (Instance i) \<and> may_pass (env_of E i) (Insts c i) r"
  for E :: "'w env" and render c
proof unfold_locales
  fix r rec
  assume g: "grpc_run E render c r = Some rec" "StatusCode rec div 100 = 2"
  then obtain rw where rw: "route_request E c r [] = Some rw" "rec = record_answer render rw" by (auto simp: grpc_run_def)
  have "success (rw_status rw)" using g(2) rw(2) unfolding success_def record_answer_def by auto
  from answer_passes [OF rw(1) this]
  show "\<exists>i. lookupHost (Routes c) (Host r) = Some (Instance i) \<and> may_pass (env_of E i) (Insts c i) r" .
qed

text \<open>
  \<open>serves_owner\<close>: the host of the request belongs to a client of the latest file that could
  be loaded, and the instance that was made for this client lets the request pass in the state
  that the server holds for it.
\<close>

definition serves_owner ::
  "'n yaml_ops \<Rightarrow> sys \<Rightarrow> 'w env \<Rightarrow> string \<Rightarrow> os list \<Rightarrow> 'w server \<Rightarrow> request \<Rightarrow> bool" where
  "serves_owner Y S E path hist c r \<longleftrightarrow>
     (\<exists>later os earlier cs client i. hist = later @ os # earlier
        \<and> (\<forall>x \<in> set later. loads Y (server_factory S) path x = None)
        \<and> parseMultiConfigFile os Y path = Ok cs \<and> owns cs client (normalizeHost (Host r))
        \<and> made_for (server_factory S os) client (Instance i) \<and> client_passes E i (Insts c i) r)"

lemma passes_owner:
  assumes "server_reach Y S E path hist c"
    and "\<exists>i. lookupHost (Routes c) (Host r) = Some (Instance i) \<and> may_pass (env_of E i) (Insts c i) r"
  shows "serves_owner Y S E path hist c r"
proof -
  from server_reach_live [OF assms(1)] have l: "live Y (server_factory S) path hist (Routes c)" and ok: "\<And>i. instance_reach E i (Insts c i)" by simp_all
  from assms(2) obtain i where i: "lookupHost (Routes c) (Host r) = Some (Instance i)" "may_pass (env_of E i) (Insts c i) r" by blast
  from live_latest [OF l] obtain later os earlier where h: "hist = later @ os # earlier"
    "\<forall>x \<in> set later. loads Y (server_factory S) path x = None" and "loads Y (server_factory S) path os = Some (Routes c)" by blast
  from this(3) obtain cs where p: "parseMultiConfigFile os Y path = Ok cs"
    and b: "buildHostMap (server_factory S os) cs = Some (Ok (Routes c))" by (auto simp: loads_Some)
  from i(1) obtain client where "owns cs client (normalizeHost (Host r))" "made_for (server_factory S os) client (Instance i)"
    unfolding lookup_built [OF parsed_valid [OF p] b] routes_to_owner [OF parsed_valid [OF p] b] by blast
  moreover have "client_passes E i (Insts c i) r" by (rule may_pass_client [OF ok i(2)])
  ultimately show ?thesis unfolding serves_owner_def using h p by blast
qed

text \<open>
  C4. Whom the server lets pass, from the file to the answer. Whatever reloads have happened and
  whatever the instances have served before, a request that the server answers with a success,
  in the HTTP mode for the request the gateway described or in the gRPC mode for the one it
  rebuilt, has a host that belongs to a client of the latest configuration file that could be
  loaded, and it passes by the settings that \<open>New\<close> made of this client's configuration: its
  bypass rule matches, unauthenticated requests are forwarded, the session was validated and
  is authorized, or it is on the front-channel logout route. The session was validated in
  the state that this client's instance reached on its own, with its own configuration,
  discovery document and keys, whatever the other instances did.
\<close>

theorem server_admits:
  assumes "server_reach Y S E path hist c"
  shows "(\<forall>req rw. http_mode E G nets c req = Some rw \<and> success (rw_status rw) \<longrightarrow>
      (\<exists>r. (if peerIsTrusted (Gw_ParseIP G) (RemoteAddr req) nets then rewritten G req = Ok r else r = req)
         \<and> serves_owner Y S E path hist c r))
    \<and> (\<forall>cr resp. grpc_mode E parseURL render c cr = Ok resp \<and> RespStatus resp = OK \<longrightarrow>
      (\<exists>r. buildHTTPRequest parseURL cr = Ok r \<and> serves_owner Y S E path hist c r))"
proof (intro conjI allI impI)
  fix req rw
  assume a: "http_mode E G nets c req = Some rw \<and> success (rw_status rw)"
  then obtain r where "if peerIsTrusted (Gw_ParseIP G) (RemoteAddr req) nets then rewritten G req = Ok r else r = req"
    and "route_request E c r [] = Some rw"
    by (auto simp: http_mode_def forwardedRequest_def success_def split: if_splits sum.splits)
  with passes_owner [OF assms answer_passes] a
  show "\<exists>r. (if peerIsTrusted (Gw_ParseIP G) (RemoteAddr req) nets then rewritten G req = Ok r else r = req)
         \<and> serves_owner Y S E path hist c r" by blast
next
  fix cr resp
  assume "grpc_mode E parseURL render c cr = Ok resp \<and> RespStatus resp = OK"
  then have g: "Check parseURL (grpc_run E render c) cr = Some resp" "RespStatus resp = OK" 
    by (simp_all add: grpc_mode_def recoveryInterceptor_def split: option.splits)
  have "\<exists>r. buildHTTPRequest parseURL cr = Ok r
      \<and> (\<exists>i. lookupHost (Routes c) (Host r) = Some (Instance i) \<and> may_pass (env_of E i) (Insts c i) r)"
    by (rule server_gate.Check_admits [OF g])
  with passes_owner [OF assms] show "\<exists>r. buildHTTPRequest parseURL cr = Ok r \<and> serves_owner Y S E path hist c r" by blast
qed

text \<open>Two clients are loaded, and one is asked for the confirmation of a logout.\<close>

definition logout_request :: request where
  "logout_request = (bare_request ''/frontchannel-logout'')\<lparr>Host := ''a''\<rparr>"

lemma demo_reach:
  "\<exists>m i. server_reach demo_yaml demo_sys provider_env ''config.yaml'' [Os demo_sys] \<lparr>Routes = m, Insts = boot () logout_request\<rparr>
     \<and> lookupHost m ''a'' = Some (Instance i) \<and> demo_routes i (deref (Inst_Config i))"
proof -
  obtain i p where i: "New demo_sys (ptrs_of (demo_config CHR ''a'')) = Some (Ok (Instance i, p))"
    "Secret (Ptr_Config p) = replicate 32 CHR ''a''" "demo_routes i (Ptr_Config p)" using demo_New by blast
  obtain j q where j: "New demo_sys (ptrs_of (demo_config CHR ''b'')) = Some (Ok (Instance j, q))"
    "Secret (Ptr_Config q) = replicate 32 CHR ''b''" using demo_New by blast
  have n: "normalizeHost ''a'' = ''a''" "normalizeHost ''b'' = ''b''" by code_simp+
  have s: "replicate 32 CHR ''a'' \<noteq> replicate 32 CHR ''b''" by (simp add: numeral_eq_Suc)
  have f: "server_factory demo_sys (Os demo_sys) = new_factory demo_sys" by (simp add: server_factory_def)
  have "reloadFromFile (Os demo_sys) demo_yaml (server_factory demo_sys (Os demo_sys)) ''config.yaml''
      = Some (Ok [(''a'', Instance i), (''b'', Instance j)])"
    using s by (simp add: reloadFromFile_def demo_parsed buildHostMap_def f new_factory_def i j n)
  note r = server_reach.boots [where E = provider_env and w = "()" and r = logout_request, OF this]
  have "lookupHost [(''a'', Instance i), (''b'', Instance j)] ''a'' = Some (Instance i)" by (simp add: lookupHost_def n)
  moreover have "demo_routes i (deref (Inst_Config i))"
    using i(3) New_Ok(1) [OF i(1)] by (simp add: demo_routes_def deref_def)
  ultimately show ?thesis using r by blast
qed

lemma logout_answered:
  assumes "demo_routes i (deref (Inst_Config i))"
  shows "\<exists>rw. fst (instance_serve provider_env i (boot () logout_request i) logout_request []) = Some rw \<and> success (rw_status rw)"
proof -
  let ?E = "env_of provider_env i" and ?s = "boot () logout_request i"
  define s1 where "s1 = publish_discovery provider_doc ?s"
  have c: "Inst_Bypass i = None" "Path (Inst_CallbackURL i) = ''/oidc/callback''" "LoginUri (deref (Inst_Config i)) = []"
    "FrontChannelLogoutUri (deref (Inst_Config i)) = ''/frontchannel-logout''"
    "AuthorizationHeader (deref (Inst_Config i)) = Some []" "AuthorizationCookie (deref (Inst_Config i)) = Some []"
    using assms by (simp_all add: demo_routes_def)
  have s: "?s\<lparr>Req := logout_request, Rw := []\<rparr> = ?s" by (simp add: boot_def)
  have e: "JsonText ?E = JsonText provider_env" "UrlOps ?E = UrlOps provider_env" "Do ?E = Do provider_env"
    by (simp_all add: env_of_def)
  have g0: "GetOidcDiscoveryContext ?E u = GetOidcDiscoveryContext provider_env u" for u
    unfolding GetOidcDiscoveryContext_def send_def e ..
  have d: "run_state (EnsureOidcDiscovery ?E) ?s = (None, s1)"
    by (simp add: EnsureOidcDiscovery_def g0 provider_discovery s1_def) (simp add: boot_def)
  have s1: "Req s1 = logout_request" "Rw s1 = []" "LoginUri (Config s1) = []" "FrontChannelLogoutUri (Config s1) = ''/frontchannel-logout''"
    "AuthorizationHeader (Config s1) = Some []" "AuthorizationCookie (Config s1) = Some []"
    by (simp_all add: s1_def publish_discovery_def Let_def boot_def c)
  have ck: "Cookie logout_request n = None" "Header_Get (Header logout_request) n = []" for n
    by (simp_all add: logout_request_def Cookie_def Cookies_def readCookies_def bare_request_def Header_Get_def)
  have rc: "readChunkedCookie logout_request n = Err ErrNoCookie" for n
    by (simp add: readChunkedCookie_def getChunkedCookieCount_def ck)
  have g: "run_state (getSessionForRequest ?E) s1
      = ((None, [], False, Some (''unable to read session cookie: '' @ TrimPrefix ErrNoCookie ''http: '')), s1)"
    by (simp add: getSessionForRequest_def external_header_def external_cookie_def s1 cookie_session_def rc)
  have m: "\<not> IsHtmlRequest (MimeOps ?E) logout_request"
    by (simp add: IsHtmlRequest_def ck ParseAcceptHeader_def env_of_def provider_env_def dead_env_def plain_mime_def ParseAcceptType_def)
  have routes: "\<not> isCallbackRequest ?E cfg (Inst_CallbackURL i) logout_request"
    "pathMatchesConfiguredRoute logout_request ''/frontchannel-logout''" "\<not> pathMatchesConfiguredRoute r []" for cfg r
    by (simp_all add: isCallbackRequest_def pathMatchesConfiguredRoute_def pathMatchesRoute_def c logout_request_def bare_request_def
        TrimSuffix_def HasSuffix_def HasPrefix_def suffix_def)
  have b: "CallbackURL ?s = Inst_CallbackURL i" "Req ?s = logout_request" "LoginUri (Config ?s) = []" "BypassRule ?E = None"
    by (simp_all add: boot_def c env_of_def)
  show ?thesis
    unfolding instance_serve_def s
    by (simp add: ServeHTTP_def Let_def b routes d authenticate_def g serve_anonymous_def s1 writeSuccessfulLogout_def WriteError_def m success_def)
qed

theorem server_admits_witness:
  "\<exists>c rw. server_reach demo_yaml demo_sys provider_env ''config.yaml'' [Os demo_sys] c
     \<and> http_mode provider_env demo_gateway [] c logout_request = Some rw \<and> success (rw_status rw)
     \<and> serves_owner demo_yaml demo_sys provider_env ''config.yaml'' [Os demo_sys] c logout_request"
proof -
  obtain m i where r: "server_reach demo_yaml demo_sys provider_env ''config.yaml'' [Os demo_sys] \<lparr>Routes = m, Insts = boot () logout_request\<rparr>"
    and i: "lookupHost m ''a'' = Some (Instance i)" "demo_routes i (deref (Inst_Config i))" using demo_reach by blast
  let ?c = "\<lparr>Routes = m, Insts = boot () logout_request\<rparr>"
  have u: "\<not> peerIsTrusted f a []" for f a by (simp add: peerIsTrusted_def)
  have h: "Host logout_request = ''a''" by (simp add: logout_request_def)
  obtain rw where rw: "http_mode provider_env demo_gateway [] ?c logout_request = Some rw" "success (rw_status rw)"
    using logout_answered [OF i(2)]
    by (auto simp: http_mode_def forwardedRequest_def u route_request_def router_ServeHTTP_def handler_serve_def h i(1))
  with server_admits [OF r, where G = demo_gateway and nets = "[]"] u
  have "serves_owner demo_yaml demo_sys provider_env ''config.yaml'' [Os demo_sys] ?c logout_request" by auto
  with r rw show ?thesis by blast
qed

end
