(* ===== verification/Watch.thy ===== *)
theory Watch
  imports Gateway
begin

text \<open>
  \<open>cmd/extauth-server/watch.go\<close> and the start of the server in \<open>main.go\<close>: which changes on
  disk count, the timer that gathers them, and the reloads that follow.

  Time is in nanoseconds. The watcher's channel is the sequence of the events that the loop
  receives, with the times at which it receives them; a timer that is due fires before the
  event of the same instant.
\<close>

section \<open>Paths\<close>

text \<open>\<open>filepath.Clean\<close>, \<open>Dir\<close> and \<open>Base\<close> on Unix: the components on a stack, the last on top.\<close>

fun clean_components :: "bool \<Rightarrow> string list \<Rightarrow> string list \<Rightarrow> string list" where
  "clean_components rooted [] stack = rev stack"
| "clean_components rooted (c # cs) stack =
     (if c = [] \<or> c = ''.'' then clean_components rooted cs stack
      else if c = ''..''
      then (case stack of
              [] \<Rightarrow> clean_components rooted cs (if rooted then [] else [''..''])
            | d # rest \<Rightarrow> clean_components rooted cs (if d = ''..'' then ''..'' # stack else rest))
      else clean_components rooted cs (c # stack))"

definition Clean :: "string \<Rightarrow> string" where
  "Clean path =
     (let rooted = HasPrefix path ''/''; cs = clean_components rooted (SplitChar CHR ''/'' path) []
      in if rooted then ''/'' @ Join cs ''/'' else if cs = [] then ''.'' else Join cs ''/'')"

definition Dir :: "string \<Rightarrow> string" where
  "Dir path = Clean (case LastIndexChar path CHR ''/'' of None \<Rightarrow> [] | Some i \<Rightarrow> take (i + 1) path)"

definition Base :: "string \<Rightarrow> string" where
  "Base path =
     (if path = [] then ''.''
      else
        (let p = rev (dropWhile (\<lambda>c. c = CHR ''/'') (rev path));
             b = (case LastIndexChar p CHR ''/'' of None \<Rightarrow> p | Some i \<Rightarrow> drop (i + 1) p)
         in if b = [] then ''/'' else b))"

section \<open>Which changes count\<close>

definition watchEventRelevant :: "string \<Rightarrow> string \<Rightarrow> string \<Rightarrow> string \<Rightarrow> string list \<Rightarrow> bool" where
  "watchEventRelevant name0 configPath configDir configBase secretRoots =
     (let name = Clean name0; base = Base name
      in if name = configPath \<or> Dir name = configDir \<and> base = configBase then True
         else if Dir name = configDir \<and> base = ''..data'' then True
         else list_ex (\<lambda>root. name = root \<or> HasPrefix name (root @ ''/'')) secretRoots)"

definition parseSecretWatchDirs :: "string \<Rightarrow> string list" where
  "parseSecretWatchDirs v = filter (\<lambda>e. e \<noteq> []) (map TrimSpace (SplitChar CHR '','' v))"

definition Getenv :: "os \<Rightarrow> string \<Rightarrow> string" where
  "Getenv os k = (case LookupEnv os k of None \<Rightarrow> [] | Some v \<Rightarrow> v)"

definition configFilePath :: "os \<Rightarrow> string" where
  "configFilePath os = (let path = Getenv os ''CONFIG_FILE'' in if path = [] then ''config.yaml'' else path)"

section \<open>The loop\<close>

definition reloadDebounce :: int where
  "reloadDebounce = 300 * 1000000"

datatype fs_op = Create | Write | Remove | Rename | Chmod

text \<open>What the loop receives; \<open>EventsClosed\<close> stands for either channel of the watcher being closed.\<close>

datatype watch_event = FsEvent string "fs_op list" | WatchError string | CtxDone | EventsClosed

text \<open>Where the timer stands: the instant at which it fires, if it runs.\<close>

type_synonym timer = "int option"

definition due :: "int \<Rightarrow> timer \<Rightarrow> int list" where
  "due t timer = (case timer of None \<Rightarrow> [] | Some d \<Rightarrow> if d \<le> t then [d] else [])"

definition pending :: "timer \<Rightarrow> int list" where
  "pending timer = (case timer of None \<Rightarrow> [] | Some d \<Rightarrow> [d])"

text \<open>
  The instants at which \<open>reload\<close> is called. When the context is done the timer is stopped;
  when the watcher's channel is closed the loop ends and a running timer still fires.
\<close>

fun watch_loop :: "(string \<Rightarrow> bool) \<Rightarrow> timer \<Rightarrow> (int \<times> watch_event) list \<Rightarrow> int list" where
  "watch_loop relevant timer [] = pending timer"
| "watch_loop relevant timer ((t, ev) # evs) =
     (let fired = due t timer; timer' = (if fired = [] then timer else None)
      in fired @
         (case ev of
            CtxDone \<Rightarrow> []
          | EventsClosed \<Rightarrow> pending timer'
          | WatchError e \<Rightarrow> watch_loop relevant timer' evs
          | FsEvent name ops \<Rightarrow>
              if \<not> relevant name then watch_loop relevant timer' evs
              else if ops \<noteq> [] then watch_loop relevant (Some (t + reloadDebounce)) evs
              else watch_loop relevant timer' evs))"

definition watched_paths :: "string \<Rightarrow> string list \<Rightarrow> string list" where
  "watched_paths configPath secretDirs =
     filter (\<lambda>p. p \<noteq> []) ([Dir (Clean configPath), Clean configPath] @ map Clean secretDirs)"

definition config_relevant :: "string \<Rightarrow> string list \<Rightarrow> string \<Rightarrow> bool" where
  "config_relevant configPath secretDirs name =
     watchEventRelevant name (Clean configPath) (Dir (Clean configPath)) (Base (Clean configPath)) (map Clean secretDirs)"

definition watchConfig :: "string \<Rightarrow> string list \<Rightarrow> (int \<times> watch_event) list \<Rightarrow> int list" where
  "watchConfig configPath secretDirs evs = watch_loop (config_relevant configPath secretDirs) None evs"

datatype signal_event = CtxDoneSignal | Sighup

fun watchSIGHUP :: "(int \<times> signal_event) list \<Rightarrow> int list" where
  "watchSIGHUP [] = []"
| "watchSIGHUP ((t, CtxDoneSignal) # evs) = []"
| "watchSIGHUP ((t, Sighup) # evs) = t # watchSIGHUP evs"

section \<open>The start of the server\<close>

record 'h server =
  TrustedNets :: "IPNet list"
  ListenAddr :: string
  HostMap :: "(string \<times> 'h) list"
  SecretDirs :: "string list"
  GrpcAddr :: "string option"

definition main_start ::
  "os \<Rightarrow> (string \<Rightarrow> ip option) \<Rightarrow> (string \<Rightarrow> IPNet result) \<Rightarrow> 'n yaml_ops \<Rightarrow> (os \<Rightarrow> 'h factory) \<Rightarrow> 'h server result option" where
  "main_start os parseIP parseCIDR Y F =
     (case parseTrustedProxies parseIP parseCIDR (Getenv os ''TRUSTED_PROXIES'') of
        Inl e \<Rightarrow> Some (Err (''invalid TRUSTED_PROXIES: '' @ e))
      | Inr trustedProxies \<Rightarrow>
          (let addr = Getenv os ''LISTEN_ADDR''; grpc = Getenv os ''GRPC_LISTEN_ADDR''
           in case reloadFromFile os Y (F os) (configFilePath os) of
                None \<Rightarrow> None
              | Some (Inl e) \<Rightarrow> Some (Err (''config error: '' @ e))
              | Some (Inr m) \<Rightarrow>
                  Some (Ok \<lparr>TrustedNets = trustedProxies, ListenAddr = (if addr = [] then '':9002'' else addr), HostMap = m,
                    SecretDirs = parseSecretWatchDirs (Getenv os ''SECRET_WATCH_DIRS''),
                    GrpcAddr = (if grpc = [] then None else Some grpc)\<rparr>)))"

section \<open>Every change is followed by a reload\<close>

definition touches :: "(string \<Rightarrow> bool) \<Rightarrow> watch_event \<Rightarrow> bool" where
  "touches relevant ev \<longleftrightarrow> (case ev of FsEvent name ops \<Rightarrow> relevant name \<and> ops \<noteq> [] | _ \<Rightarrow> False)"

definition running :: "(int \<times> watch_event) list \<Rightarrow> bool" where
  "running evs \<longleftrightarrow> list_all (\<lambda>(t, ev). ev \<noteq> CtxDone \<and> ev \<noteq> EventsClosed) evs \<and> sorted (map fst evs)"

lemma debounce_pos: "0 < reloadDebounce"
  by (simp add: reloadDebounce_def)

lemma watch_loop_running:
  assumes "running ((t, ev) # evs)"
  shows "watch_loop relevant timer ((t, ev) # evs) = due t timer
      @ watch_loop relevant (if touches relevant ev then Some (t + reloadDebounce) else if due t timer = [] then timer else None) evs"
    "running evs"
  using assms by (auto simp: running_def touches_def Let_def split: watch_event.splits)

lemma fires_after:
  assumes "running evs" "\<forall>d. timer = Some d \<longrightarrow> b \<le> d" "\<forall>(t, _) \<in> set evs. b \<le> t"
  shows "\<forall>f \<in> set (watch_loop relevant timer evs). b \<le> f"
  using assms
proof (induction evs arbitrary: timer)
  case Nil
  then show ?case by (auto simp: pending_def split: option.splits)
next
  case (Cons e evs)
  obtain t ev where e: "e = (t, ev)" by (cases e)
  note w = watch_loop_running [OF Cons.prems(1) [unfolded e]]
  have "\<forall>f \<in> set (watch_loop relevant (if touches relevant ev then Some (t + reloadDebounce) else if due t timer = [] then timer else None) evs). b \<le> f"
    by (rule Cons.IH [OF w(2)]) (use Cons.prems debounce_pos e in auto)
  moreover have "\<forall>f \<in> set (due t timer). b \<le> f" using Cons.prems(2) by (auto simp: due_def split: option.splits)
  ultimately show ?case unfolding e w(1) by auto
qed

lemma sorted_fires: "running evs \<Longrightarrow> sorted (watch_loop relevant timer evs)"
proof (induction evs arbitrary: timer)
  case Nil
  then show ?case by (auto simp: pending_def split: option.splits)
next
  case (Cons e evs)
  obtain t ev where e: "e = (t, ev)" by (cases e)
  note w = watch_loop_running [OF Cons.prems [unfolded e]]
  let ?timer = "if touches relevant ev then Some (t + reloadDebounce) else if due t timer = [] then timer else None"
  show ?case
  proof (cases "due t timer")
    case Nil
    then show ?thesis unfolding e w(1) using Cons.IH [OF w(2)] by simp
  next
    case (Cons d ds)
    then have d: "due t timer = [d]" "d \<le> t" by (auto simp: due_def split: option.splits if_splits)
    have "\<forall>f \<in> set (watch_loop relevant ?timer evs). t \<le> f"
      by (rule fires_after [OF w(2)]) (use Cons.prems debounce_pos e d in \<open>auto simp: running_def\<close>)
    then show ?thesis unfolding e w(1) using Cons.IH [OF w(2)] d by fastforce
  qed
qed

lemma pending_fires:
  assumes "running evs" "\<forall>(t, _) \<in> set evs. d \<le> t + reloadDebounce"
  shows "\<exists>f \<in> set (watch_loop relevant (Some d) evs). d \<le> f"
  using assms
proof (induction evs arbitrary: d)
  case Nil
  then show ?case by (simp add: pending_def)
next
  case (Cons e evs)
  obtain t ev where e: "e = (t, ev)" by (cases e)
  note w = watch_loop_running [OF Cons.prems(1) [unfolded e]]
  consider (due) "d \<le> t" | (reset) "t < d" "touches relevant ev" | (keep) "t < d" "\<not> touches relevant ev" by linarith
  then show ?case
  proof cases
    case due
    then show ?thesis unfolding e w(1) by (simp add: due_def)
  next
    case reset
    have "\<forall>(t', _) \<in> set evs. t + reloadDebounce \<le> t' + reloadDebounce"
      using Cons.prems(1) e by (auto simp: running_def)
    from Cons.IH [OF w(2) this] obtain f where f: "f \<in> set (watch_loop relevant (Some (t + reloadDebounce)) evs)" "t + reloadDebounce \<le> f"
      by blast
    have "d \<le> t + reloadDebounce" using Cons.prems(2) e by simp
    with f(2) have "d \<le> f" by linarith
    with f(1) reset show ?thesis unfolding e w(1) by auto
  next
    case keep
    with Cons.IH [OF w(2)] Cons.prems(2) show ?thesis unfolding e w(1) by (simp add: due_def)
  qed
qed

lemma pending_exact:
  assumes "running evs" "\<forall>(t, e) \<in> set evs. touches relevant e \<longrightarrow> d \<le> t \<or> t + reloadDebounce = d"
  shows "d \<in> set (watch_loop relevant (Some d) evs)"
  using assms
proof (induction evs)
  case Nil
  then show ?case by (simp add: pending_def)
next
  case (Cons e evs)
  obtain t ev where e: "e = (t, ev)" by (cases e)
  note w = watch_loop_running [OF Cons.prems(1) [unfolded e]]
  show ?case
  proof (cases "d \<le> t")
    case True
    then show ?thesis unfolding e w(1) by (simp add: due_def)
  next
    case False
    with Cons.IH [OF w(2)] Cons.prems(2) show ?thesis unfolding e w(1) by (auto simp: due_def)
  qed
qed

lemma touched_fires:
  assumes "running evs" "(t, ev) \<in> set evs" "touches relevant ev"
  shows "\<exists>f \<in> set (watch_loop relevant timer evs). t + reloadDebounce \<le> f"
    "\<forall>(t', e) \<in> set evs. touches relevant e \<longrightarrow> \<not> (t < t' \<and> t' < t + reloadDebounce) \<Longrightarrow>
       t + reloadDebounce \<in> set (watch_loop relevant timer evs)"
  using assms
proof (induction evs arbitrary: timer)
  case (Cons x evs)
  obtain u e where x: "x = (u, e)" by (cases x)
  {
    case 1
    note w = watch_loop_running [OF 1(1) [unfolded x]]
    show ?case
    proof (cases "(t, ev) = x")
      case True
      have "\<forall>(t', _) \<in> set evs. t + reloadDebounce \<le> t' + reloadDebounce" using 1(1) True by (auto simp: running_def)
      from pending_fires [OF w(2) this, of relevant] True x 1(3) show ?thesis unfolding x w(1) by auto
    next
      case False
      with 1(2) have "(t, ev) \<in> set evs" by auto
      from Cons.IH(1) [OF w(2) this 1(3)] show ?thesis unfolding x w(1) by auto
    qed
  next
    case 2
    note w = watch_loop_running [OF 2(2) [unfolded x]]
    show ?case
    proof (cases "(t, ev) = x")
      case True
      have "\<forall>(t', e) \<in> set evs. touches relevant e \<longrightarrow> t + reloadDebounce \<le> t' \<or> t' + reloadDebounce = t + reloadDebounce"
        using 2(1,2) True by (fastforce simp: running_def)
      from pending_exact [OF w(2) this] True x 2(4) show ?thesis unfolding x w(1) by auto
    next
      case False
      with 2(3) have "(t, ev) \<in> set evs" by auto
      from Cons.IH(2) [OF _ w(2) this 2(4)] 2(1) show ?thesis unfolding x w(1) by auto
    qed
  }
qed simp_all

lemma fires_touched:
  assumes "running evs" "f \<in> set (watch_loop relevant timer evs)"
  shows "timer = Some f \<or> (\<exists>(t, e) \<in> set evs. touches relevant e \<and> f = t + reloadDebounce)"
  using assms
proof (induction evs arbitrary: timer)
  case Nil
  then show ?case by (auto simp: pending_def split: option.splits)
next
  case (Cons x evs)
  obtain u e where x: "x = (u, e)" by (cases x)
  note w = watch_loop_running [OF Cons.prems(1) [unfolded x]]
  from Cons.prems(2) consider "f \<in> set (due u timer)"
    | "f \<in> set (watch_loop relevant (if touches relevant e then Some (u + reloadDebounce) else if due u timer = [] then timer else None) evs)"
    unfolding x w(1) by auto
  then show ?case
  proof cases
    case 1
    then show ?thesis by (auto simp: due_def split: option.splits if_splits)
  next
    case 2
    from Cons.IH [OF w(2) this] x show ?thesis by (auto split: if_splits)
  qed
qed

text \<open>
  No change is lost and nothing is reloaded without one: as long as the watcher runs,
  every relevant change is followed by a reload at least 300 ms later, and exactly then if
  the following 300 ms bring no other; and every reload comes 300 ms after a relevant change.
\<close>

theorem watch_reloads:
  assumes "running evs" "(t, ev) \<in> set evs" "touches (config_relevant configPath secretDirs) ev"
  shows "(\<exists>f \<in> set (watchConfig configPath secretDirs evs). t + reloadDebounce \<le> f)
    \<and> ((\<forall>(t', e) \<in> set evs. touches (config_relevant configPath secretDirs) e \<longrightarrow> \<not> (t < t' \<and> t' < t + reloadDebounce)) \<longrightarrow>
         t + reloadDebounce \<in> set (watchConfig configPath secretDirs evs))
    \<and> (\<forall>f \<in> set (watchConfig configPath secretDirs evs).
         \<exists>(t', e) \<in> set evs. touches (config_relevant configPath secretDirs) e \<and> f = t' + reloadDebounce)"
  using touched_fires [OF assms] fires_touched [OF assms(1)] unfolding watchConfig_def by blast

lemma demo_relevant: "config_relevant ''config.yaml'' [] ''./config.yaml''"
  by code_simp

theorem watch_reloads_witness:
  "300000007 \<in> set (watchConfig ''config.yaml'' [] [(0, FsEvent ''other'' [Write]), (7, FsEvent ''./config.yaml'' [Write])])"
proof -
  let ?evs = "[(0, FsEvent ''other'' [Write]), (7, FsEvent ''./config.yaml'' [Write])]"
  have r: "running ?evs" by (simp add: running_def)
  have i: "(7, FsEvent ''./config.yaml'' [Write]) \<in> set ?evs" by simp
  have "\<not> config_relevant ''config.yaml'' [] ''other''" by code_simp
  with watch_reloads [OF r i, of "''config.yaml''" "[]"] demo_relevant show ?thesis
    by (simp add: touches_def reloadDebounce_def)
qed

section \<open>The server follows its files\<close>

definition reload_at ::
  "(int \<Rightarrow> os) \<Rightarrow> 'n yaml_ops \<Rightarrow> (os \<Rightarrow> 'h factory) \<Rightarrow> string \<Rightarrow> int list \<Rightarrow> (string \<times> 'h) list \<Rightarrow> (string \<times> 'h) list" where
  "reload_at files Y F path fires m = fold (\<lambda>f. doReload (files f) Y (F (files f)) path) fires m"

lemma reload_at_latest:
  assumes "sorted fires" "f \<in> set fires" "b \<le> f" "\<forall>u \<ge> b. files u = os" "loads Y F path os = Some m'"
  shows "reload_at files Y F path fires m = m'"
  using assms(1,2)
proof (induction fires arbitrary: m)
  case (Cons g gs)
  have d: "doReload (files u) Y (F (files u)) path x = m'" if "b \<le> u" for u x
    using assms(4,5) that by (simp add: doReload_loads)
  have stay: "fold (\<lambda>f. doReload (files f) Y (F (files f)) path) hs m' = m'" if "\<forall>u \<in> set hs. b \<le> u" for hs
    using that by (induction hs) (simp_all add: d)
  show ?case
  proof (cases "f \<in> set gs")
    case True
    with Cons show ?thesis by (simp add: reload_at_def)
  next
    case False
    with Cons.prems have "g = f" "\<forall>u \<in> set gs. b \<le> u" using assms(3) by auto
    then show ?thesis using d [of f m] assms(3) by (simp add: reload_at_def stay)
  qed
qed simp

text \<open>
  C17. The server converges to its configuration: if the last change to the files is reported
  while the watcher runs, and the configuration it leaves can be loaded, then in the end the
  map of that configuration is served, whatever was served before and however many changes
  came in a burst.
\<close>

theorem watch_converges:
  assumes "running evs" "(t, ev) \<in> set evs" "touches (config_relevant path secretDirs) ev"
    and "\<forall>u \<ge> t. files u = os" "reloadFromFile os Y (F os) path = Some (Ok m')"
  shows "reload_at files Y F path (watchConfig path secretDirs evs) m = m'"
proof -
  obtain f where f: "f \<in> set (watchConfig path secretDirs evs)" "t \<le> f"
    using touched_fires(1) [OF assms(1-3)] debounce_pos unfolding watchConfig_def by force
  have "sorted (watchConfig path secretDirs evs)" unfolding watchConfig_def by (rule sorted_fires [OF assms(1)])
  moreover have "loads Y F path os = Some m'" using assms(5) by (simp add: loads_def)
  ultimately show ?thesis using f assms(4) by (intro reload_at_latest)
qed

theorem watch_converges_witness:
  "\<exists>m'. reload_at (\<lambda>_. Os demo_sys) demo_yaml (server_factory demo_sys) ''config.yaml''
      (watchConfig ''config.yaml'' [] [(7, FsEvent ''./config.yaml'' [Create, Write])]) [] = m' \<and> lookupHost m' ''a'' \<noteq> None"
proof -
  obtain i j where "live demo_yaml (server_factory demo_sys) ''config.yaml'' [Os demo_sys] [(''a'', Instance i), (''b'', Instance j)]"
    using demo_live by blast
  then have l: "reloadFromFile (Os demo_sys) demo_yaml (server_factory demo_sys (Os demo_sys)) ''config.yaml''
      = Some (Ok [(''a'', Instance i), (''b'', Instance j)])"
    by (simp add: live_single)
  have n: "normalizeHost ''a'' = ''a''" by code_simp
  let ?evs = "[(7 :: int, FsEvent ''./config.yaml'' [Create, Write])]"
  have r: "running ?evs" by (simp add: running_def)
  have i: "(7 :: int, FsEvent ''./config.yaml'' [Create, Write]) \<in> set ?evs" by simp
  have "touches (config_relevant ''config.yaml'' []) (FsEvent ''./config.yaml'' [Create, Write])"
    by (simp add: touches_def demo_relevant)
  from watch_converges [where F = "server_factory demo_sys" and files = "\<lambda>_. Os demo_sys" and m = "[]", OF r i this _ l] show ?thesis by (simp add: lookupHost_def n)
qed

section \<open>A directory that is not watched\<close>

definition component :: "string \<Rightarrow> bool" where
  "component c \<longleftrightarrow> c \<noteq> [] \<and> c \<noteq> ''.'' \<and> CHR ''/'' \<notin> set c"

lemma clean_components_parts:
  "list_all component stack \<Longrightarrow> list_all (\<lambda>c. CHR ''/'' \<notin> set c) cs \<Longrightarrow> list_all component (clean_components rooted cs stack)"
proof (induction rooted cs stack rule: clean_components.induct)
  case (2 rooted c cs stack)
  have dd: "component ''..''" by (simp add: component_def)
  consider (skip) "c = [] \<or> c = ''.''" | (up) "c = ''..''" | (push) "component c" "c \<noteq> ''..''"
    using "2.prems"(2) by (auto simp: component_def)
  then show ?case
  proof cases
    case skip
    with 2 show ?thesis by auto
  next
    case up
    with 2 dd show ?thesis by (cases stack) auto
  next
    case push
    then have "c \<noteq> []" "c \<noteq> ''.''" by (auto simp: component_def)
    with push 2 show ?thesis by simp
  qed
qed (simp add: list_all_rev)

lemma Clean_no_dot: "\<not> HasPrefix (Clean name) ''./''"
proof -
  define cs where "cs = clean_components (HasPrefix name ''/'') (SplitChar CHR ''/'' name) []"
  have parts: "list_all component cs"
    unfolding cs_def by (rule clean_components_parts) (auto simp: list_all_iff dest: SplitChar_pieces)
  have "\<not> HasPrefix (Join cs ''/'') ''./''"
  proof (cases cs)
    case (Cons c ds)
    with parts have c: "c \<noteq> []" "c \<noteq> ''.''" "CHR ''/'' \<notin> set c" by (auto simp: component_def)
    then show ?thesis unfolding Cons by (cases c; cases "tl c"; cases ds) (auto simp: HasPrefix_def)
  qed (simp add: HasPrefix_def)
  moreover have "Clean name = (if HasPrefix name ''/'' then ''/'' @ Join cs ''/'' else if cs = [] then ''.'' else Join cs ''/'')"
    by (simp only: Clean_def Let_def cs_def)
  ultimately show ?thesis by (simp add: HasPrefix_def)
qed

text \<open>
  The current directory cannot be watched for secrets: with \<open>SECRET_WATCH_DIRS=.\<close> a change
  of a file in it is not relevant, unless the file is the configuration, because event names
  are cleaned and a cleaned name does not start with \<open>./\<close>.
\<close>

theorem current_dir_unwatched:
  "config_relevant configPath [''.''] name \<longleftrightarrow>
     config_relevant configPath [] name \<or> Clean name = ''.''"
proof -
  have "Clean ''.'' = ''.''" by code_simp
  then show ?thesis
    using Clean_no_dot [of name] by (auto simp: config_relevant_def watchEventRelevant_def Let_def)
qed

end
