(* ===== verification/HeaderFuncs.thy ===== *)
theory HeaderFuncs
  imports Json Http
begin

text \<open>
  The functions that header templates may call (\<open>headerTemplateFuncs\<close> in \<open>src/main.go\<close>):
  \<open>withPrefix\<close>, \<open>withSuffix\<close> and \<open>mapToJsonArray\<close> with \<open>template.JSEscape\<close>. A claim is a JSON
  value; \<open>fmt.Sprint\<close> of a value is a parameter, and so is what \<open>JSEscape\<close> writes for a rune
  that is not ASCII, with the number of bytes that the rune takes.
\<close>

section \<open>Definitions\<close>

datatype tpl_value = TplList "string list" | TplText string

text \<open>\<open>fmt.Sprint\<close> of the reflection of a nil value.\<close>

definition sprint_value :: "(json \<Rightarrow> string) \<Rightarrow> json \<Rightarrow> string" where
  "sprint_value sprint v = (if v = JNull then ''<invalid reflect.Value>'' else sprint v)"

definition withSuffixPrefix :: "(json \<Rightarrow> string) \<Rightarrow> string \<Rightarrow> json \<Rightarrow> (string \<Rightarrow> string \<Rightarrow> string) \<Rightarrow> tpl_value" where
  "withSuffixPrefix sprint suffixPrefix values format =
     (case values of
        JArr xs \<Rightarrow> TplList (map (\<lambda>x. format (sprint x) suffixPrefix) xs)
      | v \<Rightarrow> TplText (format (sprint_value sprint v) suffixPrefix))"

definition withPrefix :: "(json \<Rightarrow> string) \<Rightarrow> string \<Rightarrow> json \<Rightarrow> tpl_value" where
  "withPrefix sprint p values = withSuffixPrefix sprint p values (\<lambda>x y. y @ x)"

definition withSuffix :: "(json \<Rightarrow> string) \<Rightarrow> string \<Rightarrow> json \<Rightarrow> tpl_value" where
  "withSuffix sprint p values = withSuffixPrefix sprint p values (\<lambda>x y. x @ y)"

definition js_escape_char :: "char \<Rightarrow> string" where
  "js_escape_char c =
     (let n = (of_char c :: nat)
      in if c = CHR 0x5C then [CHR 0x5C, CHR 0x5C]
         else if c = CHR 0x27 then [CHR 0x5C, CHR 0x27]
         else if c = CHR 0x22 then [CHR 0x5C, CHR 0x22]
         else if c \<in> {CHR ''<'', CHR ''>'', CHR ''&'', CHR ''=''} \<or> n < 32
         then CHR 0x5C # ''u00'' @ [hex_digit (n div 16), hex_digit (n mod 16)]
         else [c])"

fun JSEscape :: "(string \<Rightarrow> string \<times> nat) \<Rightarrow> string \<Rightarrow> string" where
  "JSEscape rune [] = []"
| "JSEscape rune (c # s) =
     (if (of_char c :: nat) < 128 then js_escape_char c @ JSEscape rune s
      else case rune (c # s) of (out, len) \<Rightarrow> out @ JSEscape rune (drop (len - 1) s))"

definition quoted :: "(string \<Rightarrow> string \<times> nat) \<Rightarrow> string \<Rightarrow> string" where
  "quoted rune s = [CHR 0x22] @ JSEscape rune s @ [CHR 0x22]"

definition mapToJsonArray :: "(json \<Rightarrow> string) \<Rightarrow> (string \<Rightarrow> string \<times> nat) \<Rightarrow> json \<Rightarrow> string" where
  "mapToJsonArray sprint rune values =
     ''['' @ (case values of
                JArr xs \<Rightarrow> Join (map (\<lambda>x. quoted rune (sprint x)) xs) '',''
              | v \<Rightarrow> quoted rune (sprint_value sprint v)) @ '']''"

section \<open>Reading the array back\<close>

text \<open>
  The body of a JSON string (RFC 8259) up to its closing quote, and the rest of the text. Of
  the numeric escapes the ones below 256 are read.
\<close>

definition simple_escape :: "char \<Rightarrow> char option" where
  "simple_escape c = map_of [(CHR 0x22, CHR 0x22), (CHR 0x5C, CHR 0x5C), (CHR ''/'', CHR ''/''), (CHR ''b'', CHR 0x08),
     (CHR ''f'', CHR 0x0C), (CHR ''n'', CHR 0x0A), (CHR ''r'', CHR 0x0D), (CHR ''t'', CHR 0x09)] c"

fun json_body :: "string \<Rightarrow> (string \<times> string) option" where
  "json_body [] = None"
| "json_body (c # s) =
     (if c = CHR 0x22 then Some ([], s)
      else if (of_char c :: nat) < 32 then None
      else if c \<noteq> CHR 0x5C then map_option (apfst ((#) c)) (json_body s)
      else case s of
             [] \<Rightarrow> None
           | d # r \<Rightarrow>
               (case simple_escape d of
                  Some x \<Rightarrow> map_option (apfst ((#) x)) (json_body r)
                | None \<Rightarrow>
                    if d \<noteq> CHR ''u'' then None
                    else case r of
                           a # b # x # y # r' \<Rightarrow>
                             if a = CHR ''0'' \<and> b = CHR ''0''
                             then (case (hex_val x, hex_val y) of
                                     (Some i, Some j) \<Rightarrow> map_option (apfst ((#) (char_of (16 * i + j)))) (json_body r')
                                   | _ \<Rightarrow> None)
                             else None
                         | _ \<Rightarrow> None))"

fun json_strings :: "string \<Rightarrow> string list option" where
  "json_strings s =
     (case s of
        [] \<Rightarrow> None
      | q # r \<Rightarrow>
          if q \<noteq> CHR 0x22 then None
          else case json_body r of
                 None \<Rightarrow> None
               | Some (x, rest) \<Rightarrow>
                   if rest = '']'' then Some [x]
                   else case rest of
                          [] \<Rightarrow> None
                        | c # rest' \<Rightarrow> if c = CHR '','' \<and> length rest' < length s then map_option ((#) x) (json_strings rest') else None)"

text \<open>An array of strings, as \<open>json.Unmarshal\<close> reads it into a string slice.\<close>

definition read_strings :: "string \<Rightarrow> string list option" where
  "read_strings s = (if s = ''[]'' then Some [] else if HasPrefix s ''['' then json_strings (tl s) else None)"

lemma json_body_escaped:
  assumes "(of_char c :: nat) < 128"
  shows "json_body (js_escape_char c @ s) = (if c = CHR 0x27 then None else map_option (apfst ((#) c)) (json_body s))"
proof -
  let ?n = "of_char c :: nat"
  have h: "hex_val (hex_digit (?n div 16)) = Some (?n div 16)" "hex_val (hex_digit (?n mod 16)) = Some (?n mod 16)"
    by (simp_all add: hex_val_digit of_char_div_16)
  have c: "char_of (16 * (?n div 16) + ?n mod 16) = c" by (simp only: mult_div_mod_eq char_of_char)
  have u: "simple_escape CHR ''u'' = None" "simple_escape CHR 0x27 = None" "simple_escape CHR 0x5C = Some CHR 0x5C"
    "simple_escape CHR 0x22 = Some CHR 0x22" by (simp_all add: simple_escape_def)
  show ?thesis unfolding js_escape_char_def Let_def by (auto simp: u h c)
qed

lemma json_body_JSEscape:
  "\<forall>c \<in> set s. (of_char c :: nat) < 128 \<Longrightarrow>
     json_body (JSEscape rune s @ CHR 0x22 # r) = (if CHR 0x27 \<in> set s then None else Some (s, r))"
  by (induction s) (auto simp: json_body_escaped)

lemma json_strings_quoted:
  assumes "ss \<noteq> []" "\<forall>s \<in> set ss. \<forall>c \<in> set s. (of_char c :: nat) < 128"
  shows "json_strings (Join (map (quoted rune) ss) '','' @ '']'') = (if \<exists>s \<in> set ss. CHR 0x27 \<in> set s then None else Some ss)"
  using assms
proof (induction ss)
  case (Cons s ss)
  have b: "json_body (JSEscape rune s @ CHR 0x22 # r) = (if CHR 0x27 \<in> set s then None else Some (s, r))" for r
    using json_body_JSEscape Cons.prems(2) by simp
  show ?case
  proof (cases ss)
    case Nil
    have j: "Join (map (quoted rune) (s # ss)) '','' @ '']'' = CHR 0x22 # JSEscape rune s @ CHR 0x22 # '']''"
      by (simp add: quoted_def Nil)
    show ?thesis unfolding j using b [of "'']''"] Nil by (subst json_strings.simps) (auto simp del: json_strings.simps)
  next
    case (Cons s' ss')
    let ?rest = "Join (map (quoted rune) ss) '','' @ '']''"
    have j: "Join (map (quoted rune) (s # ss)) '','' @ '']'' = CHR 0x22 # JSEscape rune s @ CHR 0x22 # CHR '','' # ?rest"
      by (simp add: quoted_def Cons)
    have ih: "json_strings ?rest = (if \<exists>s \<in> set ss. CHR 0x27 \<in> set s then None else Some ss)"
      using Cons.IH Cons Cons.prems by simp
    show ?thesis unfolding j using ih b [of "CHR '','' # ?rest"] by (subst json_strings.simps) (auto simp del: json_strings.simps)
  qed
qed simp

text \<open>
  \<open>mapToJsonArray\<close> writes a list of claims so that it reads back as the same list, unless a
  value contains an apostrophe: \<open>JSEscape\<close> writes it as a backslash and an apostrophe, which
  JSON does not know, and the whole array is then unreadable.
\<close>

theorem mapToJsonArray_reads_back:
  assumes "\<forall>x \<in> set xs. \<forall>c \<in> set (sprint x). (of_char c :: nat) < 128"
  shows "read_strings (mapToJsonArray sprint rune (JArr xs)) =
    (if \<exists>x \<in> set xs. CHR 0x27 \<in> set (sprint x) then None else Some (map sprint xs))"
proof (cases "xs = []")
  case True
  then show ?thesis by (simp add: mapToJsonArray_def read_strings_def)
next
  case False
  let ?t = "Join (map (quoted rune) (map sprint xs)) '','' @ '']''"
  have m: "mapToJsonArray sprint rune (JArr xs) = CHR ''['' # ?t" by (simp add: mapToJsonArray_def comp_def)
  have "?t \<noteq> '']''" using False by (cases xs; cases "tl xs") (auto simp: quoted_def)
  then have "read_strings (CHR ''['' # ?t) = json_strings ?t" by (simp add: read_strings_def HasPrefix_def)
  with json_strings_quoted [of "map sprint xs" rune] False assms show ?thesis unfolding m by (auto simp del: json_strings.simps)
qed

definition sprint_string :: "json \<Rightarrow> string" where
  "sprint_string j = (case j of JStr s \<Rightarrow> s | _ \<Rightarrow> [])"

theorem mapToJsonArray_reads_back_witness:
  "read_strings (mapToJsonArray sprint_string (\<lambda>s. ([], 1)) (JArr [JStr ''dev'', JStr ''ops''])) = Some [''dev'', ''ops'']
   \<and> read_strings (mapToJsonArray sprint_string (\<lambda>s. ([], 1)) (JArr [JStr ''dev'', JStr [CHR ''O'', CHR 0x27, CHR ''B'']])) = None"
  using mapToJsonArray_reads_back [of "[JStr ''dev'', JStr ''ops'']" sprint_string]
    mapToJsonArray_reads_back [of "[JStr ''dev'', JStr [CHR ''O'', CHR 0x27, CHR ''B'']]" sprint_string]
  by (simp add: sprint_string_def del: json_strings.simps)

end
