(* ===== verification/Logging.thy ===== *)
theory Logging
  imports Prelude
begin

text \<open>
  \<open>src/logging\<close>: which messages are written, and as what. A level that the table does not
  have counts as 0, the zero value of a Go map. The time and the formatted message are
  arguments.
\<close>

definition LevelDebug :: string where
  "LevelDebug = ''DEBUG''"

definition LevelInfo :: string where
  "LevelInfo = ''INFO''"

definition LevelWarn :: string where
  "LevelWarn = ''WARN''"

definition LevelError :: string where
  "LevelError = ''ERROR''"

definition LogLevels :: "string \<Rightarrow> nat" where
  "LogLevels level =
     (case map_of [(LevelError, 1), (LevelWarn, 2), (LevelInfo, 3), (LevelDebug, 4)] level of None \<Rightarrow> 0 | Some n \<Rightarrow> n)"

lemmas level_defs = LevelDebug_def LevelInfo_def LevelWarn_def LevelError_def

definition shouldLog :: "string \<Rightarrow> string \<Rightarrow> bool" where
  "shouldLog minLevel level \<longleftrightarrow> LogLevels (ToUpper level) \<le> LogLevels (ToUpper minLevel)"

definition Log :: "string \<Rightarrow> string \<Rightarrow> string \<Rightarrow> string \<Rightarrow> string list" where
  "Log minLevel now level msg =
     (if \<not> shouldLog minLevel level then []
      else [now @ '' ['' @ level @ '']'' @ '' [traefik-oidc-auth] '' @ msg @ [CHR 0x0A]])"

text \<open>
  The four levels form a chain: with the minimum level at one of them, exactly the messages of
  this level and the more severe ones are written. A minimum level that is none of the four,
  such as a misspelt one, which \<open>New\<close> does not reject, silences all four levels, errors
  included.
\<close>

theorem shouldLog_chain:
  "filter (shouldLog ''error'') [LevelError, LevelWarn, LevelInfo, LevelDebug] = [LevelError]
   \<and> filter (shouldLog ''Warn'') [LevelError, LevelWarn, LevelInfo, LevelDebug] = [LevelError, LevelWarn]
   \<and> filter (shouldLog ''INFO'') [LevelError, LevelWarn, LevelInfo, LevelDebug] = [LevelError, LevelWarn, LevelInfo]
   \<and> filter (shouldLog ''debug'') [LevelError, LevelWarn, LevelInfo, LevelDebug] = [LevelError, LevelWarn, LevelInfo, LevelDebug]"
  by code_simp

theorem unknown_level_silent:
  assumes "ToUpper minLevel \<notin> {LevelError, LevelWarn, LevelInfo, LevelDebug}"
    and "level \<in> {LevelError, LevelWarn, LevelInfo, LevelDebug}"
  shows "Log minLevel now level msg = []"
proof -
  have "LogLevels (ToUpper minLevel) = 0" using assms(1) by (simp add: LogLevels_def)
  moreover have "0 < LogLevels (ToUpper l)" if "l \<in> {LevelError, LevelWarn, LevelInfo, LevelDebug}" for l
    using that
  proof -
    have "list_all (\<lambda>l. 0 < LogLevels (ToUpper l)) [LevelError, LevelWarn, LevelInfo, LevelDebug]" by code_simp
    with that show ?thesis by auto
  qed
  ultimately show ?thesis using assms(2) by (simp add: Log_def shouldLog_def)
qed

end
