(* ===== verification/Spec2Isabelle.thy ===== *)
theory Spec2Isabelle
  imports Server Watch HeaderFuncs Logging
begin

text \<open>
  A verification library for the OIDC authentication middleware of this repository: a Traefik
  plugin (\<open>src/\<close>) that logs users in at an OpenID Connect provider, keeps their session in
  sealed cookies, and decides for each request whether it may reach the upstream. The
  external authorization server (\<open>cmd/extauth-server\<close>) runs the same middleware.

  \<^bold>\<open>Parts of the program and theories.\<close> Each theory follows one part of the source; its
  definitions carry the names of the Go functions.

  \<^item> \<open>Prelude\<close>: results (\<open>error + 'a\<close>), Go's \<open>strings\<close> and \<open>strconv\<close> functions on byte
    strings, 64-bit integers (\<open>int64\<close>, \<open>wrap64\<close>), association lists.
  \<^item> \<open>Http\<close>: what the code uses of \<open>net/http\<close> and \<open>net/url\<close>: requests, canonical headers,
    cookies and their parsing, query strings, and the response writer as a list of events.
  \<^item> \<open>PredicateLang\<close> (\<open>predicate/\<close>) and \<open>Rules\<close> (\<open>rules/\<close>): the rule language of the bypass
    rule, its parser, the rule trees and their evaluation on a request.
  \<^item> \<open>RedirectUri\<close>, \<open>Crypto\<close>, \<open>Utils\<close> (\<open>utils/utils.go\<close>): redirect validation,
    purpose-bound encryption and encodings, the other helpers.
  \<^item> \<open>Json\<close>: JSON values and Go's decoding into structs. \<open>OidcState\<close> (\<open>oidc/state.go\<close>): the
    sealed login state. \<open>SessionStore\<close> (\<open>session/\<close>): the session record and its ticket.
  \<^item> \<open>ConfigTypes\<close> (\<open>config/config.go\<close>, \<open>errorPages/config.go\<close>, part of \<open>config.go\<close>).
  \<^item> \<open>CookieJar\<close> (\<open>cookie.go\<close>): chunked session cookies, login CSRF cookies, expiry of older
    cookies; a browser's cookie jar is the specification they are measured against.
  \<^item> \<open>ClaimRules\<close> (\<open>authorization.go\<close>), \<open>Jwt\<close> (what the vendored JWT library checks, as far as
    its result matters), \<open>JwksCache\<close> (\<open>oidc/jwks.go\<close>).
  \<^item> \<open>Effects\<close>: the struct \<open>TraefikOidcAuth\<close>, the outside world, the state monad and the
    logic used on it. \<open>Forwarded\<close>: proxies, absolute URLs, routes. \<open>Oidc\<close> (\<open>oidc.go\<close>): the
    provider client. \<open>SessionFlow\<close> (\<open>session.go\<close>): finding, validating and renewing a session.
  \<^item> \<open>Upstream\<close>, \<open>Login\<close>, \<open>Middleware\<close> (\<open>main.go\<close>, \<open>errorPages/errorPage.go\<close>): the cleaned
    upstream request and its headers, error pages and the start of a login, and the handlers
    \<open>ServeHTTP\<close>, \<open>handleCallback\<close>, \<open>handleLogout\<close>, \<open>handleFrontchannelLogout\<close>. \<open>Dispatch\<close>
    and \<open>Callback\<close> hold the theorems on these handlers, \<open>HeaderFuncs\<close> the functions that header
    templates may call.
  \<^item> \<open>Instance\<close> (\<open>New\<close> of \<open>config.go\<close>): from a decoded configuration to a checked and completed
    one and the instance that runs on it.
  \<^item> \<open>Tenants\<close> (\<open>cmd/extauth-server\<close>: \<open>config_multi.go\<close>, \<open>router.go\<close>, \<open>reload.go\<close>, \<open>doReload\<close>): the
    clients of the external authorization server, the routing of hosts to them, and the step
    relation \<open>live\<close> of a server that is being reloaded. \<open>Watch\<close> (\<open>watch.go\<close>, the start of
    \<open>main.go\<close>): which changes on disk count and the timer that turns them into reloads.
  \<^item> \<open>Gateway\<close> (\<open>main.go\<close>, \<open>grpc.go\<close>): how the server is asked, in HTTP and in gRPC mode,
    \<open>ExtAuthz\<close>: the middleware behind these protocols, and \<open>Server\<close>: the whole server as \<open>main\<close>
    puts it together, with the step relation \<open>server_reach\<close> of instances that serve requests
    between reloads, and \<open>instance_reach\<close>, the states that one instance reaches on its own.
  \<^item> \<open>Concurrency\<close>: the locks of \<open>EnsureOidcDiscovery\<close> and \<open>EnsureLoadedContext\<close> as machines of
    threads (\<open>advance\<close>, \<open>reload_advance\<close>), one step per access to the shared struct.
  \<^item> \<open>Logging\<close> (\<open>logging/\<close>): the level table and the line that is written.

  \<^bold>\<open>State and effects.\<close> A handler is a computation \<open>('w, 'a) m\<close> over the record \<open>'w toa\<close>: the
  mutable fields of \<open>TraefikOidcAuth\<close>, the request, the events written so far, and a world
  of any type \<open>'w\<close>. The parameter \<open>'w env\<close> says how the world answers: clock, random source,
  outgoing HTTP, and the libraries whose code is not part of the repository (AES-GCM, JSON
  text, time text, URL parsing, media types, JSONPath, templates, JWT signatures). Theorems
  hold for every environment; where one needs a law (\<open>aead_correct\<close>, \<open>aead_binds\<close>, \<open>json_law\<close>,
  \<open>time_law\<close>, \<open>rand_law\<close>), the law is a named hypothesis, and a witness instantiates it.

  \<^bold>\<open>Groups of lemmas.\<close> \<open>Effects\<close> has four small calculi, used by all handlers: \<open>keeps\<close> (a
  part of the state is unchanged), \<open>appends\<close> (only events of a kind are written), \<open>commits_by\<close>
  (how often the response is committed) and \<open>adds\<close> (what is written in the context of a
  configuration and a request). \<open>reaches\<close> in \<open>Oidc\<close> is the step relation of the calls to the
  provider: from one state to another by answers of the world, readings of the clock and steps
  of the key cache, with the configuration, the request and the writer as they were. \<open>moves\<close>
  (and \<open>inner\<close>, its weaker form) says that a computation runs along it. A theorem that speaks of
  a run of the validation between two states of a request, or of a \<open>reading\<close> of the clock there,
  names such states: the configuration and the keys in them are the request's own. \<open>counts\<close> in
  \<open>Middleware\<close> relates results to responses. The
  locale \<open>codec\<close> in \<open>Crypto\<close> is what sealing asks of an encoding, and \<open>tenant_factory\<close> in
  \<open>Tenants\<close> what the loader asks of the function that makes handlers, interpreted on \<open>New\<close>;
  \<open>verdict_handler\<close> in \<open>Gateway\<close> is what both protocols ask of the handler behind them,
  interpreted on \<open>ServeHTTP\<close> and on the router of the whole server. The locales \<open>threads\<close> and
  \<open>mutex\<close> in \<open>Concurrency\<close> are what the two lock protocols have in common: bounded runs, and
  a critical section that belongs to the owner of the lock.

  The theorems show: what a sealed value can and cannot be opened as; that a session is served
  only after a positive validation and that only authorized or explicitly allowed requests
  are forwarded; what the callback checks before it sets a session; that each request is
  answered exactly once, and the one input on which the handler panics; what a redirect
  target can be; that rules mean what they say; and the bounds on cookies, trackers and
  session lifetimes. For the external authorization server they show that a host is served by
  the client that owns it, that clients cannot use each other's cookies, that no file makes a
  load panic, that a failed reload keeps the map and the last change is picked up, and which
  requests the gateway is told to admit, from the file to the answer. For concurrent requests
  they show that discovery publishes a document once and never half, cannot deadlock, and that
  concurrent cache misses make one request for the keys. Some of them state defects: a logout route that is
  open (\<open>logout_route_open\<close>), a client's headers that the gRPC mode cannot remove
  (\<open>grpc_keeps_client_headers\<close>), a scheme that it loses, and issuers that are not checked
  (\<open>empty_issuer_unchecked\<close>).

  \<^bold>\<open>Bounds and termination.\<close> No fuel is used; a run of threads through discovery is bounded by
  thirteen steps per thread, a theorem. The loops of the source are structural
  recursions over lists, with one measure for the chunk loop. Integers are unbounded where the
  code cannot overflow and \<open>int64\<close> with \<open>wrap64\<close> where it can (durations, numeric claims). The
  renewal threshold is a \<open>float64\<close> with infinities and NaN; its arithmetic is not rounded.
  The loop of the file watcher does not end in the code; it is a function of the finite
  sequence of events it has received, and the timer that is left running then fires.

  \<^bold>\<open>Not modelled.\<close> Interleavings outside the two lock protocols: elsewhere each request runs
  alone, and the served map is replaced as a whole, as by the atomic pointer. Which lines the
  handlers log, deadlines of
  outgoing requests beyond their value, TLS set-up and listening sockets, the contents of the
  HTML page, and the order in which Go ranges over a map (an association list in any order
  stands for it).
\<close>

end
